theory Spec2Isabelle
  imports Complex_Main "HOL-Library.Word"
begin

section \<open>Conventions\<close>

text \<open>
  The program is a single JavaScript module (\<^verbatim>\<open>main.js\<close>) whose state lives in
  module-level \<^verbatim>\<open>let\<close> variables. Each group of variables becomes a record, each
  function a state transformer that returns the updated record. JavaScript numbers are
  modelled as exact reals (rounding of IEEE doubles is not modelled); where the source
  would produce a non-finite number the model says so explicitly. Readings of
  \<^verbatim>\<open>performance.now()\<close> and the per-frame \<^verbatim>\<open>dt\<close> are passed in as arguments.
\<close>

section \<open>Night-vision auto-gain\<close>

definition AE_SIZE :: nat where
  "AE_SIZE = 32"

definition aeTargetLuma :: real where
  "aeTargetLuma = 0.18"

definition aeMinGain :: real where
  "aeMinGain = 0.80"

definition aeMaxGain :: real where
  "aeMaxGain = 3.20"

text \<open>The uniforms of the post-processing pass that the controller writes.\<close>

record nv_pass =
  uOn :: real
  uGain :: real

record nv_state =
  nightVisionOn :: bool
  nightVisionPass :: "nv_pass option"
  aeGain :: real
  aeSampleAccum :: real
  toneMappingExposure :: real
  baseExposure :: real
  hemiIntensity :: real

text \<open>The module's initial values (\<^verbatim>\<open>nightVisionPass\<close> is created later by \<^verbatim>\<open>initPostFX\<close>).\<close>

definition nv_init :: "real \<Rightarrow> nv_state" where
  "nv_init exposure =
     \<lparr>nightVisionOn = False, nightVisionPass = None, aeGain = 1.45, aeSampleAccum = 0,
      toneMappingExposure = exposure, baseExposure = exposure, hemiIntensity = 0\<rparr>"

definition initPostFX :: "nv_state \<Rightarrow> nv_state" where
  "initPostFX s = s\<lparr>nightVisionPass := Some \<lparr>uOn = 0, uGain = 1.45\<rparr>\<rparr>"

text \<open>
  The luminance loop over the read-back buffer \<^verbatim>\<open>aePixels\<close> (a \<^verbatim>\<open>Uint8Array\<close> of RGBA
  bytes, stepped four at a time), with the running \<^verbatim>\<open>sum\<close> as accumulator. The buffer
  has \<open>AE_SIZE * AE_SIZE * 4\<close> entries, so the loop never reads past its end; the last
  equation covers lists that are not a multiple of four long, which the program never
  builds.
\<close>

definition pixelLuma :: "8 word \<Rightarrow> 8 word \<Rightarrow> 8 word \<Rightarrow> real" where
  "pixelLuma r g b =
     0.2126 * (real (unat r) / 255) + 0.7152 * (real (unat g) / 255)
     + 0.0722 * (real (unat b) / 255)"

fun lumaLoop :: "8 word list \<Rightarrow> real \<Rightarrow> real" where
  "lumaLoop (r # g # b # a # rest) acc = lumaLoop rest (acc + pixelLuma r g b)"
| "lumaLoop _ acc = acc"

definition avgLuma :: "8 word list \<Rightarrow> real" where
  "avgLuma aePixels = lumaLoop aePixels 0 / real (AE_SIZE * AE_SIZE)"

definition desiredGain :: "real \<Rightarrow> real" where
  "desiredGain luma =
     max aeMinGain (min aeMaxGain (aeTargetLuma / max (1 / 10000) luma))"

definition updateNightVisionAutoGain :: "real \<Rightarrow> 8 word list \<Rightarrow> nv_state \<Rightarrow> nv_state" where
  "updateNightVisionAutoGain dt aePixels s =
     (case nightVisionPass s of
        None \<Rightarrow> s
      | Some pass \<Rightarrow>
          if \<not> nightVisionOn s then s
          else
            let acc = aeSampleAccum s + dt in
            if acc < 1 / 12 then s\<lparr>aeSampleAccum := acc\<rparr>
            else
              let desired = desiredGain (avgLuma aePixels);
                  adapt = 0.10;
                  g = aeGain s + (desired - aeGain s) * adapt
              in s\<lparr>aeSampleAccum := 0, aeGain := g,
                    nightVisionPass := Some (pass\<lparr>uGain := g\<rparr>)\<rparr>)"

definition setNightVision :: "bool \<Rightarrow> nv_state \<Rightarrow> nv_state" where
  "setNightVision on s =
     (let s1 = s\<lparr>nightVisionOn := on,
                  nightVisionPass :=
                    map_option (\<lambda>p. p\<lparr>uOn := (if on then 1 else 0)\<rparr>) (nightVisionPass s)\<rparr>
      in if on then
           s1\<lparr>baseExposure := toneMappingExposure s1,
               aeGain := 1.45,
               aeSampleAccum := 0,
               nightVisionPass := map_option (\<lambda>p. p\<lparr>uGain := 1.45\<rparr>) (nightVisionPass s1),
               toneMappingExposure := 1.10,
               hemiIntensity := 0.06\<rparr>
         else
           s1\<lparr>toneMappingExposure := baseExposure s1, hemiIntensity := 0.0\<rparr>)"

text \<open>
  Everything that touches the gain state after start-up: creating the pass, the lamp
  click that toggles night vision, and the per-frame controller call.
\<close>

datatype nv_event =
  InitPostFX
| SetNightVision bool
| AutoGainFrame real "8 word list"

fun nv_step :: "nv_event \<Rightarrow> nv_state \<Rightarrow> nv_state" where
  "nv_step InitPostFX s = initPostFX s"
| "nv_step (SetNightVision on) s = setNightVision on s"
| "nv_step (AutoGainFrame dt px) s = updateNightVisionAutoGain dt px s"

fun nv_run :: "nv_event list \<Rightarrow> nv_state \<Rightarrow> nv_state" where
  "nv_run [] s = s"
| "nv_run (e # es) s = nv_run es (nv_step e s)"

text \<open>
  The controller driven by the render loop: call number \<open>n\<close> gets the frame time and
  the read-back \<open>fr n\<close>. A call is a sample tick when the accumulated time reaches a
  twelfth of a second; \<open>sampleTicks n\<close> counts the sample ticks among the first \<open>n\<close>
  calls.
\<close>

fun nvFrames :: "nat \<Rightarrow> (nat \<Rightarrow> real \<times> 8 word list) \<Rightarrow> nv_state \<Rightarrow> nv_state" where
  "nvFrames 0 fr s = s"
| "nvFrames (Suc n) fr s = updateNightVisionAutoGain (fst (fr n)) (snd (fr n)) (nvFrames n fr s)"

definition isSampleTick :: "real \<Rightarrow> nv_state \<Rightarrow> bool" where
  "isSampleTick dt s =
     (nightVisionOn s \<and> nightVisionPass s \<noteq> None \<and> 1 / 12 \<le> aeSampleAccum s + dt)"

fun sampleTicks :: "nat \<Rightarrow> (nat \<Rightarrow> real \<times> 8 word list) \<Rightarrow> nv_state \<Rightarrow> nat" where
  "sampleTicks 0 fr s = 0"
| "sampleTicks (Suc n) fr s =
     sampleTicks n fr s + (if isSampleTick (fst (fr n)) (nvFrames n fr s) then 1 else 0)"

definition gainAt :: "nat \<Rightarrow> (nat \<Rightarrow> real \<times> 8 word list) \<Rightarrow> nv_state \<Rightarrow> real" where
  "gainAt n fr s = aeGain (nvFrames n fr s)"

text \<open>A read-back buffer in which every pixel has the same colour.\<close>

definition uniformFrame :: "8 word \<Rightarrow> 8 word \<Rightarrow> 8 word \<Rightarrow> 8 word list" where
  "uniformFrame r g b = concat (replicate (AE_SIZE * AE_SIZE) [r, g, b, 255])"

text \<open>A render loop at 60 frames per second looking at a scene of luminance 0.09.\<close>

definition demo_frames :: "nat \<Rightarrow> real \<times> 8 word list" where
  "demo_frames n = (1 / 60, uniformFrame 44 18 10)"

definition demo_nv :: nv_state where
  "demo_nv = setNightVision True (initPostFX (nv_init 1))"

text \<open>The gain, and the copy of it in the shader uniform, lie between the two bounds.\<close>

definition gain_ok :: "nv_state \<Rightarrow> bool" where
  "gain_ok s =
     (aeMinGain \<le> aeGain s \<and> aeGain s \<le> aeMaxGain
      \<and> (case nightVisionPass s of
            None \<Rightarrow> True
          | Some p \<Rightarrow> aeMinGain \<le> uGain p \<and> uGain p \<le> aeMaxGain))"


section \<open>The TV: data\<close>

text \<open>
  \<^verbatim>\<open>tvUiState\<close> holds one of the strings \<^verbatim>\<open>"MENU"\<close>, \<^verbatim>\<open>"PHOTO"\<close>, \<^verbatim>\<open>"VIDEO"\<close>,
  \<^verbatim>\<open>"3D MODEL"\<close>. \<open>UNDEFINED\<close> is what \<^verbatim>\<open>MENU_ITEMS[menuIndex]\<close> yields for an index
  outside the array.
\<close>

datatype ui_state = MENU | PHOTO | VIDEO | MODEL3D | UNDEFINED

definition MENU_ITEMS :: "ui_state list" where
  "MENU_ITEMS = [PHOTO, VIDEO, MODEL3D]"

definition PHOTO_PATHS :: "string list" where
  "PHOTO_PATHS =
     [''./assets/Photo/01-sweet.jpg'', ''./assets/Photo/02-carti.jpg'',
      ''./assets/Photo/03-james.jpg'', ''./assets/Photo/04-roof.jpg'',
      ''./assets/Photo/05-scan.jpg'', ''./assets/Photo/06-nyc.jpg'',
      ''./assets/Photo/07-nardo.jpg'']"

definition VIDEO_PATHS :: "string list" where
  "VIDEO_PATHS =
     [''./assets/Video/01-sweet93-OG.mp4'', ''./assets/Video/02-sweet93-chopped.mp4'',
      ''./assets/Video/03-sweet93-snow.mp4'']"

definition MODEL_PATHS :: "string list" where
  "MODEL_PATHS =
     [''./assets/3D Model/01-Gate.mp4'', ''./assets/3D Model/02-Skateboard.mp4'',
      ''./assets/3D Model/03-Skateboard-2.mp4'', ''./assets/3D Model/04-UAP.mp4'',
      ''./assets/3D Model/05-website.jpg'']"

text \<open>
  JavaScript's \<^verbatim>\<open>%\<close> takes the sign of the dividend; indexing an array outside its
  bounds yields \<^verbatim>\<open>undefined\<close> (here \<open>None\<close>).
\<close>

definition jsRem :: "int \<Rightarrow> int \<Rightarrow> int" where
  "jsRem a n = (if a < 0 then - ((- a) mod n) else a mod n)"

definition itemAt :: "'a list \<Rightarrow> int \<Rightarrow> 'a option" where
  "itemAt xs i = (if 0 \<le> i \<and> i < int (length xs) then Some (xs ! nat i) else None)"

text \<open>An \<^verbatim>\<open>HTMLImageElement\<close> and an \<^verbatim>\<open>HTMLVideoElement\<close>, as far as the program reads them.\<close>

record image =
  img_src :: "string option"
  img_width :: nat
  img_height :: nat

record video_el =
  el_src :: "string option"
  el_paused :: bool
  el_currentTime :: real
  el_loop :: bool
  el_videoWidth :: nat
  el_videoHeight :: nat

datatype media_src = ImageSrc image | VideoSrc video_el

text \<open>
  The TV canvas (1920 by 1080) is recorded as the drawing operations applied since it
  was last filled completely, oldest first.
\<close>

datatype draw_op =
  FillAll string
| MenuHighlight int real
| MenuLabels
| DrawImage media_src real real real real
| MenuButton bool
| PausedBanner
| TapDot real real real

definition canvasW :: real where
  "canvasW = 1920"

definition canvasH :: real where
  "canvasH = 1080"

text \<open>
  The colour of a pixel is determined by the model only when the canvas holds nothing
  but a full fill; anything else depends on image content and text rasterisation.
\<close>

fun canvasPixel :: "draw_op list \<Rightarrow> nat \<Rightarrow> nat \<Rightarrow> string option" where
  "canvasPixel [FillAll c] x y = (if x < 1920 \<and> y < 1080 then Some c else None)"
| "canvasPixel _ x y = None"

text \<open>The texture transform of \<^verbatim>\<open>tvTex\<close>; the source reads it as \<^verbatim>\<open>tvTex.repeat?.x ?? 1\<close>.\<close>

record tex_transform =
  tex_repeat :: "(real \<times> real) option"
  tex_offset :: "(real \<times> real) option"

record tv_material =
  mat_map :: bool
  mat_emissiveMap :: bool
  mat_emissiveIntensity :: real
  mat_colorMix :: real

record tv_anim =
  anim_from :: real
  anim_to :: real
  anim_t0 :: real

record tap_debug =
  tap_on :: bool
  tap_x :: real
  tap_y :: real
  tap_t :: real

datatype media_type = MediaVideo | MediaImage

record tv_state =
  tvOn :: bool
  tvUiState :: ui_state
  menuIndex :: int
  blinkT0 :: real
  menuHover :: bool
  tvCanvas :: "draw_op list"
  tvTex :: tex_transform
  tvScreenMeshRef :: "real option"
  tvScreenMatRef :: "tv_material option"
  tvAnim :: "tv_anim option"
  tvPower :: real
  tvBootT0 :: real
  tvBooting :: bool
  grainOpacity :: string
  lampMood :: int
  tvTapDebug :: tap_debug
  photoIndex :: int
  photoImage :: "image option"
  photoLoading :: bool
  currentPhotoUrl :: "string option"
  photoRequests :: "string option list"
  overlayOpen :: bool
  videoIndex :: int
  videoEl :: "video_el option"
  videoReady :: bool
  videoPlaying :: bool
  videoWantsAutoPlay :: bool
  videoOverlayOpen :: bool
  tvVideoSuppressed :: bool
  modelIndex :: int
  modelVideoEl :: "video_el option"
  modelImageEl :: "image option"
  modelMediaType :: media_type
  modelReady :: bool
  modelPlaying :: bool
  modelWantsAutoPlay :: bool
  currentModelUrl :: "string option"
  modelImageLoading :: bool
  modelOverlayOpen :: bool
  tvModelSuppressed :: bool

text \<open>
  The state after the module has been loaded and the scene resolved: the TV is off, the
  screen material exists with the canvas texture attached, no media element exists yet,
  the grain overlay has the opacity the module last gave it (\<^verbatim>\<open>"0.03"\<close>).
  \<open>tvScreenMeshRef\<close> carries the mesh's Y scale relative to its original scale,
  \<open>photoRequests\<close> the image loads that \<^verbatim>\<open>ImageLoader\<close> has been asked for and has not
  answered yet (the browser's state, not a variable of the program).
\<close>

definition tv_init :: "real \<Rightarrow> tv_state" where
  "tv_init now =
     \<lparr>tvOn = False, tvUiState = MENU, menuIndex = 0, blinkT0 = now, menuHover = False,
      tvCanvas = [],
      tvTex = \<lparr>tex_repeat = Some (1, 1), tex_offset = Some (0, 0)\<rparr>,
      tvScreenMeshRef = Some 1,
      tvScreenMatRef =
        Some \<lparr>mat_map = True, mat_emissiveMap = True, mat_emissiveIntensity = 0,
              mat_colorMix = 0\<rparr>,
      tvAnim = None, tvPower = 0, tvBootT0 = 0, tvBooting = False,
      grainOpacity = ''0.03'', lampMood = 0,
      tvTapDebug = \<lparr>tap_on = False, tap_x = 0, tap_y = 0, tap_t = 0\<rparr>,
      photoIndex = 0, photoImage = None, photoLoading = False, currentPhotoUrl = None,
      photoRequests = [], overlayOpen = False,
      videoIndex = 0, videoEl = None, videoReady = False, videoPlaying = False,
      videoWantsAutoPlay = False, videoOverlayOpen = False, tvVideoSuppressed = False,
      modelIndex = 0, modelVideoEl = None, modelImageEl = None,
      modelMediaType = MediaVideo, modelReady = False, modelPlaying = False,
      modelWantsAutoPlay = False, currentModelUrl = None, modelImageLoading = False,
      modelOverlayOpen = False, tvModelSuppressed = False\<rparr>"


section \<open>The TV: canvas drawing\<close>

definition clearTvScreen :: "tv_state \<Rightarrow> tv_state" where
  "clearTvScreen s = s\<lparr>tvCanvas := [FillAll ''#000000'']\<rparr>"

definition applyTvTextureEnabled :: "bool \<Rightarrow> tv_state \<Rightarrow> tv_state" where
  "applyTvTextureEnabled enabled s =
     (case tvScreenMatRef s of
        None \<Rightarrow> s
      | Some m \<Rightarrow>
          s\<lparr>tvScreenMatRef := Some (m\<lparr>mat_map := enabled, mat_emissiveMap := enabled\<rparr>)\<rparr>)"

definition drawTvMenu :: "real \<Rightarrow> tv_state \<Rightarrow> tv_state" where
  "drawTvMenu now s =
     s\<lparr>tvCanvas :=
         [FillAll ''#111111'', MenuHighlight (menuIndex s) ((now - blinkT0 s) * 0.001),
          MenuLabels]\<rparr>"

text \<open>
  The cover-fit computation, once per draw routine as in the source. \<open>w\<close> and \<open>h\<close>
  are the canvas size read at the call, \<open>iw\<close> and \<open>ih\<close> what the source element
  reports. In \<^verbatim>\<open>drawPhotoToTv\<close> a zero width or height makes \<^verbatim>\<open>w / iw\<close> infinite and
  the rectangle non-finite, and \<^verbatim>\<open>drawImage\<close> then draws nothing: \<open>None\<close>.
  The two video routines replace a zero dimension first (\<^verbatim>\<open>videoWidth || 16\<close>,
  \<^verbatim>\<open>videoHeight || 9\<close>).
\<close>

record cover =
  cv_scale :: real
  cv_dw :: real
  cv_dh :: real
  cv_dx :: real
  cv_dy :: real

definition photoCover :: "real \<Rightarrow> real \<Rightarrow> nat \<Rightarrow> nat \<Rightarrow> cover option" where
  "photoCover w h iw ih =
     (if iw = 0 \<or> ih = 0 then None
      else
        let scale = max (w / real iw) (h / real ih);
            overscan = 1.02;
            dw = real iw * scale * overscan;
            dh = real ih * scale * overscan;
            dx = (w - dw) * 0.5;
            dy = (h - dh) * 0.5
        in Some \<lparr>cv_scale = scale, cv_dw = dw, cv_dh = dh, cv_dx = dx, cv_dy = dy\<rparr>)"

definition videoCover :: "real \<Rightarrow> real \<Rightarrow> nat \<Rightarrow> nat \<Rightarrow> cover option" where
  "videoCover w h videoWidth videoHeight =
     (let iw = (if videoWidth = 0 then 16 else videoWidth);
          ih = (if videoHeight = 0 then 9 else videoHeight);
          scale = max (w / real iw) (h / real ih);
          overscan = 1.02;
          dw = real iw * scale * overscan;
          dh = real ih * scale * overscan;
          dx = (w - dw) * 0.5;
          dy = (h - dh) * 0.5
      in Some \<lparr>cv_scale = scale, cv_dw = dw, cv_dh = dh, cv_dx = dx, cv_dy = dy\<rparr>)"

definition modelCover :: "real \<Rightarrow> real \<Rightarrow> nat \<Rightarrow> nat \<Rightarrow> cover option" where
  "modelCover w h videoWidth videoHeight =
     (let iw = (if videoWidth = 0 then 16 else videoWidth);
          ih = (if videoHeight = 0 then 9 else videoHeight);
          scale = max (w / real iw) (h / real ih);
          overscan = 1.02;
          dw = real iw * scale * overscan;
          dh = real ih * scale * overscan;
          dx = (w - dw) * 0.5;
          dy = (h - dh) * 0.5
      in Some \<lparr>cv_scale = scale, cv_dw = dw, cv_dh = dh, cv_dx = dx, cv_dy = dy\<rparr>)"

definition drawImageOp :: "media_src \<Rightarrow> cover option \<Rightarrow> draw_op list" where
  "drawImageOp src c =
     (case c of
        None \<Rightarrow> []
      | Some r \<Rightarrow> [DrawImage src (cv_dx r) (cv_dy r) (cv_dw r) (cv_dh r)])"

definition drawPhotoToTv :: "image \<Rightarrow> tv_state \<Rightarrow> tv_state" where
  "drawPhotoToTv img s =
     s\<lparr>tvCanvas :=
         [FillAll ''#000'']
         @ drawImageOp (ImageSrc img) (photoCover canvasW canvasH (img_width img) (img_height img))
         @ (if tvOn s \<and> (tvUiState s = PHOTO \<or> tvUiState s = MODEL3D)
            then [MenuButton (menuHover s)] else [])\<rparr>"

definition drawVideoFrameToTv :: "tv_state \<Rightarrow> tv_state" where
  "drawVideoFrameToTv s =
     (case videoEl s of
        None \<Rightarrow> s
      | Some el \<Rightarrow>
          if \<not> videoReady s then s
          else
            s\<lparr>tvCanvas :=
                [FillAll ''#000'']
                @ drawImageOp (VideoSrc el)
                    (videoCover canvasW canvasH (el_videoWidth el) (el_videoHeight el))
                @ (if tvOn s \<and> tvUiState s = VIDEO then [MenuButton (menuHover s)] else [])
                @ (if el_paused el then [PausedBanner] else [])\<rparr>)"

definition drawModelFrameToTv :: "real \<Rightarrow> tv_state \<Rightarrow> tv_state" where
  "drawModelFrameToTv now s =
     (if modelMediaType s \<noteq> MediaVideo then s
      else
        case modelVideoEl s of
          None \<Rightarrow> s
        | Some el \<Rightarrow>
            if \<not> modelReady s then s
            else
              let dbg = tvTapDebug s;
                  age = (now - tap_t dbg) / 1000;
                  dot = (if tap_on dbg \<and> age < 1.0
                         then [TapDot (tap_x dbg) (tap_y dbg) (1.0 - age)] else []);
                  dbg' = (if tap_on dbg \<and> \<not> age < 1.0 then dbg\<lparr>tap_on := False\<rparr> else dbg)
              in s\<lparr>tvCanvas :=
                    [FillAll ''#000'']
                    @ drawImageOp (VideoSrc el)
                        (modelCover canvasW canvasH (el_videoWidth el) (el_videoHeight el))
                    @ (if tvOn s \<and> tvUiState s = MODEL3D then [MenuButton (menuHover s)] else [])
                    @ (if el_paused el then [PausedBanner] else [])
                    @ dot,
                   tvTapDebug := dbg'\<rparr>)"

definition drawModelToTv :: "real \<Rightarrow> tv_state \<Rightarrow> tv_state" where
  "drawModelToTv now s =
     (if modelMediaType s = MediaImage then
        (case modelImageEl s of
           None \<Rightarrow> s
         | Some img \<Rightarrow> if \<not> modelReady s then s else drawPhotoToTv img s)
      else drawModelFrameToTv now s)"





section \<open>The TV: photo gallery\<close>

text \<open>
  \<^verbatim>\<open>loadPhotoAt\<close> hands the URL to \<^verbatim>\<open>imgLoader.load\<close> with two callbacks. The callbacks
  close over nothing but the URL (used in the warning text only); they are
  \<open>photo_onLoad\<close> and \<open>photo_onError\<close> below.
\<close>

definition loadPhotoAt :: "int \<Rightarrow> tv_state \<Rightarrow> tv_state" where
  "loadPhotoAt index s =
     (if \<not> tvOn s then s
      else if tvUiState s \<noteq> PHOTO then s
      else
        let n = int (length PHOTO_PATHS);
            idx = jsRem (index + n) n;
            url = itemAt PHOTO_PATHS idx
        in s\<lparr>photoIndex := idx, currentPhotoUrl := url, photoLoading := True,
              photoRequests := photoRequests s @ [url]\<rparr>)"

definition photo_onLoad :: "image \<Rightarrow> tv_state \<Rightarrow> tv_state" where
  "photo_onLoad img s = drawPhotoToTv img (s\<lparr>photoImage := Some img, photoLoading := False\<rparr>)"

definition photo_onError :: "tv_state \<Rightarrow> tv_state" where
  "photo_onError s = s\<lparr>photoLoading := False\<rparr>"

text \<open>
  The loader answers the \<open>k\<close>-th outstanding request: with an image of the requested
  URL and the given size, or with a failure. Requests may be answered in any order.
\<close>

definition photoRequestDone :: "nat \<Rightarrow> (nat \<times> nat) option \<Rightarrow> tv_state \<Rightarrow> tv_state" where
  "photoRequestDone k outcome s =
     (if k < length (photoRequests s) then
        let url = photoRequests s ! k;
            s1 = s\<lparr>photoRequests := take k (photoRequests s) @ drop (Suc k) (photoRequests s)\<rparr>
        in (case outcome of
              Some (iw, ih) \<Rightarrow> photo_onLoad \<lparr>img_src = url, img_width = iw, img_height = ih\<rparr> s1
            | None \<Rightarrow> photo_onError s1)
      else s)"

definition nextPhoto :: "int \<Rightarrow> tv_state \<Rightarrow> tv_state" where
  "nextPhoto delta s =
     (if \<not> tvOn s then s
      else if tvUiState s \<noteq> PHOTO then s
      else if photoLoading s then s
      else loadPhotoAt (photoIndex s + delta) s)"

definition openPhotoOverlay :: "string option \<Rightarrow> tv_state \<Rightarrow> tv_state" where
  "openPhotoOverlay url s =
     (if url = None \<or> url = Some [] then s else s\<lparr>overlayOpen := True\<rparr>)"

definition closePhotoOverlay :: "tv_state \<Rightarrow> tv_state" where
  "closePhotoOverlay s = s\<lparr>overlayOpen := False\<rparr>"

section \<open>The TV: video gallery\<close>

text \<open>
  \<^verbatim>\<open>videoEl.play()\<close> is asynchronous and may be refused by the browser; the outcome is
  the argument \<open>playOk\<close>, and the continuation after \<^verbatim>\<open>await\<close> is run at once.
\<close>

definition ensureVideoEl :: "tv_state \<Rightarrow> tv_state" where
  "ensureVideoEl s =
     (case videoEl s of
        Some el \<Rightarrow> s
      | None \<Rightarrow>
          s\<lparr>videoEl :=
              Some \<lparr>el_src = None, el_paused = True, el_currentTime = 0, el_loop = True,
                    el_videoWidth = 0, el_videoHeight = 0\<rparr>\<rparr>)"

definition playVideo :: "bool \<Rightarrow> tv_state \<Rightarrow> tv_state" where
  "playVideo playOk s =
     (if \<not> tvOn s then s
      else if tvUiState s \<noteq> VIDEO then s
      else
        case videoEl s of
          None \<Rightarrow> s
        | Some el \<Rightarrow>
            if playOk then s\<lparr>videoEl := Some (el\<lparr>el_paused := False\<rparr>), videoPlaying := True\<rparr>
            else s\<lparr>videoPlaying := False\<rparr>)"

definition pauseVideo :: "tv_state \<Rightarrow> tv_state" where
  "pauseVideo s =
     (case videoEl s of
        None \<Rightarrow> s
      | Some el \<Rightarrow> s\<lparr>videoEl := Some (el\<lparr>el_paused := True\<rparr>), videoPlaying := False\<rparr>)"

definition stopVideoCompletely :: "tv_state \<Rightarrow> tv_state" where
  "stopVideoCompletely s =
     (case videoEl s of
        None \<Rightarrow> s
      | Some el \<Rightarrow>
          s\<lparr>videoEl := Some (el\<lparr>el_paused := True, el_currentTime := 0\<rparr>),
            videoPlaying := False, videoReady := False\<rparr>)"

definition toggleVideoPlayPause :: "bool \<Rightarrow> tv_state \<Rightarrow> tv_state" where
  "toggleVideoPlayPause playOk s =
     (case videoEl s of
        None \<Rightarrow> s
      | Some el \<Rightarrow> if el_paused el then playVideo playOk s else pauseVideo s)"

definition loadVideoAt :: "int \<Rightarrow> bool \<Rightarrow> bool \<Rightarrow> tv_state \<Rightarrow> tv_state" where
  "loadVideoAt index autoPlay playOk s =
     (if \<not> tvOn s then s
      else if tvUiState s \<noteq> VIDEO then s
      else
        let s1 = ensureVideoEl s;
            n = int (length VIDEO_PATHS);
            idx = jsRem (index + n) n;
            url = itemAt VIDEO_PATHS idx;
            s2 = s1\<lparr>videoIndex := idx, videoReady := False, videoPlaying := False,
                    videoEl :=
                      map_option
                        (\<lambda>el. el\<lparr>el_paused := True, el_currentTime := 0, el_src := url,
                                 el_videoWidth := 0, el_videoHeight := 0\<rparr>)
                        (videoEl s1)\<rparr>;
            s3 = clearTvScreen s2
        in if autoPlay then playVideo playOk s3 else s3)"

definition nextVideo :: "int \<Rightarrow> bool \<Rightarrow> tv_state \<Rightarrow> tv_state" where
  "nextVideo delta playOk s =
     (if \<not> tvOn s then s
      else if tvUiState s \<noteq> VIDEO then s
      else
        let shouldPlay =
              (videoPlaying s \<and> (case videoEl s of None \<Rightarrow> False | Some el \<Rightarrow> \<not> el_paused el))
        in loadVideoAt (videoIndex s + delta) shouldPlay playOk s)"

text \<open>
  The listeners that \<^verbatim>\<open>ensureVideoEl\<close> registers on the element are \<^verbatim>\<open>loadeddata\<close>,
  \<^verbatim>\<open>pause\<close> and \<^verbatim>\<open>play\<close>; \<^verbatim>\<open>loadVideoAt\<close> adds one-shot \<^verbatim>\<open>loadeddata\<close>, \<^verbatim>\<open>canplay\<close> and
  \<^verbatim>\<open>error\<close> listeners whose body only releases the loader. An event of any other
  kind, \<^verbatim>\<open>ended\<close> included, finds no listener. With \<^verbatim>\<open>loadeddata\<close> the browser reports
  the decoded frame size.
\<close>

datatype media_event =
  Loadeddata nat nat
| Canplay
| ErrorEv
| PauseEv
| PlayEv
| EndedEv

definition video_onLoadeddata :: "bool \<Rightarrow> tv_state \<Rightarrow> tv_state" where
  "video_onLoadeddata playOk s =
     (let s1 = s\<lparr>videoReady := True\<rparr>;
          s2 = (if tvOn s1 \<and> tvUiState s1 = VIDEO then drawVideoFrameToTv s1 else s1)
      in if tvOn s2 \<and> tvUiState s2 = VIDEO \<and> videoWantsAutoPlay s2
            \<and> (case videoEl s2 of None \<Rightarrow> False | Some el \<Rightarrow> el_paused el)
         then (playVideo playOk s2)\<lparr>videoWantsAutoPlay := False\<rparr>
         else s2)"

definition videoElDispatch :: "media_event \<Rightarrow> bool \<Rightarrow> tv_state \<Rightarrow> tv_state" where
  "videoElDispatch ev playOk s =
     (case videoEl s of
        None \<Rightarrow> s
      | Some el \<Rightarrow>
          (case ev of
             Loadeddata vw vh \<Rightarrow>
               video_onLoadeddata playOk
                 (s\<lparr>videoEl := Some (el\<lparr>el_videoWidth := vw, el_videoHeight := vh\<rparr>)\<rparr>)
           | PauseEv \<Rightarrow> s\<lparr>videoPlaying := False\<rparr>
           | PlayEv \<Rightarrow> s\<lparr>videoPlaying := True\<rparr>
           | Canplay \<Rightarrow> s
           | ErrorEv \<Rightarrow> s
           | EndedEv \<Rightarrow> s))"

text \<open>
  Playback reaching the end of the file: an element whose \<^verbatim>\<open>loop\<close> attribute is set
  seeks back to the start and keeps playing, and no \<^verbatim>\<open>ended\<close> event is fired; otherwise
  the element pauses and \<^verbatim>\<open>pause\<close> and \<^verbatim>\<open>ended\<close> are dispatched.
\<close>

definition videoReachesEnd :: "bool \<Rightarrow> tv_state \<Rightarrow> tv_state" where
  "videoReachesEnd playOk s =
     (case videoEl s of
        None \<Rightarrow> s
      | Some el \<Rightarrow>
          if el_loop el then s\<lparr>videoEl := Some (el\<lparr>el_currentTime := 0\<rparr>)\<rparr>
          else
            videoElDispatch EndedEv playOk
              (videoElDispatch PauseEv playOk (s\<lparr>videoEl := Some (el\<lparr>el_paused := True\<rparr>)\<rparr>)))"

definition openVideoOverlay :: "tv_state \<Rightarrow> tv_state" where
  "openVideoOverlay s =
     (case videoEl s of
        None \<Rightarrow> s
      | Some el \<Rightarrow>
          let s1 = pauseVideo (s\<lparr>videoOverlayOpen := True, tvVideoSuppressed := False\<rparr>)
          in if tvOn s1 \<and> tvUiState s1 = VIDEO \<and> videoReady s1 then drawVideoFrameToTv s1 else s1)"

text \<open>
  Closing the overlay copies the overlay player's position back; \<open>ov\<close> is the overlay
  player's \<open>(currentTime, paused)\<close> when it has a source, \<open>None\<close> when it has none.
\<close>

definition closeVideoOverlay :: "(real \<times> bool) option \<Rightarrow> bool \<Rightarrow> tv_state \<Rightarrow> tv_state" where
  "closeVideoOverlay ov playOk s =
     (let s1 = s\<lparr>videoOverlayOpen := False, tvVideoSuppressed := False\<rparr>
      in case (videoEl s1, ov) of
           (Some el, Some (t, ovPaused)) \<Rightarrow>
             let s2 = s1\<lparr>videoEl :=
                          Some (el\<lparr>el_currentTime := (if t = 0 then el_currentTime el else t)\<rparr>)\<rparr>
             in if \<not> ovPaused then playVideo playOk s2 else pauseVideo s2
         | _ \<Rightarrow> s1)"


section \<open>The TV: 3D-model gallery\<close>

definition lowerChar :: "char \<Rightarrow> char" where
  "lowerChar c =
     (let n = (of_char c :: nat) in if 65 \<le> n \<and> n \<le> 90 then char_of (n + 32) else c)"

definition hasSuffix :: "string \<Rightarrow> string \<Rightarrow> bool" where
  "hasSuffix suf str =
     (length suf \<le> length str \<and> drop (length str - length suf) str = suf)"

definition isImageUrl :: "string option \<Rightarrow> bool" where
  "isImageUrl url =
     (case url of
        None \<Rightarrow> False
      | Some u \<Rightarrow>
          let p = map lowerChar (takeWhile (\<lambda>c. c \<noteq> CHR ''?'') u)
          in list_ex (\<lambda>ext. hasSuffix ext p) [''.png'', ''.jpg'', ''.jpeg'', ''.webp'', ''.gif''])"

definition ensureModelVideoEl :: "tv_state \<Rightarrow> tv_state" where
  "ensureModelVideoEl s =
     (case modelVideoEl s of
        Some el \<Rightarrow> s
      | None \<Rightarrow>
          s\<lparr>modelVideoEl :=
              Some \<lparr>el_src = None, el_paused = True, el_currentTime = 0, el_loop = True,
                    el_videoWidth = 0, el_videoHeight = 0\<rparr>\<rparr>)"

definition ensureModelImageEl :: "tv_state \<Rightarrow> tv_state" where
  "ensureModelImageEl s =
     (case modelImageEl s of
        Some img \<Rightarrow> s
      | None \<Rightarrow> s\<lparr>modelImageEl := Some \<lparr>img_src = None, img_width = 0, img_height = 0\<rparr>\<rparr>)"

definition playModel :: "bool \<Rightarrow> tv_state \<Rightarrow> tv_state" where
  "playModel playOk s =
     (if \<not> tvOn s then s
      else if tvUiState s \<noteq> MODEL3D then s
      else
        case modelVideoEl s of
          None \<Rightarrow> s
        | Some el \<Rightarrow>
            if playOk then s\<lparr>modelVideoEl := Some (el\<lparr>el_paused := False\<rparr>), modelPlaying := True\<rparr>
            else s\<lparr>modelPlaying := False\<rparr>)"

definition pauseModel :: "tv_state \<Rightarrow> tv_state" where
  "pauseModel s =
     (if modelMediaType s \<noteq> MediaVideo then s
      else
        case modelVideoEl s of
          None \<Rightarrow> s
        | Some el \<Rightarrow> s\<lparr>modelVideoEl := Some (el\<lparr>el_paused := True\<rparr>), modelPlaying := False\<rparr>)"

definition stopModelCompletely :: "tv_state \<Rightarrow> tv_state" where
  "stopModelCompletely s =
     (case modelVideoEl s of
        None \<Rightarrow> s
      | Some el \<Rightarrow>
          s\<lparr>modelVideoEl := Some (el\<lparr>el_paused := True, el_currentTime := 0\<rparr>),
            modelPlaying := False, modelReady := False\<rparr>)"

definition toggleModelPlayPause :: "bool \<Rightarrow> tv_state \<Rightarrow> tv_state" where
  "toggleModelPlayPause playOk s =
     (if modelMediaType s \<noteq> MediaVideo then s
      else
        case modelVideoEl s of
          None \<Rightarrow> s
        | Some el \<Rightarrow> if el_paused el then playModel playOk s else pauseModel s)"

definition loadModelAt :: "int \<Rightarrow> bool \<Rightarrow> bool \<Rightarrow> tv_state \<Rightarrow> tv_state" where
  "loadModelAt index autoPlay playOk s =
     (if \<not> tvOn s then s
      else if tvUiState s \<noteq> MODEL3D then s
      else
        let n = int (length MODEL_PATHS);
            idx = jsRem (index + n) n;
            url = itemAt MODEL_PATHS idx;
            s1 = clearTvScreen
                   (s\<lparr>modelIndex := idx, currentModelUrl := url, modelReady := False,
                      modelPlaying := False\<rparr>)
        in if isImageUrl url then
             (let s2 = ensureModelImageEl (s1\<lparr>modelMediaType := MediaImage\<rparr>)
              in s2\<lparr>modelVideoEl := map_option (\<lambda>el. el\<lparr>el_paused := True\<rparr>) (modelVideoEl s2),
                    modelPlaying := False,
                    modelImageLoading := True,
                    modelImageEl := Some \<lparr>img_src = url, img_width = 0, img_height = 0\<rparr>\<rparr>)
           else
             (let s2 = ensureModelVideoEl (s1\<lparr>modelMediaType := MediaVideo\<rparr>);
                  s3 = s2\<lparr>modelVideoEl :=
                            map_option
                              (\<lambda>el. el\<lparr>el_paused := True, el_currentTime := 0, el_src := url,
                                       el_videoWidth := 0, el_videoHeight := 0\<rparr>)
                              (modelVideoEl s2)\<rparr>
              in if autoPlay then playModel playOk s3 else pauseModel s3))"

definition nextModel :: "int \<Rightarrow> bool \<Rightarrow> tv_state \<Rightarrow> tv_state" where
  "nextModel delta playOk s =
     (if \<not> tvOn s then s
      else if tvUiState s \<noteq> MODEL3D then s
      else
        let shouldPlay =
              (modelPlaying s
               \<and> (case modelVideoEl s of None \<Rightarrow> False | Some el \<Rightarrow> \<not> el_paused el))
        in loadModelAt (modelIndex s + delta) shouldPlay playOk s)"

definition model_onLoadeddata :: "real \<Rightarrow> bool \<Rightarrow> tv_state \<Rightarrow> tv_state" where
  "model_onLoadeddata now playOk s =
     (let s1 = s\<lparr>modelReady := True\<rparr>;
          s2 = (if tvOn s1 \<and> tvUiState s1 = MODEL3D then drawModelToTv now s1 else s1)
      in if tvOn s2 \<and> tvUiState s2 = MODEL3D \<and> modelWantsAutoPlay s2
            \<and> (case modelVideoEl s2 of None \<Rightarrow> False | Some el \<Rightarrow> el_paused el)
         then (playModel playOk s2)\<lparr>modelWantsAutoPlay := False\<rparr>
         else s2)"

definition modelVideoElDispatch :: "media_event \<Rightarrow> real \<Rightarrow> bool \<Rightarrow> tv_state \<Rightarrow> tv_state" where
  "modelVideoElDispatch ev now playOk s =
     (case modelVideoEl s of
        None \<Rightarrow> s
      | Some el \<Rightarrow>
          (case ev of
             Loadeddata vw vh \<Rightarrow>
               model_onLoadeddata now playOk
                 (s\<lparr>modelVideoEl := Some (el\<lparr>el_videoWidth := vw, el_videoHeight := vh\<rparr>)\<rparr>)
           | PauseEv \<Rightarrow> s\<lparr>modelPlaying := False\<rparr>
           | PlayEv \<Rightarrow> s\<lparr>modelPlaying := True\<rparr>
           | Canplay \<Rightarrow> s
           | ErrorEv \<Rightarrow> s
           | EndedEv \<Rightarrow> s))"

text \<open>
  The \<^verbatim>\<open>onload\<close> and \<^verbatim>\<open>onerror\<close> handlers that \<^verbatim>\<open>loadModelAt\<close> installs on the single
  model image element; \<open>None\<close> is a failed load.
\<close>

definition modelImageDone :: "(nat \<times> nat) option \<Rightarrow> real \<Rightarrow> tv_state \<Rightarrow> tv_state" where
  "modelImageDone outcome now s =
     (case modelImageEl s of
        None \<Rightarrow> s
      | Some img \<Rightarrow>
          if \<not> modelImageLoading s then s
          else
            (case outcome of
               Some (iw, ih) \<Rightarrow>
                 drawModelToTv now
                   (s\<lparr>modelImageEl := Some (img\<lparr>img_width := iw, img_height := ih\<rparr>),
                      modelImageLoading := False, modelReady := True\<rparr>)
             | None \<Rightarrow> s\<lparr>modelImageLoading := False\<rparr>))"

definition openModelOverlay :: "real \<Rightarrow> tv_state \<Rightarrow> tv_state" where
  "openModelOverlay now s =
     (if modelMediaType s = MediaVideo \<and> modelVideoEl s = None then s
      else if modelMediaType s = MediaImage
              \<and> (currentModelUrl s = None \<or> currentModelUrl s = Some []) then s
      else
        let s1 = pauseModel (s\<lparr>modelOverlayOpen := True, tvModelSuppressed := False\<rparr>)
        in if tvOn s1 \<and> tvUiState s1 = MODEL3D \<and> modelReady s1
           then drawModelFrameToTv now s1 else s1)"

definition closeModelOverlay :: "(real \<times> bool) option \<Rightarrow> bool \<Rightarrow> tv_state \<Rightarrow> tv_state" where
  "closeModelOverlay ov playOk s =
     (let s1 = s\<lparr>modelOverlayOpen := False, tvModelSuppressed := False\<rparr>
      in case (modelVideoEl s1, ov) of
           (Some el, Some (t, ovPaused)) \<Rightarrow>
             let s2 = s1\<lparr>modelVideoEl :=
                          Some (el\<lparr>el_currentTime := (if t = 0 then el_currentTime el else t)\<rparr>)\<rparr>
             in if \<not> ovPaused then playModel playOk s2 else pauseModel s2
         | _ \<Rightarrow> s1)"


section \<open>The TV: menu and power\<close>

text \<open>
  Where one call of a function reads \<^verbatim>\<open>performance.now()\<close> more than once, the
  readings are taken to be the same instant \<open>now\<close> (milliseconds).
\<close>

definition moveMenuSelection :: "int \<Rightarrow> real \<Rightarrow> tv_state \<Rightarrow> tv_state" where
  "moveMenuSelection delta now s =
     (if \<not> tvOn s then s
      else if tvUiState s \<noteq> MENU then s
      else
        let n = int (length MENU_ITEMS)
        in drawTvMenu now (s\<lparr>menuIndex := jsRem (menuIndex s + delta + n) n, blinkT0 := now\<rparr>))"

definition confirmMenuSelection :: "real \<Rightarrow> bool \<Rightarrow> tv_state \<Rightarrow> tv_state" where
  "confirmMenuSelection now playOk s =
     (if \<not> tvOn s then s
      else if tvUiState s \<noteq> MENU then s
      else
        let selected = (case itemAt MENU_ITEMS (menuIndex s) of None \<Rightarrow> UNDEFINED | Some m \<Rightarrow> m);
            s1 = s\<lparr>tvUiState := selected\<rparr>
        in if selected = PHOTO then loadPhotoAt 0 (s1\<lparr>photoImage := None, photoLoading := False\<rparr>)
           else if selected = VIDEO then loadVideoAt 0 True playOk (ensureVideoEl s1)
           else if selected = MODEL3D then loadModelAt 0 True playOk (ensureModelVideoEl s1)
           else drawTvMenu now s1)"

definition setTvPower :: "bool \<Rightarrow> real \<Rightarrow> tv_state \<Rightarrow> tv_state" where
  "setTvPower nextOn now s =
     (let from = (if tvOn s then 1 else 0 :: real);
          to = (if nextOn then 1 else 0 :: real)
      in if from = to then s
         else
           let s1 = s\<lparr>tvOn := nextOn\<rparr>;
               s2 = (if \<not> tvOn s1 then
                       (applyTvTextureEnabled False
                          (clearTvScreen (stopModelCompletely (stopVideoCompletely s1))))
                         \<lparr>grainOpacity := ''0.02''\<rparr>
                     else (applyTvTextureEnabled True s1)\<lparr>grainOpacity := ''0.03''\<rparr>);
               s3 = (if tvOn s2 then
                       drawTvMenu now
                         (s2\<lparr>blinkT0 := now, tvUiState := MENU, menuIndex := 0,
                             tvBootT0 := now, tvBooting := True\<rparr>)
                     else s2)
           in s3\<lparr>tvAnim := Some \<lparr>anim_from = from, anim_to = to, anim_t0 = now / 1000\<rparr>\<rparr>)"

text \<open>
  The per-frame power animation. \<open>rnd\<close> is the value of \<^verbatim>\<open>Math.random()\<close> used by the
  boot flicker. The animation object is dropped once \<open>DUR = 0.55\<close> seconds have passed.
\<close>

definition updateTv :: "real \<Rightarrow> real \<Rightarrow> tv_state \<Rightarrow> tv_state" where
  "updateTv now rnd s =
     (case (tvScreenMeshRef s, tvAnim s, tvScreenMatRef s) of
        (Some sc, Some anim, Some m) \<Rightarrow>
          let dt = now / 1000 - anim_t0 anim;
              DUR = 0.55;
              t0 = min (dt / DUR) 1;
              t = 1 - (1 - t0) ^ 3;
              a = anim_from anim + (anim_to anim - anim_from anim) * t;
              offI = 0.0;
              onI = 1.25;
              pop = a * (1 - a) * 4;
              intensity0 = offI + (onI - offI) * a + 0.35 * pop;
              dtBoot = (now - tvBootT0 s) / 1000;
              intensity =
                (if tvBooting s then
                   (if dtBoot < 0.08 then intensity0 + 2.2
                    else if dtBoot < 0.23 then intensity0 * (0.85 + rnd * 0.3)
                    else intensity0)
                 else intensity0);
              booting = (if tvBooting s \<and> \<not> dtBoot < 0.23 then False else tvBooting s);
              s1 = s\<lparr>tvPower := a,
                     tvScreenMeshRef := Some (0.985 + 0.015 * a),
                     tvBooting := booting,
                     tvScreenMatRef :=
                       Some (m\<lparr>mat_emissiveIntensity := intensity, mat_colorMix := a\<rparr>)\<rparr>
          in if dt \<ge> DUR then
               s1\<lparr>tvAnim := None,
                   tvScreenMeshRef := Some 1,
                   tvScreenMatRef :=
                     Some (m\<lparr>mat_emissiveIntensity := (if tvOn s then onI else offI),
                             mat_colorMix := (if tvOn s then 1 else 0)\<rparr>),
                   tvPower := (if tvOn s then 1 else 0)\<rparr>
             else s1
      | _ \<Rightarrow> s)"

text \<open>The body of the throttled redraw in \<^verbatim>\<open>animate\<close>, for a tick that is due.\<close>

definition tvRedraw :: "real \<Rightarrow> tv_state \<Rightarrow> tv_state" where
  "tvRedraw now s =
     (if tvOn s \<and> tvScreenMatRef s \<noteq> None then
        (if tvUiState s = MENU then drawTvMenu now s
         else if tvUiState s = PHOTO then
           (let s1 = (if photoImage s = None \<and> \<not> photoLoading s
                      then loadPhotoAt (photoIndex s) s else s)
            in case photoImage s1 of None \<Rightarrow> s1 | Some img \<Rightarrow> drawPhotoToTv img s1)
         else if tvUiState s = VIDEO then
           (if videoReady s \<and> \<not> tvVideoSuppressed s then drawVideoFrameToTv s else s)
         else if tvUiState s = MODEL3D then
           (if modelReady s \<and> \<not> tvModelSuppressed s then drawModelToTv now s else s)
         else s)
      else s)"

section \<open>Screen-space hit mapping and pointer input\<close>

definition TV_MENU_BTN_pad :: real where
  "TV_MENU_BTN_pad = 36"

definition TV_MENU_BTN_w :: real where
  "TV_MENU_BTN_w = 220"

definition TV_MENU_BTN_h :: real where
  "TV_MENU_BTN_h = 86"

text \<open>
  The UV-to-pixel mapping and the button test. The source writes these lines out four
  times, identically: in the PHOTO, VIDEO and 3D MODEL click branches of
  \<^verbatim>\<open>onPointerDown\<close> and in the hover handler.
\<close>

definition uvToPixel :: "tex_transform \<Rightarrow> real \<times> real \<Rightarrow> real \<times> real" where
  "uvToPixel tex uv =
     (let w = canvasW;
          h = canvasH;
          u = fst uv * (case tex_repeat tex of None \<Rightarrow> 1 | Some r \<Rightarrow> fst r)
              + (case tex_offset tex of None \<Rightarrow> 0 | Some off \<Rightarrow> fst off);
          v = snd uv * (case tex_repeat tex of None \<Rightarrow> 1 | Some r \<Rightarrow> snd r)
              + (case tex_offset tex of None \<Rightarrow> 0 | Some off \<Rightarrow> snd off);
          px = u * w;
          py = v * h
      in (px, py))"

definition menuBtnX :: real where
  "menuBtnX = canvasW - TV_MENU_BTN_pad - TV_MENU_BTN_w"

definition menuBtnY :: real where
  "menuBtnY = TV_MENU_BTN_pad"

definition inMenuBtn :: "real \<times> real \<Rightarrow> bool" where
  "inMenuBtn p =
     (let px = fst p; py = snd p; bx = menuBtnX; by = menuBtnY
      in px \<ge> bx \<and> px \<le> bx + TV_MENU_BTN_w \<and> py \<ge> by \<and> py \<le> by + TV_MENU_BTN_h)"

text \<open>
  A pointer-down is described by the mesh reference whose hierarchy contains the first
  ray hit, and the hit's UV coordinate when the mesh has one. A lamp click toggles
  \<^verbatim>\<open>lampMood\<close> and calls \<^verbatim>\<open>setNightVision\<close>, whose write to the grain overlay's opacity
  is recorded here because \<^verbatim>\<open>setTvPower\<close> writes the same style; its effect on the
  night-vision state is \<open>setNightVision\<close> above. The external-link props and the
  speaker do not touch the TV state; the lights and the press animation are not
  modelled.
\<close>

datatype mesh_ref =
  LampMesh | ExternalProp | PowerButton | OkButton | UpArrow | DownArrow | LeftArrow
| RightArrow | TvScreen | Speaker | OtherMesh

record pointer_hit =
  hit_mesh :: mesh_ref
  hit_uv :: "(real \<times> real) option"

definition screenClickPhoto :: "pointer_hit \<Rightarrow> real \<Rightarrow> tv_state \<Rightarrow> tv_state" where
  "screenClickPhoto hit now s =
     (if (case hit_uv hit of None \<Rightarrow> False | Some uv \<Rightarrow> inMenuBtn (uvToPixel (tvTex s) uv))
      then drawTvMenu now (s\<lparr>tvUiState := MENU, blinkT0 := now\<rparr>)
      else openPhotoOverlay (currentPhotoUrl s) s)"

definition screenClickVideo :: "pointer_hit \<Rightarrow> real \<Rightarrow> tv_state \<Rightarrow> tv_state" where
  "screenClickVideo hit now s =
     (if (case hit_uv hit of None \<Rightarrow> False | Some uv \<Rightarrow> inMenuBtn (uvToPixel (tvTex s) uv))
      then drawTvMenu now ((stopVideoCompletely s)\<lparr>tvUiState := MENU, blinkT0 := now\<rparr>)
      else openVideoOverlay s)"

definition screenClickModel :: "pointer_hit \<Rightarrow> real \<Rightarrow> tv_state \<Rightarrow> tv_state" where
  "screenClickModel hit now s =
     (let s1 = (case hit_uv hit of
                  None \<Rightarrow> s
                | Some uv \<Rightarrow>
                    s\<lparr>tvTapDebug :=
                        \<lparr>tap_on = True, tap_x = fst (uvToPixel (tvTex s) uv),
                         tap_y = snd (uvToPixel (tvTex s) uv), tap_t = now\<rparr>\<rparr>)
      in if (case hit_uv hit of None \<Rightarrow> False | Some uv \<Rightarrow> inMenuBtn (uvToPixel (tvTex s) uv))
         then drawTvMenu now ((stopModelCompletely s1)\<lparr>tvUiState := MENU, blinkT0 := now\<rparr>)
         else openModelOverlay now s1)"

definition onPointerDown :: "pointer_hit \<Rightarrow> real \<Rightarrow> bool \<Rightarrow> tv_state \<Rightarrow> tv_state" where
  "onPointerDown hit now playOk s =
     (let m = hit_mesh hit in
      if overlayOpen s \<or> videoOverlayOpen s \<or> modelOverlayOpen s then s
      else if m = LampMesh then
        (let mood = jsRem (lampMood s + 1) 2
         in s\<lparr>lampMood := mood,
               grainOpacity := (if mood = 1 then ''0.06'' else ''0.015'')\<rparr>)
      else if m = ExternalProp then s
      else if tvOn s \<and> tvUiState s = PHOTO \<and> tvScreenMeshRef s \<noteq> None \<and> m = TvScreen
        then screenClickPhoto hit now s
      else if tvOn s \<and> tvUiState s = VIDEO \<and> tvScreenMeshRef s \<noteq> None \<and> m = TvScreen
        then screenClickVideo hit now s
      else if m = PowerButton then setTvPower (\<not> tvOn s) now s
      else if tvOn s \<and> tvUiState s = MENU \<and> m = DownArrow then moveMenuSelection 1 now s
      else if tvOn s \<and> tvUiState s = MENU \<and> m = UpArrow then moveMenuSelection (- 1) now s
      else if tvOn s \<and> tvUiState s = MENU \<and> m = OkButton then confirmMenuSelection now playOk s
      else if tvOn s \<and> tvUiState s = PHOTO \<and> m = RightArrow then nextPhoto 1 s
      else if tvOn s \<and> tvUiState s = PHOTO \<and> m = LeftArrow then nextPhoto (- 1) s
      else if tvOn s \<and> tvUiState s = VIDEO \<and> m = OkButton
        then drawVideoFrameToTv (toggleVideoPlayPause playOk s)
      else if tvOn s \<and> tvUiState s = VIDEO \<and> m = RightArrow then nextVideo 1 playOk s
      else if tvOn s \<and> tvUiState s = VIDEO \<and> m = LeftArrow then nextVideo (- 1) playOk s
      else if tvOn s \<and> tvUiState s = MODEL3D \<and> m = OkButton
        then drawModelFrameToTv now (toggleModelPlayPause playOk s)
      else if tvOn s \<and> tvUiState s = MODEL3D \<and> m = RightArrow then nextModel 1 playOk s
      else if tvOn s \<and> tvUiState s = MODEL3D \<and> m = LeftArrow then nextModel (- 1) playOk s
      else if tvOn s \<and> tvUiState s = MODEL3D \<and> tvScreenMeshRef s \<noteq> None \<and> m = TvScreen
        then screenClickModel hit now s
      else s)"


section \<open>The TV: overlay navigation\<close>

definition overlayNextVideo :: "int \<Rightarrow> tv_state \<Rightarrow> tv_state" where
  "overlayNextVideo delta s =
     (if \<not> videoOverlayOpen s then s
      else if tvUiState s \<noteq> VIDEO then s
      else
        let n = int (length VIDEO_PATHS);
            s1 = s\<lparr>videoIndex := jsRem (videoIndex s + delta + n) n\<rparr>
        in loadVideoAt (videoIndex s1) False False s1)"

definition overlayNextModel :: "int \<Rightarrow> tv_state \<Rightarrow> tv_state" where
  "overlayNextModel delta s =
     (if \<not> modelOverlayOpen s then s
      else if tvUiState s \<noteq> MODEL3D then s
      else
        let n = int (length MODEL_PATHS);
            s1 = s\<lparr>modelIndex := jsRem (modelIndex s + delta + n) n\<rparr>
        in loadModelAt (modelIndex s1) False False s1)"

text \<open>The photo overlay's previous and next buttons (and the arrow keys while it is open).\<close>

definition overlayNavPhoto :: "int \<Rightarrow> tv_state \<Rightarrow> tv_state" where
  "overlayNavPhoto delta s =
     (let s1 = nextPhoto delta s in openPhotoOverlay (currentPhotoUrl s1) s1)"

section \<open>The TV: events\<close>

text \<open>
  Everything that can happen to the TV state between two instants: a pointer-down, a
  rendered frame (power animation, then the redraw when \<open>due\<close>), the image loader
  answering a request, an event on one of the two video elements, the model image
  finishing, the three overlays being closed, and the overlays' previous and next
  buttons.
\<close>

datatype tv_event =
  PointerDown pointer_hit real bool
| Frame real real bool
| PhotoDone nat "(nat \<times> nat) option"
| VideoEvent media_event bool
| VideoEnd bool
| ModelVideoEvent media_event real bool
| ModelImageDone "(nat \<times> nat) option" real
| ClosePhoto
| CloseVideo "(real \<times> bool) option" bool
| CloseModel "(real \<times> bool) option" bool
| OverlayNextVideo int
| OverlayNextModel int
| OverlayNavPhoto int

fun tv_step :: "tv_event \<Rightarrow> tv_state \<Rightarrow> tv_state" where
  "tv_step (PointerDown hit now playOk) s = onPointerDown hit now playOk s"
| "tv_step (Frame now rnd due) s =
     (let s1 = updateTv now rnd s in if due then tvRedraw now s1 else s1)"
| "tv_step (PhotoDone k outcome) s = photoRequestDone k outcome s"
| "tv_step (VideoEvent ev playOk) s = videoElDispatch ev playOk s"
| "tv_step (VideoEnd playOk) s = videoReachesEnd playOk s"
| "tv_step (ModelVideoEvent ev now playOk) s = modelVideoElDispatch ev now playOk s"
| "tv_step (ModelImageDone outcome now) s = modelImageDone outcome now s"
| "tv_step ClosePhoto s = closePhotoOverlay s"
| "tv_step (CloseVideo ov playOk) s = closeVideoOverlay ov playOk s"
| "tv_step (CloseModel ov playOk) s = closeModelOverlay ov playOk s"
| "tv_step (OverlayNextVideo delta) s = overlayNextVideo delta s"
| "tv_step (OverlayNextModel delta) s = overlayNextModel delta s"
| "tv_step (OverlayNavPhoto delta) s = overlayNavPhoto delta s"

fun tv_run :: "tv_event list \<Rightarrow> tv_state \<Rightarrow> tv_state" where
  "tv_run [] s = s"
| "tv_run (e # es) s = tv_run es (tv_step e s)"

text \<open>
  A flag \<^verbatim>\<open>videoPlaying\<close> or \<^verbatim>\<open>modelPlaying\<close> can only be set once the corresponding
  element exists.
\<close>

definition players_wf :: "tv_state \<Rightarrow> bool" where
  "players_wf s =
     ((videoEl s \<noteq> None \<or> \<not> videoPlaying s) \<and> (modelVideoEl s \<noteq> None \<or> \<not> modelPlaying s))"

text \<open>
  The operations of the TV state machine and the states in which each one acts: menu
  selection and confirmation in the menu, navigation in the mode it belongs to, and a
  power request that differs from the current power state.
\<close>

datatype tv_op =
  MoveSelection int
| Confirm
| NavigatePhoto int
| NavigateVideo int
| NavigateModel int
| SetPower bool

fun apply_op :: "tv_op \<Rightarrow> real \<Rightarrow> bool \<Rightarrow> tv_state \<Rightarrow> tv_state" where
  "apply_op (MoveSelection delta) now playOk s = moveMenuSelection delta now s"
| "apply_op Confirm now playOk s = confirmMenuSelection now playOk s"
| "apply_op (NavigatePhoto delta) now playOk s = nextPhoto delta s"
| "apply_op (NavigateVideo delta) now playOk s = nextVideo delta playOk s"
| "apply_op (NavigateModel delta) now playOk s = nextModel delta playOk s"
| "apply_op (SetPower on) now playOk s = setTvPower on now s"

fun op_valid :: "tv_op \<Rightarrow> tv_state \<Rightarrow> bool" where
  "op_valid (MoveSelection delta) s = (tvOn s \<and> tvUiState s = MENU)"
| "op_valid Confirm s = (tvOn s \<and> tvUiState s = MENU)"
| "op_valid (NavigatePhoto delta) s = (tvOn s \<and> tvUiState s = PHOTO)"
| "op_valid (NavigateVideo delta) s = (tvOn s \<and> tvUiState s = VIDEO)"
| "op_valid (NavigateModel delta) s = (tvOn s \<and> tvUiState s = MODEL3D)"
| "op_valid (SetPower on) s = (tvOn s \<noteq> on)"

text \<open>The part of the state that says where the TV is: power, mode, selection, blink baseline.\<close>

definition menuCore :: "tv_state \<Rightarrow> bool \<times> ui_state \<times> int \<times> real" where
  "menuCore s = (tvOn s, tvUiState s, menuIndex s, blinkT0 s)"

text \<open>A click that lands on the in-canvas MENU button while a viewer mode is showing.\<close>

definition menuButtonClick :: "pointer_hit \<Rightarrow> tv_state \<Rightarrow> bool" where
  "menuButtonClick hit s =
     (tvOn s \<and> (tvUiState s = PHOTO \<or> tvUiState s = VIDEO \<or> tvUiState s = MODEL3D)
      \<and> \<not> overlayOpen s \<and> \<not> videoOverlayOpen s \<and> \<not> modelOverlayOpen s
      \<and> tvScreenMeshRef s \<noteq> None \<and> hit_mesh hit = TvScreen
      \<and> (case hit_uv hit of None \<Rightarrow> False | Some uv \<Rightarrow> inMenuBtn (uvToPixel (tvTex s) uv)))"

text \<open>A press of the power button while the TV is off.\<close>

definition powerOnClick :: "pointer_hit \<Rightarrow> tv_state \<Rightarrow> bool" where
  "powerOnClick hit s =
     (\<not> tvOn s \<and> \<not> overlayOpen s \<and> \<not> videoOverlayOpen s \<and> \<not> modelOverlayOpen s
      \<and> hit_mesh hit = PowerButton)"

definition inMenuState :: "tv_state \<Rightarrow> bool" where
  "inMenuState s = (tvOn s \<and> tvUiState s = MENU)"

fun isFrame :: "tv_event \<Rightarrow> bool" where
  "isFrame (Frame now rnd due) = True"
| "isFrame _ = False"

fun isPhotoDone :: "tv_event \<Rightarrow> bool" where
  "isPhotoDone (PhotoDone k outcome) = True"
| "isPhotoDone _ = False"

text \<open>
  The facts about the powered-off screen: playback flags down, both video elements
  paused, every pixel of the canvas \<^verbatim>\<open>#000000\<close>, the texture detached from the screen
  material.
\<close>

definition screenTextureDetached :: "tv_state \<Rightarrow> bool" where
  "screenTextureDetached s =
     (case tvScreenMatRef s of None \<Rightarrow> True | Some m \<Rightarrow> \<not> mat_map m \<and> \<not> mat_emissiveMap m)"

definition elementPaused :: "video_el option \<Rightarrow> bool" where
  "elementPaused e = (case e of None \<Rightarrow> True | Some el \<Rightarrow> el_paused el)"

definition poweredOffEffects :: "tv_state \<Rightarrow> bool" where
  "poweredOffEffects s =
     (\<not> tvOn s \<and> \<not> videoPlaying s \<and> \<not> modelPlaying s
      \<and> elementPaused (videoEl s) \<and> elementPaused (modelVideoEl s)
      \<and> tvCanvas s = [FillAll ''#000000'']
      \<and> screenTextureDetached s)"

text \<open>Concrete states used in examples: a hit without UV, and the TV driven by the remote.\<close>

definition meshHit :: "mesh_ref \<Rightarrow> pointer_hit" where
  "meshHit m = \<lparr>hit_mesh = m, hit_uv = None\<rparr>"

definition screenHit :: "real \<Rightarrow> real \<Rightarrow> pointer_hit" where
  "screenHit u v = \<lparr>hit_mesh = TvScreen, hit_uv = Some (u, v)\<rparr>"

definition demo_menu :: tv_state where
  "demo_menu = onPointerDown (meshHit PowerButton) 1000 True (tv_init 0)"

definition demo_photo :: tv_state where
  "demo_photo =
     photoRequestDone 0 (Some (800, 600)) (onPointerDown (meshHit OkButton) 2000 True demo_menu)"

definition demo_video :: tv_state where
  "demo_video =
     videoElDispatch (Loadeddata 1280 720) True
       (onPointerDown (meshHit OkButton) 3000 True
          (onPointerDown (meshHit DownArrow) 2000 True demo_menu))"

text \<open>Two photo loads issued back to back, index 0 and then index 1.\<close>

definition demo_two_loads :: tv_state where
  "demo_two_loads = loadPhotoAt 1 (loadPhotoAt 0 demo_photo)"



text \<open>The 3D-model viewer showing its first item, a video of 1920 by 1080.\<close>

definition demo_model :: tv_state where
  "demo_model =
     modelVideoElDispatch (Loadeddata 1920 1080) 3500 True
       (onPointerDown (meshHit OkButton) 3000 True
          (onPointerDown (meshHit DownArrow) 2500 True
             (onPointerDown (meshHit DownArrow) 2000 True demo_menu)))"

text \<open>Every video element the program creates has \<^verbatim>\<open>loop\<close> set.\<close>

definition elementLoops :: "video_el option \<Rightarrow> bool" where
  "elementLoops e = (case e of None \<Rightarrow> True | Some el \<Rightarrow> el_loop el)"

definition videoLoops :: "tv_state \<Rightarrow> bool" where
  "videoLoops s = (elementLoops (videoEl s) \<and> elementLoops (modelVideoEl s))"

text \<open>
  A session at the remote: power, OK (photo 0 requested), MENU button, OK (photo 0
  requested again over the pending request), the first request answered, right arrow
  (photo 1 requested), then the request for photo 1 answered, and last the pending
  request for photo 0.
\<close>

definition stale_session :: "tv_event list" where
  "stale_session =
     [PointerDown (meshHit PowerButton) 1000 True,
      PointerDown (meshHit OkButton) 2000 True,
      PointerDown (screenHit 0.95 0.05) 3000 True,
      PointerDown (meshHit OkButton) 4000 True,
      PhotoDone 0 (Some (800, 600)),
      PointerDown (meshHit RightArrow) 5000 True,
      PhotoDone 1 (Some (1024, 768)),
      PhotoDone 0 (Some (800, 600))]"

definition demo_stale :: tv_state where
  "demo_stale = tv_run stale_session (tv_init 0)"

section \<open>The speaker playlist\<close>

record audio_state =
  trackIndex :: int
  isPlaying :: bool

definition trackCount :: int where
  "trackCount = 19"

definition nextTrack :: "bool \<Rightarrow> bool \<Rightarrow> audio_state \<Rightarrow> audio_state" where
  "nextTrack forcePlay playOk a =
     (let wasPlaying = (isPlaying a \<or> forcePlay);
          a1 = a\<lparr>trackIndex := jsRem (trackIndex a + 1) trackCount\<rparr>
      in if wasPlaying then (if playOk then a1\<lparr>isPlaying := True\<rparr> else a1)
         else a1\<lparr>isPlaying := False\<rparr>)"

text \<open>The \<^verbatim>\<open>ended\<close> listener of the \<open>i\<close>-th audio element.\<close>

definition audio_onEnded :: "int \<Rightarrow> bool \<Rightarrow> audio_state \<Rightarrow> audio_state" where
  "audio_onEnded i playOk a =
     (if i \<noteq> trackIndex a then a
      else if \<not> isPlaying a then a
      else nextTrack False playOk a)"

section \<open>Hover glow\<close>

type_synonym colour = "real \<times> real \<times> real"

definition REMOTE_GLOW_COLOR :: colour where
  "REMOTE_GLOW_COLOR = (245 / 255, 248 / 255, 255 / 255)"

definition POWER_GLOW_COLOR :: colour where
  "POWER_GLOW_COLOR = (255 / 255, 58 / 255, 58 / 255)"

definition REMOTE_GLOW_INTENSITY :: real where
  "REMOTE_GLOW_INTENSITY = 0.70"

definition POWER_GLOW_INTENSITY :: real where
  "POWER_GLOW_INTENSITY = 0.50"

definition GLOW_TINT_STRENGTH :: real where
  "GLOW_TINT_STRENGTH = 0.20"

definition GLOW_LERP_IN :: real where
  "GLOW_LERP_IN = 0.22"

definition GLOW_LERP_OUT :: real where
  "GLOW_LERP_OUT = 0.22"

definition POWER_GLOW_LERP_OUT :: real where
  "POWER_GLOW_LERP_OUT = 0.45"

definition MAX_GLOW_HOVER_MS :: real where
  "MAX_GLOW_HOVER_MS = 2000"

record material =
  emissive :: colour
  emissiveIntensity :: real

record glow_st =
  baseE :: colour
  baseI :: real
  glow_t :: real
  glow_target :: real
  glow_color :: colour
  hoverStartMs :: real
  forcedOff :: bool

text \<open>
  \<open>meshMat\<close> gives, for a mesh reference that is resolved and whose (first) material
  has \<^verbatim>\<open>emissive\<close> and \<^verbatim>\<open>emissiveIntensity\<close>, that material; \<open>glowState\<close> is the
  \<^verbatim>\<open>Map\<close> from meshes to their glow records.
\<close>

record glow_world =
  meshMat :: "mesh_ref \<rightharpoonup> material"
  glowState :: "mesh_ref \<rightharpoonup> glow_st"

definition ensureGlowState :: "mesh_ref \<Rightarrow> colour \<Rightarrow> glow_world \<Rightarrow> glow_world" where
  "ensureGlowState mesh glowColor g =
     (case meshMat g mesh of
        None \<Rightarrow> g
      | Some mat \<Rightarrow>
          if glowState g mesh \<noteq> None then g
          else
            g\<lparr>glowState := (glowState g)(mesh \<mapsto>
                 \<lparr>baseE = emissive mat, baseI = emissiveIntensity mat, glow_t = 0,
                  glow_target = 0, glow_color = glowColor, hoverStartMs = 0,
                  forcedOff = False\<rparr>)\<rparr>)"

definition setGlowTarget :: "mesh_ref \<Rightarrow> bool \<Rightarrow> colour \<Rightarrow> real \<Rightarrow> glow_world \<Rightarrow> glow_world" where
  "setGlowTarget mesh targetOn glowColor now g =
     (let g1 = ensureGlowState mesh glowColor g
      in case glowState g1 mesh of
           None \<Rightarrow> g1
         | Some st0 \<Rightarrow>
             let st = st0\<lparr>glow_color := glowColor\<rparr>
             in if targetOn then
                  (let st1 = (if hoverStartMs st = 0 then st\<lparr>hoverStartMs := now\<rparr> else st)
                   in if forcedOff st1 then
                        g1\<lparr>glowState := (glowState g1)(mesh \<mapsto> st1\<lparr>glow_target := 0\<rparr>)\<rparr>
                      else if now - hoverStartMs st1 \<ge> MAX_GLOW_HOVER_MS then
                        g1\<lparr>glowState := (glowState g1)(mesh \<mapsto>
                             st1\<lparr>forcedOff := True, glow_target := 0\<rparr>)\<rparr>
                      else g1\<lparr>glowState := (glowState g1)(mesh \<mapsto> st1\<lparr>glow_target := 1\<rparr>)\<rparr>)
                else
                  g1\<lparr>glowState := (glowState g1)(mesh \<mapsto>
                       st\<lparr>hoverStartMs := 0, forcedOff := False, glow_target := 0\<rparr>)\<rparr>)"

definition clearAllButtonGlows :: "real \<Rightarrow> glow_world \<Rightarrow> glow_world" where
  "clearAllButtonGlows now g =
     setGlowTarget RightArrow False REMOTE_GLOW_COLOR now
       (setGlowTarget LeftArrow False REMOTE_GLOW_COLOR now
         (setGlowTarget DownArrow False REMOTE_GLOW_COLOR now
           (setGlowTarget UpArrow False REMOTE_GLOW_COLOR now
             (setGlowTarget OkButton False REMOTE_GLOW_COLOR now
               (setGlowTarget PowerButton False POWER_GLOW_COLOR now g)))))"

text \<open>One entry of the \<^verbatim>\<open>forEach\<close> in \<^verbatim>\<open>updateGlow\<close>: the new record and the new material.\<close>

definition glowCutoff :: "real \<Rightarrow> glow_st \<Rightarrow> glow_st" where
  "glowCutoff now st =
     (if glow_target st = 1 \<and> hoverStartMs st \<noteq> 0 \<and> \<not> forcedOff st
         \<and> now - hoverStartMs st \<ge> MAX_GLOW_HOVER_MS
      then st\<lparr>forcedOff := True, glow_target := 0\<rparr> else st)"

definition glowLerp :: "glow_st \<Rightarrow> glow_st" where
  "glowLerp st =
     (let isPower = (glow_color st = POWER_GLOW_COLOR);
          lerpSpeed = (if glow_target st > glow_t st then GLOW_LERP_IN
                       else if isPower then POWER_GLOW_LERP_OUT else GLOW_LERP_OUT)
      in st\<lparr>glow_t := glow_t st + (glow_target st - glow_t st) * lerpSpeed\<rparr>)"

definition lerpColour :: "colour \<Rightarrow> colour \<Rightarrow> real \<Rightarrow> colour" where
  "lerpColour a b alpha =
     (case (a, b) of
        ((ar, ag, ab), (br, bg, bb)) \<Rightarrow>
          (ar + (br - ar) * alpha, ag + (bg - ag) * alpha, ab + (bb - ab) * alpha))"

definition glowMaterial :: "glow_st \<Rightarrow> material \<Rightarrow> material" where
  "glowMaterial st mat =
     (let isPower = (glow_color st = POWER_GLOW_COLOR);
          glowI = (if isPower then POWER_GLOW_INTENSITY else REMOTE_GLOW_INTENSITY)
      in mat\<lparr>emissive := lerpColour (baseE st) (glow_color st) (glow_t st * GLOW_TINT_STRENGTH),
              emissiveIntensity := baseI st + glowI * glow_t st\<rparr>)"

definition updateGlow :: "real \<Rightarrow> glow_world \<Rightarrow> glow_world" where
  "updateGlow now g =
     g\<lparr>glowState :=
         (\<lambda>mesh. case glowState g mesh of
                    None \<Rightarrow> None
                  | Some st \<Rightarrow>
                      (case meshMat g mesh of
                         None \<Rightarrow> Some (glowCutoff now st)
                       | Some mat \<Rightarrow> Some (glowLerp (glowCutoff now st)))),
       meshMat :=
         (\<lambda>mesh. case meshMat g mesh of
                    None \<Rightarrow> None
                  | Some mat \<Rightarrow>
                      (case glowState g mesh of
                         None \<Rightarrow> Some mat
                       | Some st \<Rightarrow> Some (glowMaterial (glowLerp (glowCutoff now st)) mat)))\<rparr>"

text \<open>
  The glow part of the pointer-move handler. \<open>hit = None\<close> stands for the cases in
  which the handler clears all glows: an overlay is open, the pointer is outside the
  viewport, or the ray hits nothing. Remote buttons count as hovered only while the TV
  is on.
\<close>

definition pointerMoveGlow :: "mesh_ref option \<Rightarrow> bool \<Rightarrow> real \<Rightarrow> glow_world \<Rightarrow> glow_world" where
  "pointerMoveGlow hit tvIsOn now g =
     (case hit of
        None \<Rightarrow> clearAllButtonGlows now g
      | Some m \<Rightarrow>
          setGlowTarget RightArrow (tvIsOn \<and> m = RightArrow) REMOTE_GLOW_COLOR now
            (setGlowTarget LeftArrow (tvIsOn \<and> m = LeftArrow) REMOTE_GLOW_COLOR now
              (setGlowTarget DownArrow (tvIsOn \<and> m = DownArrow) REMOTE_GLOW_COLOR now
                (setGlowTarget UpArrow (tvIsOn \<and> m = UpArrow) REMOTE_GLOW_COLOR now
                  (setGlowTarget OkButton (tvIsOn \<and> m = OkButton) REMOTE_GLOW_COLOR now
                    (setGlowTarget PowerButton (m = PowerButton) POWER_GLOW_COLOR now g))))))"

datatype glow_event =
  PointerMove "mesh_ref option" bool real
| PointerLeave real
| GlowFrame real

fun glow_step :: "glow_event \<Rightarrow> glow_world \<Rightarrow> glow_world" where
  "glow_step (PointerMove hit tvIsOn now) g = pointerMoveGlow hit tvIsOn now g"
| "glow_step (PointerLeave now) g = clearAllButtonGlows now g"
| "glow_step (GlowFrame now) g = updateGlow now g"

fun glow_run :: "glow_event list \<Rightarrow> glow_world \<Rightarrow> glow_world" where
  "glow_run [] g = g"
| "glow_run (e # es) g = glow_run es (glow_step e g)"

text \<open>
  An event during which the pointer stays on button \<open>b\<close>: a pointer-move whose hit is
  \<open>b\<close> (with the TV on, unless \<open>b\<close> is the power button), or a rendered frame.
\<close>

fun hoverOn :: "mesh_ref \<Rightarrow> glow_event \<Rightarrow> bool" where
  "hoverOn b (PointerMove hit tvIsOn now) = (hit = Some b \<and> (tvIsOn \<or> b = PowerButton))"
| "hoverOn b (PointerLeave now) = False"
| "hoverOn b (GlowFrame now) = True"

fun eventTime :: "glow_event \<Rightarrow> real" where
  "eventTime (PointerMove hit tvIsOn now) = now"
| "eventTime (PointerLeave now) = now"
| "eventTime (GlowFrame now) = now"

definition isButton :: "mesh_ref \<Rightarrow> bool" where
  "isButton b =
     (b = PowerButton \<or> b = OkButton \<or> b = UpArrow \<or> b = DownArrow \<or> b = LeftArrow
      \<or> b = RightArrow)"

definition glowTargetOf :: "glow_world \<Rightarrow> mesh_ref \<Rightarrow> real option" where
  "glowTargetOf g b = map_option glow_target (glowState g b)"

text \<open>
  The three situations of one button's glow record: not hovered (no record yet, or timer
  and cutoff flag cleared), hovered since \<open>t0\<close> and allowed to glow, hovered since
  \<open>t0\<close> and cut off. In each the button has a material that can glow.
\<close>

definition glowIdle :: "glow_world \<Rightarrow> mesh_ref \<Rightarrow> bool" where
  "glowIdle g b =
     (meshMat g b \<noteq> None
      \<and> (case glowState g b of
            None \<Rightarrow> True
          | Some st \<Rightarrow> hoverStartMs st = 0 \<and> \<not> forcedOff st))"

definition glowLive :: "real \<Rightarrow> glow_world \<Rightarrow> mesh_ref \<Rightarrow> bool" where
  "glowLive t0 g b =
     (meshMat g b \<noteq> None
      \<and> (case glowState g b of
            None \<Rightarrow> False
          | Some st \<Rightarrow> hoverStartMs st = t0 \<and> glow_target st = 1 \<and> \<not> forcedOff st))"

definition glowCut :: "real \<Rightarrow> glow_world \<Rightarrow> mesh_ref \<Rightarrow> bool" where
  "glowCut t0 g b =
     (meshMat g b \<noteq> None
      \<and> (case glowState g b of
            None \<Rightarrow> False
          | Some st \<Rightarrow> hoverStartMs st = t0 \<and> glow_target st = 0 \<and> forcedOff st))"

text \<open>A scene in which the power button and the OK button can glow; nothing hovered yet.\<close>

definition demo_glow :: glow_world where
  "demo_glow =
     \<lparr>meshMat = [PowerButton \<mapsto> \<lparr>emissive = (0, 0, 0), emissiveIntensity = 0\<rparr>,
                 OkButton \<mapsto> \<lparr>emissive = (0, 0, 0), emissiveIntensity = 0\<rparr>],
      glowState = Map.empty\<rparr>"

section \<open>Night-vision auto-gain: properties\<close>

lemma desiredGain_bounds: "aeMinGain \<le> desiredGain l \<and> desiredGain l \<le> aeMaxGain"
  unfolding desiredGain_def aeMinGain_def aeMaxGain_def
  by (auto simp: max_def min_def)

lemma desiredGain_009: "desiredGain 0.09 = 2"
  by (simp add: desiredGain_def aeMinGain_def aeMaxGain_def aeTargetLuma_def)

lemma convex_in_range:
  fixes g d :: real
  assumes "lo \<le> g" "g \<le> hi" "lo \<le> d" "d \<le> hi"
  shows "lo \<le> g + (d - g) * 0.10 \<and> g + (d - g) * 0.10 \<le> hi"
proof -
  have "g + (d - g) * 0.10 = 0.9 * g + 0.1 * d" by (simp add: field_simps)
  moreover have "lo \<le> 0.9 * g + 0.1 * d" using assms by linarith
  moreover have "0.9 * g + 0.1 * d \<le> hi" using assms by linarith
  ultimately show ?thesis by simp
qed

lemma update_gain_ok: "gain_ok s \<Longrightarrow> gain_ok (updateNightVisionAutoGain dt px s)"
  using convex_in_range[of aeMinGain "aeGain s" aeMaxGain "desiredGain (avgLuma px)"] desiredGain_bounds[of "avgLuma px"]
  by (auto simp: gain_ok_def updateNightVisionAutoGain_def Let_def split: option.splits)

lemma setNV_gain_ok: "gain_ok s \<Longrightarrow> gain_ok (setNightVision on s)"
  by (auto simp: gain_ok_def setNightVision_def Let_def aeMinGain_def aeMaxGain_def split: option.splits)

lemma setNV_on_gain: "aeGain (setNightVision True s) = 1.45"
  by (simp add: setNightVision_def Let_def)

lemma step_gain_ok: "gain_ok s \<Longrightarrow> gain_ok (nv_step e s)"
  by (cases e)
    (simp_all add: update_gain_ok setNV_gain_ok,
     simp add: gain_ok_def initPostFX_def aeMinGain_def aeMaxGain_def)

lemma run_gain_ok: "gain_ok s \<Longrightarrow> gain_ok (nv_run es s)"
  by (induction es arbitrary: s) (simp_all add: step_gain_ok)

lemma init_gain_ok: "gain_ok (nv_init e)"
  by (simp add: gain_ok_def nv_init_def aeMinGain_def aeMaxGain_def)

lemma lumaLoop_uniform:
  "lumaLoop (concat (replicate n [r, g, b, a])) acc = acc + real n * pixelLuma r g b"
  by (induction n arbitrary: acc) (simp_all add: algebra_simps)

lemma avgLuma_uniform: "avgLuma (uniformFrame r g b) = pixelLuma r g b"
  by (simp add: avgLuma_def uniformFrame_def lumaLoop_uniform AE_SIZE_def)

lemma avgLuma_example: "avgLuma (uniformFrame 44 18 10) = 0.09"
  by (simp add: avgLuma_uniform pixelLuma_def)

lemma call_gain:
  "aeGain (updateNightVisionAutoGain dt px s)
     = (if isSampleTick dt s then aeGain s + (desiredGain (avgLuma px) - aeGain s) * 0.10
        else aeGain s)"
  by (auto simp: updateNightVisionAutoGain_def isSampleTick_def Let_def split: option.splits)

lemma call_keeps_on:
  "nightVisionOn (updateNightVisionAutoGain dt px s) = nightVisionOn s"
  "(nightVisionPass (updateNightVisionAutoGain dt px s) = None) = (nightVisionPass s = None)"
  by (auto simp: updateNightVisionAutoGain_def Let_def split: option.splits)

lemma call_accum:
  assumes "nightVisionOn s" and "nightVisionPass s \<noteq> None"
  shows "aeSampleAccum (updateNightVisionAutoGain dt px s)
           = (if isSampleTick dt s then 0 else aeSampleAccum s + dt)"
  using assms
  by (auto simp: updateNightVisionAutoGain_def isSampleTick_def Let_def split: option.splits)

lemma frames_keep_on:
  "nightVisionOn (nvFrames n fr s) = nightVisionOn s"
  "(nightVisionPass (nvFrames n fr s) = None) = (nightVisionPass s = None)"
  by (induction n) (simp_all add: call_keeps_on)

lemma gainAt_Suc:
  "gainAt (Suc n) fr s
     = (if isSampleTick (fst (fr n)) (nvFrames n fr s)
        then gainAt n fr s + (desiredGain (avgLuma (snd (fr n))) - gainAt n fr s) * 0.10
        else gainAt n fr s)"
  by (simp add: gainAt_def call_gain)

lemma gainAt_closed:
  assumes "\<forall>n. avgLuma (snd (fr n)) = 0.09"
  shows "2 - gainAt n fr s = 0.9 ^ sampleTicks n fr s * (2 - aeGain s)"
proof (induction n)
  case 0
  show ?case by (simp add: gainAt_def)
next
  case (Suc n)
  have d: "desiredGain (avgLuma (snd (fr n))) = 2"
    using assms desiredGain_009 by metis
  show ?case
  proof (cases "isSampleTick (fst (fr n)) (nvFrames n fr s)")
    case True
    have "2 - gainAt (Suc n) fr s = 0.9 * (2 - gainAt n fr s)"
      using True by (simp add: gainAt_Suc d field_simps)
    then show ?thesis using Suc True by simp
  next
    case False
    then show ?thesis using Suc by (simp add: gainAt_Suc)
  qed
qed

lemma sampleTicks_mono: "m \<le> n \<Longrightarrow> sampleTicks m fr s \<le> sampleTicks n fr s"
proof (induction n)
  case 0
  then show ?case by simp
next
  case (Suc n)
  show ?case
  proof (cases "m = Suc n")
    case True
    then show ?thesis by simp
  next
    case False
    then have "m \<le> n" using Suc.prems by simp
    then have "sampleTicks m fr s \<le> sampleTicks n fr s" by (rule Suc.IH)
    then show ?thesis by simp
  qed
qed

lemma pow09_tendsto: "(\<lambda>n. (0.9::real) ^ n * c) \<longlonglongrightarrow> 0"
proof -
  have "(\<lambda>n. (0.9::real) ^ n) \<longlonglongrightarrow> 0" by (rule LIMSEQ_realpow_zero) simp_all
  then show ?thesis by (rule tendsto_mult_left_zero)
qed

lemma ticks_to_infinity:
  assumes "\<forall>K. \<exists>n. K \<le> sampleTicks n fr s"
  shows "filterlim (\<lambda>n. sampleTicks n fr s) at_top sequentially"
proof (subst filterlim_at_top, intro allI)
  fix Z
  obtain N where N: "Z \<le> sampleTicks N fr s" using assms by blast
  have "\<forall>n\<ge>N. Z \<le> sampleTicks n fr s"
    using N sampleTicks_mono[of N _ fr s] by (meson order_trans)
  then show "eventually (\<lambda>n. Z \<le> sampleTicks n fr s) sequentially"
    by (auto simp: eventually_sequentially)
qed

lemma gain_tendsto:
  assumes "\<forall>n. avgLuma (snd (fr n)) = 0.09" and "\<forall>K. \<exists>n. K \<le> sampleTicks n fr s"
  shows "(\<lambda>n. gainAt n fr s) \<longlonglongrightarrow> 2"
proof -
  have "(\<lambda>n. 0.9 ^ sampleTicks n fr s * (2 - aeGain s)) \<longlonglongrightarrow> 0"
    using filterlim_compose[OF pow09_tendsto[of "2 - aeGain s"] ticks_to_infinity[OF assms(2)]]
    by simp
  then have "(\<lambda>n. 2 - 0.9 ^ sampleTicks n fr s * (2 - aeGain s)) \<longlonglongrightarrow> 2 - 0"
    by (intro tendsto_diff tendsto_const)
  moreover have "(\<lambda>n. gainAt n fr s) = (\<lambda>n. 2 - 0.9 ^ sampleTicks n fr s * (2 - aeGain s))"
  proof
    fix n show "gainAt n fr s = 2 - 0.9 ^ sampleTicks n fr s * (2 - aeGain s)"
      using gainAt_closed[OF assms(1), of n s] by simp
  qed
  ultimately show ?thesis by simp
qed

text \<open>
  Claim C10. The gain starts at 1.45, is set to 1.45 whenever night vision is switched
  on, and a controller call either leaves it alone or replaces it by the convex
  combination \<open>0.9 * g + 0.1 * d\<close> with \<open>d\<close> clamped into \<open>[0.80, 3.20]\<close>. After any
  sequence of events the gain lies in \<open>[0.80, 3.20]\<close>.
\<close>

theorem nv_gain_in_range:
  "aeMinGain = 0.80 \<and> aeMaxGain = 3.20
   \<and> aeGain (nv_init exposure) = 1.45
   \<and> aeGain (setNightVision True s) = 1.45
   \<and> (aeGain (updateNightVisionAutoGain dt px s) = aeGain s
       \<or> aeGain (updateNightVisionAutoGain dt px s)
           = (1 - 0.10) * aeGain s + 0.10 * desiredGain (avgLuma px))
   \<and> aeMinGain \<le> desiredGain (avgLuma px) \<and> desiredGain (avgLuma px) \<le> aeMaxGain
   \<and> aeMinGain \<le> aeGain (nv_run es (nv_init exposure))
   \<and> aeGain (nv_run es (nv_init exposure)) \<le> aeMaxGain"
proof -
  have upd: "aeGain (updateNightVisionAutoGain dt px s) = aeGain s
       \<or> aeGain (updateNightVisionAutoGain dt px s)
           = (1 - 0.10) * aeGain s + 0.10 * desiredGain (avgLuma px)"
    by (auto simp: updateNightVisionAutoGain_def Let_def field_simps split: option.splits)
  have "gain_ok (nv_run es (nv_init exposure))" by (rule run_gain_ok) (rule init_gain_ok)
  then have rng: "aeMinGain \<le> aeGain (nv_run es (nv_init exposure))
      \<and> aeGain (nv_run es (nv_init exposure)) \<le> aeMaxGain"
    by (simp add: gain_ok_def)
  have c: "aeMinGain = 0.80 \<and> aeMaxGain = 3.20 \<and> aeGain (nv_init exposure) = 1.45"
    by (simp add: aeMinGain_def aeMaxGain_def nv_init_def)
  show ?thesis using upd rng c setNV_on_gain[of s] desiredGain_bounds[of "avgLuma px"] by blast
qed

lemma sampleTicks_Suc_notick:
  "sampleTicks (Suc n) fr s = sampleTicks n fr s \<longleftrightarrow> \<not> isSampleTick (fst (fr n)) (nvFrames n fr s)"
  by simp

lemma accum_Suc:
  assumes "nightVisionOn s" and "nightVisionPass s \<noteq> None"
  shows "aeSampleAccum (nvFrames (Suc n) fr s)
           = (if isSampleTick (fst (fr n)) (nvFrames n fr s) then 0
              else aeSampleAccum (nvFrames n fr s) + fst (fr n))"
  using assms by (simp add: call_accum frames_keep_on)

lemma accum_nonneg:
  assumes "nightVisionOn s" and "nightVisionPass s \<noteq> None" and "0 \<le> aeSampleAccum s"
    and "\<forall>n. 0 \<le> fst (fr n)"
  shows "0 \<le> aeSampleAccum (nvFrames n fr s)"
proof (induction n)
  case 0
  show ?case using assms(3) by simp
next
  case (Suc n)
  have "0 \<le> fst (fr n)" using assms(4) by simp
  then show ?case using Suc accum_Suc[OF assms(1,2), of n fr] by simp
qed

lemma quiet_stretch:
  assumes "nightVisionOn s" and "nightVisionPass s \<noteq> None"
    and "\<forall>n. d \<le> fst (fr n)"
    and "sampleTicks (n + m) fr s = sampleTicks n fr s"
  shows "aeSampleAccum (nvFrames n fr s) + real m * d \<le> aeSampleAccum (nvFrames (n + m) fr s)"
  using assms(4)
proof (induction m)
  case 0
  show ?case by simp
next
  case (Suc m)
  have le1: "sampleTicks n fr s \<le> sampleTicks (n + m) fr s" by (rule sampleTicks_mono) simp
  have le2: "sampleTicks (n + m) fr s \<le> sampleTicks (Suc (n + m)) fr s"
    by (rule sampleTicks_mono) simp
  have eq1: "sampleTicks (n + m) fr s = sampleTicks n fr s" using le1 le2 Suc.prems by simp
  then have eq2: "sampleTicks (Suc (n + m)) fr s = sampleTicks (n + m) fr s"
    using Suc.prems by simp
  then have nt: "\<not> isSampleTick (fst (fr (n + m))) (nvFrames (n + m) fr s)"
    using sampleTicks_Suc_notick[of "n + m" fr s] by blast
  have "aeSampleAccum (nvFrames (Suc (n + m)) fr s)
          = aeSampleAccum (nvFrames (n + m) fr s) + fst (fr (n + m))"
    using accum_Suc[OF assms(1,2), of "n + m" fr] nt by simp
  moreover have "d \<le> fst (fr (n + m))" using assms(3) by simp
  moreover have "aeSampleAccum (nvFrames n fr s) + real m * d
      \<le> aeSampleAccum (nvFrames (n + m) fr s)" using Suc.IH eq1 by simp
  ultimately show ?case by (simp add: algebra_simps)
qed

lemma quiet_below:
  assumes "nightVisionOn s" and "nightVisionPass s \<noteq> None"
    and "\<not> isSampleTick (fst (fr k)) (nvFrames k fr s)"
  shows "aeSampleAccum (nvFrames (Suc k) fr s) < 1 / 12"
proof -
  have on: "nightVisionOn (nvFrames k fr s)" "nightVisionPass (nvFrames k fr s) \<noteq> None"
    using assms(1,2) by (simp_all add: frames_keep_on)
  then have "aeSampleAccum (nvFrames k fr s) + fst (fr k) < 1 / 12"
    using assms(3) by (simp add: isSampleTick_def)
  then show ?thesis using accum_Suc[OF assms(1,2), of k fr] assms(3) by simp
qed

lemma next_tick:
  assumes "nightVisionOn s" and "nightVisionPass s \<noteq> None" and "0 \<le> aeSampleAccum s"
    and "\<forall>n. d \<le> fst (fr n)" and "0 < d"
  shows "\<exists>m. sampleTicks n fr s < sampleTicks (n + m) fr s"
proof -
  obtain M :: nat where M: "1 / 12 < real M * d"
    using reals_Archimedean3[OF assms(5)] by blast
  have Mpos: "0 < M"
  proof (rule ccontr)
    assume "\<not> 0 < M"
    then show False using M by simp
  qed
  then obtain m where m: "M = Suc m" by (cases M) simp_all
  have nonneg: "\<forall>n. 0 \<le> fst (fr n)" using assms(4,5) by (meson less_eq_real_def order_trans)
  have "sampleTicks (n + M) fr s \<noteq> sampleTicks n fr s"
  proof
    assume eq: "sampleTicks (n + M) fr s = sampleTicks n fr s"
    have low: "aeSampleAccum (nvFrames n fr s) + real M * d \<le> aeSampleAccum (nvFrames (n + M) fr s)"
      using quiet_stretch[OF assms(1,2,4) eq] .
    have le1: "sampleTicks n fr s \<le> sampleTicks (n + m) fr s" by (rule sampleTicks_mono) simp
    have le2: "sampleTicks (n + m) fr s \<le> sampleTicks (Suc (n + m)) fr s"
      by (rule sampleTicks_mono) simp
    have "sampleTicks (Suc (n + m)) fr s = sampleTicks (n + m) fr s"
      using le1 le2 eq m by simp
    then have nt: "\<not> isSampleTick (fst (fr (n + m))) (nvFrames (n + m) fr s)"
    using sampleTicks_Suc_notick[of "n + m" fr s] by blast
    have up: "aeSampleAccum (nvFrames (n + M) fr s) < 1 / 12"
      using quiet_below[OF assms(1,2) nt] m by simp
    have "0 \<le> aeSampleAccum (nvFrames n fr s)"
      using accum_nonneg[OF assms(1,2,3) nonneg] .
    then show False using low up M by linarith
  qed
  moreover have "sampleTicks n fr s \<le> sampleTicks (n + M) fr s" by (rule sampleTicks_mono) simp
  ultimately have "sampleTicks n fr s < sampleTicks (n + M) fr s" by simp
  then show ?thesis by blast
qed

lemma ticks_unbounded:
  assumes "nightVisionOn s" and "nightVisionPass s \<noteq> None" and "0 \<le> aeSampleAccum s"
    and "\<forall>n. d \<le> fst (fr n)" and "0 < d"
  shows "\<forall>K. \<exists>n. K \<le> sampleTicks n fr s"
proof
  fix K
  show "\<exists>n. K \<le> sampleTicks n fr s"
  proof (induction K)
    case 0
    show ?case by simp
  next
    case (Suc K)
    then obtain n where n: "K \<le> sampleTicks n fr s" by blast
    obtain m where "sampleTicks n fr s < sampleTicks (n + m) fr s"
      using next_tick[OF assms, of n] by blast
    then have "Suc K \<le> sampleTicks (n + m) fr s" using n by simp
    then show ?case by blast
  qed
qed

text \<open>
  Claim C5. The render loop calls the controller once per frame, with the time step and
  the read-back of that frame; let every read-back have average luminance 0.09. A call
  is a sample tick when the accumulated time has reached a twelfth of a second, and every
  other call leaves the gain as it is. A sample tick replaces the gain \<open>g\<close> by
  \<open>g + (clamp (0.18 / max eps 0.09) - g) * 0.10\<close>, where the clamped value is
  \<open>min aeMaxGain 2 = 2\<close>. After \<open>n\<close> calls the distance to 2 is the initial distance
  times 0.9 to the number of sample ticks so far: the gain moves monotonically towards
  2, never crosses it, changes at a tick by exactly a tenth of the remaining distance,
  and converges to 2 when the ticks do not stop, which they do not when night vision is
  on and the time steps stay above a positive bound.
\<close>

theorem autogain_converges:
  assumes "\<forall>n. avgLuma (snd (fr n)) = 0.09"
  shows "(isSampleTick (fst (fr n)) (nvFrames n fr s) \<longrightarrow>
            gainAt (Suc n) fr s
              = gainAt n fr s
                + (max aeMinGain (min aeMaxGain (aeTargetLuma / max (1 / 10000) 0.09))
                   - gainAt n fr s) * 0.10
            \<and> \<bar>gainAt (Suc n) fr s - gainAt n fr s\<bar> = 0.10 * \<bar>2 - gainAt n fr s\<bar>)
         \<and> (\<not> isSampleTick (fst (fr n)) (nvFrames n fr s) \<longrightarrow>
              gainAt (Suc n) fr s = gainAt n fr s)
         \<and> min aeMaxGain (0.18 / 0.09) = 2
         \<and> 2 - gainAt n fr s = 0.9 ^ sampleTicks n fr s * (2 - aeGain s)
         \<and> \<bar>2 - gainAt (Suc n) fr s\<bar> \<le> \<bar>2 - gainAt n fr s\<bar>
         \<and> (if aeGain s \<le> 2
             then gainAt n fr s \<le> gainAt (Suc n) fr s \<and> gainAt (Suc n) fr s \<le> 2
             else 2 < gainAt (Suc n) fr s \<and> gainAt (Suc n) fr s \<le> gainAt n fr s)
         \<and> ((\<forall>K. \<exists>m. K \<le> sampleTicks m fr s) \<longrightarrow> (\<lambda>k. gainAt k fr s) \<longlonglongrightarrow> 2)
         \<and> (nightVisionOn s \<and> nightVisionPass s \<noteq> None \<and> 0 \<le> aeSampleAccum s
              \<and> 0 < d \<and> (\<forall>k. d \<le> fst (fr k)) \<longrightarrow>
              (\<forall>K. \<exists>m. K \<le> sampleTicks m fr s) \<and> (\<lambda>k. gainAt k fr s) \<longlonglongrightarrow> 2)"
proof -
  let ?g = "\<lambda>k. gainAt k fr s"
  let ?tick = "isSampleTick (fst (fr n)) (nvFrames n fr s)"
  have d: "desiredGain (avgLuma (snd (fr n))) = 2"
    using assms desiredGain_009 by metis
  have closed: "\<And>k. 2 - ?g k = 0.9 ^ sampleTicks k fr s * (2 - aeGain s)"
    using gainAt_closed[OF assms] by simp
  have tick: "?tick \<Longrightarrow> ?g (Suc n) = ?g n + (2 - ?g n) * 0.10"
    by (simp add: gainAt_Suc d)
  have notick: "\<not> ?tick \<Longrightarrow> ?g (Suc n) = ?g n"
    by (simp add: gainAt_Suc)
  have c1: "?tick \<longrightarrow>
      ?g (Suc n) = ?g n + (max aeMinGain (min aeMaxGain (aeTargetLuma / max (1 / 10000) 0.09))
                - ?g n) * 0.10
      \<and> \<bar>?g (Suc n) - ?g n\<bar> = 0.10 * \<bar>2 - ?g n\<bar>"
  proof
    assume t: ?tick
    have e: "?g (Suc n) - ?g n = 0.10 * (2 - ?g n)" using tick[OF t] by simp
    have a: "\<bar>?g (Suc n) - ?g n\<bar> = 0.10 * \<bar>2 - ?g n\<bar>" unfolding e by (simp add: abs_mult)
    have b: "?g (Suc n) = ?g n + (max aeMinGain (min aeMaxGain (aeTargetLuma / max (1 / 10000) 0.09))
                - ?g n) * 0.10"
      using tick[OF t] by (simp add: aeMinGain_def aeMaxGain_def aeTargetLuma_def)
    show "?g (Suc n) = ?g n + (max aeMinGain (min aeMaxGain (aeTargetLuma / max (1 / 10000) 0.09))
                - ?g n) * 0.10
      \<and> \<bar>?g (Suc n) - ?g n\<bar> = 0.10 * \<bar>2 - ?g n\<bar>"
      using a b by simp
  qed
  have c2: "min aeMaxGain (0.18 / 0.09) = (2::real)" by (simp add: aeMaxGain_def)
  have rel: "2 - ?g (Suc n) = (if ?tick then 0.9 else 1) * (2 - ?g n)"
    using tick notick by (cases ?tick) (simp_all add: field_simps)
  have c4: "\<bar>2 - ?g (Suc n)\<bar> \<le> \<bar>2 - ?g n\<bar>"
  proof (cases ?tick)
    case True
    then have "2 - ?g (Suc n) = 0.9 * (2 - ?g n)" using rel by simp
    then show ?thesis by (simp add: abs_mult)
  next
    case False
    then show ?thesis using notick by simp
  qed
  have pos: "(0::real) < 0.9 ^ sampleTicks n fr s" by simp
  have c5: "if aeGain s \<le> 2
             then ?g n \<le> ?g (Suc n) \<and> ?g (Suc n) \<le> 2
             else 2 < ?g (Suc n) \<and> ?g (Suc n) \<le> ?g n"
  proof (cases "aeGain s \<le> 2")
    case True
    then have "0 \<le> 2 - ?g n" using closed[of n] by simp
    then show ?thesis using True rel by (cases ?tick) simp_all
  next
    case False
    then have "2 - aeGain s < 0" by simp
    then have "0.9 ^ sampleTicks n fr s * (2 - aeGain s) < 0" using pos by (simp add: mult_pos_neg)
    then have "2 - ?g n < 0" using closed[of n] by simp
    then show ?thesis using False rel by (cases ?tick) simp_all
  qed
  have c7: "(\<forall>K. \<exists>m. K \<le> sampleTicks m fr s) \<longrightarrow> ?g \<longlonglongrightarrow> 2"
    using gain_tendsto[OF assms] by blast
  have c8: "nightVisionOn s \<and> nightVisionPass s \<noteq> None \<and> 0 \<le> aeSampleAccum s
              \<and> 0 < d \<and> (\<forall>k. d \<le> fst (fr k)) \<longrightarrow>
              (\<forall>K. \<exists>m. K \<le> sampleTicks m fr s) \<and> ?g \<longlonglongrightarrow> 2"
  proof
    assume h: "nightVisionOn s \<and> nightVisionPass s \<noteq> None \<and> 0 \<le> aeSampleAccum s
              \<and> 0 < d \<and> (\<forall>k. d \<le> fst (fr k))"
    then have u: "\<forall>K. \<exists>m. K \<le> sampleTicks m fr s"
      using ticks_unbounded[of s d fr] by blast
    then show "(\<forall>K. \<exists>m. K \<le> sampleTicks m fr s) \<and> ?g \<longlonglongrightarrow> 2"
      using gain_tendsto[OF assms] by blast
  qed
  show ?thesis using c1 notick c2 closed[of n] c4 c5 c7 c8 by blast
qed

lemma demo_nv_start:
  "nightVisionOn demo_nv" "nightVisionPass demo_nv \<noteq> None" "aeSampleAccum demo_nv = 0"
  "aeGain demo_nv = 1.45"
  by (simp_all add: demo_nv_def setNightVision_def initPostFX_def nv_init_def Let_def)

lemma demo_quiet_step:
  assumes "aeSampleAccum (nvFrames n demo_frames demo_nv) = a" and "a + 1 / 60 < 1 / 12"
  shows "aeSampleAccum (nvFrames (Suc n) demo_frames demo_nv) = a + 1 / 60"
    and "\<not> isSampleTick (fst (demo_frames n)) (nvFrames n demo_frames demo_nv)"
proof -
  show nt: "\<not> isSampleTick (fst (demo_frames n)) (nvFrames n demo_frames demo_nv)"
    using assms by (simp add: isSampleTick_def demo_frames_def)
  show "aeSampleAccum (nvFrames (Suc n) demo_frames demo_nv) = a + 1 / 60"
    using accum_Suc[OF demo_nv_start(1,2), of n demo_frames] nt assms(1)
    by (simp add: demo_frames_def)
qed

lemma demo_ticks:
  "\<not> isSampleTick (fst (demo_frames 3)) (nvFrames 3 demo_frames demo_nv)"
  "isSampleTick (fst (demo_frames 4)) (nvFrames 4 demo_frames demo_nv)"
  "sampleTicks 4 demo_frames demo_nv = 0"
  "sampleTicks 5 demo_frames demo_nv = 1"
proof -
  have a0: "aeSampleAccum (nvFrames 0 demo_frames demo_nv) = 0" by (simp add: demo_nv_start)
  have a1: "aeSampleAccum (nvFrames (Suc 0) demo_frames demo_nv) = 0 + 1 / 60"
    and t0: "\<not> isSampleTick (fst (demo_frames 0)) (nvFrames 0 demo_frames demo_nv)"
    using demo_quiet_step[OF a0] by simp_all
  have a2: "aeSampleAccum (nvFrames (Suc (Suc 0)) demo_frames demo_nv) = 0 + 1 / 60 + 1 / 60"
    and t1: "\<not> isSampleTick (fst (demo_frames (Suc 0))) (nvFrames (Suc 0) demo_frames demo_nv)"
    using demo_quiet_step[OF a1] by simp_all
  have a3: "aeSampleAccum (nvFrames (Suc (Suc (Suc 0))) demo_frames demo_nv)
              = 0 + 1 / 60 + 1 / 60 + 1 / 60"
    and t2: "\<not> isSampleTick (fst (demo_frames (Suc (Suc 0))))
                 (nvFrames (Suc (Suc 0)) demo_frames demo_nv)"
    using demo_quiet_step[OF a2] by simp_all
  have a4: "aeSampleAccum (nvFrames (Suc (Suc (Suc (Suc 0)))) demo_frames demo_nv)
              = 0 + 1 / 60 + 1 / 60 + 1 / 60 + 1 / 60"
    and t3: "\<not> isSampleTick (fst (demo_frames (Suc (Suc (Suc 0)))))
                 (nvFrames (Suc (Suc (Suc 0))) demo_frames demo_nv)"
    using demo_quiet_step[OF a3] by simp_all
  have t4: "isSampleTick (fst (demo_frames (Suc (Suc (Suc (Suc 0))))))
              (nvFrames (Suc (Suc (Suc (Suc 0)))) demo_frames demo_nv)"
  proof -
    have on: "\<And>k. nightVisionOn (nvFrames k demo_frames demo_nv)"
      "\<And>k. nightVisionPass (nvFrames k demo_frames demo_nv) \<noteq> None"
      using demo_nv_start(1,2) by (simp_all add: frames_keep_on)
    show ?thesis
      unfolding isSampleTick_def using on a4
      by (simp del: nvFrames.simps add: demo_frames_def)
  qed
  have n3: "(3::nat) = Suc (Suc (Suc 0))" and n4: "(4::nat) = Suc (Suc (Suc (Suc 0)))"
    and n5: "(5::nat) = Suc (Suc (Suc (Suc (Suc 0))))" by simp_all
  show "\<not> isSampleTick (fst (demo_frames 3)) (nvFrames 3 demo_frames demo_nv)"
    unfolding n3 by (rule t3)
  show "isSampleTick (fst (demo_frames 4)) (nvFrames 4 demo_frames demo_nv)"
    unfolding n4 by (rule t4)
  have s4: "sampleTicks (Suc (Suc (Suc (Suc 0)))) demo_frames demo_nv = 0"
    using t0 t1 t2 t3 by simp
  show "sampleTicks 4 demo_frames demo_nv = 0" unfolding n4 by (rule s4)
  show "sampleTicks 5 demo_frames demo_nv = 1"
    unfolding n5 using s4 t4 by simp
qed

theorem autogain_converges_witness:
  "(\<forall>n. avgLuma (snd (demo_frames n)) = 0.09)
   \<and> nightVisionOn demo_nv \<and> fst (demo_frames 0) = 1 / 60
   \<and> sampleTicks 4 demo_frames demo_nv = 0 \<and> gainAt 4 demo_frames demo_nv = 1.45
   \<and> isSampleTick (fst (demo_frames 4)) (nvFrames 4 demo_frames demo_nv)
   \<and> gainAt 5 demo_frames demo_nv = 1.505
   \<and> (\<forall>K. \<exists>m. K \<le> sampleTicks m demo_frames demo_nv)
   \<and> (\<lambda>k. gainAt k demo_frames demo_nv) \<longlonglongrightarrow> 2"
proof -
  have h: "\<forall>n. avgLuma (snd (demo_frames n)) = 0.09"
    by (simp add: demo_frames_def avgLuma_uniform pixelLuma_def)
  note t4 = autogain_converges[OF h, of 4 demo_nv "1 / 60"]
  have g4: "gainAt 4 demo_frames demo_nv = 1.45"
    using t4 demo_ticks(3) demo_nv_start(4) by simp
  have g5: "gainAt 5 demo_frames demo_nv = 1.505"
  proof -
    have "gainAt (Suc 4) demo_frames demo_nv
            = gainAt 4 demo_frames demo_nv
              + (max aeMinGain (min aeMaxGain (aeTargetLuma / max (1 / 10000) 0.09))
                 - gainAt 4 demo_frames demo_nv) * 0.10"
      using t4 demo_ticks(2) by blast
    then show ?thesis using g4 by (simp add: aeMinGain_def aeMaxGain_def aeTargetLuma_def)
  qed
  have pre: "nightVisionOn demo_nv \<and> nightVisionPass demo_nv \<noteq> None \<and> 0 \<le> aeSampleAccum demo_nv
      \<and> (0::real) < 1 / 60 \<and> (\<forall>k. 1 / 60 \<le> fst (demo_frames k))"
    by (simp add: demo_nv_start demo_frames_def)
  have lim: "(\<forall>K. \<exists>m. K \<le> sampleTicks m demo_frames demo_nv)
      \<and> (\<lambda>k. gainAt k demo_frames demo_nv) \<longlonglongrightarrow> 2"
    using t4 pre by blast
  have f0: "fst (demo_frames 0) = 1 / 60" by (simp add: demo_frames_def)
  show ?thesis using h demo_nv_start(1) f0 demo_ticks(2,3) g4 g5 lim by blast
qed

section \<open>Hit mapping and out-of-state operations\<close>

text \<open>
  Claim C3. A UV hit \<open>(u, v)\<close> with texture repeat \<open>(rx, ry)\<close> and offset \<open>(ox, oy)\<close>
  is mapped to the pixel \<open>((u * rx + ox) * 1920, (v * ry + oy) * 1080)\<close>. UV
  \<open>(0.95, 0.05)\<close> with repeat \<open>(1, 1)\<close> and offset \<open>(0, 0)\<close> gives \<open>(1824, 54)\<close>, which
  is inside the MENU button: the rectangle of width 220 and height 86 whose corner is
  \<open>bx = 1920 - 36 - 220 = 1664\<close>, \<open>by = 36\<close>.
\<close>

theorem hit_mapping:
  "uvToPixel \<lparr>tex_repeat = Some (rx, ry), tex_offset = Some (ox, oy)\<rparr> (u, v)
     = ((u * rx + ox) * 1920, (v * ry + oy) * 1080)
   \<and> uvToPixel \<lparr>tex_repeat = Some (1, 1), tex_offset = Some (0, 0)\<rparr> (0.95, 0.05) = (1824, 54)
   \<and> menuBtnX = 1920 - 36 - 220 \<and> menuBtnX = 1664 \<and> menuBtnY = 36
   \<and> TV_MENU_BTN_w = 220 \<and> TV_MENU_BTN_h = 86
   \<and> inMenuBtn (px, py)
       = (menuBtnX \<le> px \<and> px \<le> menuBtnX + TV_MENU_BTN_w
          \<and> menuBtnY \<le> py \<and> py \<le> menuBtnY + TV_MENU_BTN_h)
   \<and> inMenuBtn (1824, 54)"
  by (simp add: uvToPixel_def inMenuBtn_def menuBtnX_def menuBtnY_def canvasW_def canvasH_def
      TV_MENU_BTN_pad_def TV_MENU_BTN_w_def TV_MENU_BTN_h_def Let_def)

text \<open>
  Claim C8. An operation invoked outside the state in which it acts returns the state
  unchanged: menu selection and confirmation outside the menu, photo, video and model
  navigation outside their mode, and a power request equal to the current power state.
  In particular \<^verbatim>\<open>setTvPower(true)\<close> on a TV that is on leaves the power animation as it
  was.
\<close>

theorem invalid_state_noop:
  assumes "\<not> op_valid op s"
  shows "apply_op op now playOk s = s \<and> tvAnim (apply_op op now playOk s) = tvAnim s"
proof -
  have "apply_op op now playOk s = s"
    using assms
    by (cases op)
      (auto simp: moveMenuSelection_def confirmMenuSelection_def nextPhoto_def nextVideo_def
        nextModel_def setTvPower_def)
  then show ?thesis by simp
qed

section \<open>The example states\<close>

lemma demo_menu_facts:
  "tvOn demo_menu" "tvUiState demo_menu = MENU" "menuIndex demo_menu = 0"
  "\<not> overlayOpen demo_menu" "\<not> videoOverlayOpen demo_menu" "\<not> modelOverlayOpen demo_menu"
  "tvScreenMeshRef demo_menu = Some 1" "videoEl demo_menu = None"
  "tvTex demo_menu = \<lparr>tex_repeat = Some (1, 1), tex_offset = Some (0, 0)\<rparr>"
  "photoRequests demo_menu = []"
  by (simp_all add: demo_menu_def onPointerDown_def meshHit_def tv_init_def setTvPower_def
      applyTvTextureEnabled_def drawTvMenu_def Let_def)

lemma demo_photo_facts:
  "tvOn demo_photo" "tvUiState demo_photo = PHOTO" "menuIndex demo_photo = 0"
  "\<not> overlayOpen demo_photo" "\<not> videoOverlayOpen demo_photo" "\<not> modelOverlayOpen demo_photo"
  "tvScreenMeshRef demo_photo = Some 1"
  "tvTex demo_photo = \<lparr>tex_repeat = Some (1, 1), tex_offset = Some (0, 0)\<rparr>"
  "photoRequests demo_photo = []" "photoIndex demo_photo = 0" "\<not> photoLoading demo_photo"
  by (simp_all add: demo_photo_def demo_menu_facts onPointerDown_def meshHit_def
      confirmMenuSelection_def MENU_ITEMS_def itemAt_def loadPhotoAt_def PHOTO_PATHS_def
      jsRem_def photoRequestDone_def photo_onLoad_def drawPhotoToTv_def Let_def)

theorem invalid_state_noop_witness:
  "\<not> op_valid (MoveSelection 1) demo_photo \<and> moveMenuSelection 1 5000 demo_photo = demo_photo
   \<and> \<not> op_valid Confirm demo_photo \<and> confirmMenuSelection 5000 True demo_photo = demo_photo
   \<and> \<not> op_valid (NavigatePhoto 1) demo_menu \<and> nextPhoto 1 demo_menu = demo_menu
   \<and> \<not> op_valid (NavigateVideo 1) demo_menu \<and> nextVideo 1 True demo_menu = demo_menu
   \<and> \<not> op_valid (NavigateModel 1) demo_menu \<and> nextModel 1 True demo_menu = demo_menu
   \<and> \<not> op_valid (SetPower True) demo_menu \<and> setTvPower True 5000 demo_menu = demo_menu
   \<and> tvAnim (setTvPower True 5000 demo_menu) = tvAnim demo_menu"
proof -
  have h1: "\<not> op_valid (MoveSelection 1) demo_photo" "\<not> op_valid Confirm demo_photo"
    by (simp_all add: demo_photo_facts)
  have h2: "\<not> op_valid (NavigatePhoto 1) demo_menu" "\<not> op_valid (NavigateVideo 1) demo_menu"
    "\<not> op_valid (NavigateModel 1) demo_menu" "\<not> op_valid (SetPower True) demo_menu"
    by (simp_all add: demo_menu_facts)
  show ?thesis
    using h1 h2 invalid_state_noop[OF h1(1), of 5000 True] invalid_state_noop[OF h1(2), of 5000 True]
      invalid_state_noop[OF h2(1), of 5000 True] invalid_state_noop[OF h2(2), of 5000 True]
      invalid_state_noop[OF h2(3), of 5000 True] invalid_state_noop[OF h2(4), of 5000 True]
    by simp
qed

lemma model_path0: "isImageUrl (Some ''./assets/3D Model/01-Gate.mp4'') = False"
  by (simp add: isImageUrl_def hasSuffix_def lowerChar_def Let_def)

lemma model_path4: "isImageUrl (Some ''./assets/3D Model/05-website.jpg'') = True"
  by (simp add: isImageUrl_def hasSuffix_def lowerChar_def Let_def)

lemma model_item0: "itemAt MODEL_PATHS (jsRem (int (length MODEL_PATHS)) (int (length MODEL_PATHS)))
   = Some ''./assets/3D Model/01-Gate.mp4''"
  by (simp add: itemAt_def MODEL_PATHS_def jsRem_def)

lemma loadModelAt0:
  assumes "tvOn s" and "tvUiState s = MODEL3D"
    and "modelVideoEl s = Some \<lparr>el_src = None, el_paused = True, el_currentTime = 0,
           el_loop = True, el_videoWidth = 0, el_videoHeight = 0\<rparr>"
  shows "tvOn (loadModelAt 0 True True s)" "tvUiState (loadModelAt 0 True True s) = MODEL3D"
    "modelMediaType (loadModelAt 0 True True s) = MediaVideo"
    "modelVideoEl (loadModelAt 0 True True s)
       = Some \<lparr>el_src = Some ''./assets/3D Model/01-Gate.mp4'', el_paused = False,
               el_currentTime = 0, el_loop = True, el_videoWidth = 0, el_videoHeight = 0\<rparr>"
proof -
  show "tvOn (loadModelAt 0 True True s)" "tvUiState (loadModelAt 0 True True s) = MODEL3D"
    "modelMediaType (loadModelAt 0 True True s) = MediaVideo"
    using assms
    by (simp_all add: loadModelAt_def Let_def model_item0 model_path0 ensureModelVideoEl_def
        playModel_def clearTvScreen_def split: option.splits)
  show "modelVideoEl (loadModelAt 0 True True s)
       = Some \<lparr>el_src = Some ''./assets/3D Model/01-Gate.mp4'', el_paused = False,
               el_currentTime = 0, el_loop = True, el_videoWidth = 0, el_videoHeight = 0\<rparr>"
    using assms
    by (simp add: loadModelAt_def Let_def model_item0 model_path0 ensureModelVideoEl_def
        playModel_def clearTvScreen_def split: option.splits)
qed

lemma demo_menu_model: "modelVideoEl demo_menu = None"
  by (simp add: demo_menu_def onPointerDown_def meshHit_def tv_init_def setTvPower_def
      applyTvTextureEnabled_def drawTvMenu_def Let_def)

lemma demo_model_facts:
  "tvOn demo_model" "tvUiState demo_model = MODEL3D" "modelReady demo_model"
  "modelMediaType demo_model = MediaVideo"
  "modelVideoEl demo_model = Some \<lparr>el_src = Some ''./assets/3D Model/01-Gate.mp4'',
      el_paused = False, el_currentTime = 0, el_loop = True, el_videoWidth = 1920,
      el_videoHeight = 1080\<rparr>"
proof -
  let ?m2 = "onPointerDown (meshHit DownArrow) 2500 True
             (onPointerDown (meshHit DownArrow) 2000 True demo_menu)"
  have m2: "tvOn ?m2" "tvUiState ?m2 = MENU" "menuIndex ?m2 = 2"
    "\<not> overlayOpen ?m2" "\<not> videoOverlayOpen ?m2" "\<not> modelOverlayOpen ?m2"
    "modelVideoEl ?m2 = None"
    by (simp_all add: demo_menu_facts demo_menu_model onPointerDown_def meshHit_def
        moveMenuSelection_def MENU_ITEMS_def jsRem_def drawTvMenu_def Let_def)
  let ?pre = "ensureModelVideoEl (?m2\<lparr>tvUiState := MODEL3D\<rparr>)"
  have c: "onPointerDown (meshHit OkButton) 3000 True ?m2 = loadModelAt 0 True True ?pre"
    using m2 by (simp add: onPointerDown_def meshHit_def confirmMenuSelection_def MENU_ITEMS_def
        itemAt_def Let_def)
  have pre: "tvOn ?pre" "tvUiState ?pre = MODEL3D"
    "modelVideoEl ?pre = Some \<lparr>el_src = None, el_paused = True, el_currentTime = 0,
           el_loop = True, el_videoWidth = 0, el_videoHeight = 0\<rparr>"
    using m2 by (simp_all add: ensureModelVideoEl_def split: option.splits)
  note l = loadModelAt0[OF pre]
  have d: "demo_model = modelVideoElDispatch (Loadeddata 1920 1080) 3500 True
             (loadModelAt 0 True True ?pre)"
    unfolding demo_model_def c ..
  show "tvOn demo_model" "tvUiState demo_model = MODEL3D" "modelReady demo_model"
    "modelMediaType demo_model = MediaVideo"
    "modelVideoEl demo_model = Some \<lparr>el_src = Some ''./assets/3D Model/01-Gate.mp4'',
      el_paused = False, el_currentTime = 0, el_loop = True, el_videoWidth = 1920,
      el_videoHeight = 1080\<rparr>"
    unfolding d using l
    by (simp_all add: modelVideoElDispatch_def model_onLoadeddata_def drawModelToTv_def
        drawModelFrameToTv_def playModel_def Let_def)
qed

lemma loadModelAt0_flags:
  assumes "tvOn s" and "tvUiState s = MODEL3D"
    and "modelVideoEl s = Some \<lparr>el_src = None, el_paused = True, el_currentTime = 0,
           el_loop = True, el_videoWidth = 0, el_videoHeight = 0\<rparr>"
  shows "modelIndex (loadModelAt 0 True True s) = 0"
    "overlayOpen (loadModelAt 0 True True s) = overlayOpen s"
    "videoOverlayOpen (loadModelAt 0 True True s) = videoOverlayOpen s"
    "modelOverlayOpen (loadModelAt 0 True True s) = modelOverlayOpen s"
    "modelPlaying (loadModelAt 0 True True s)"
  using assms
  by (simp_all add: loadModelAt_def Let_def model_item0 model_path0 ensureModelVideoEl_def
      playModel_def clearTvScreen_def split: option.splits)
    (simp add: jsRem_def MODEL_PATHS_def)

lemma demo_model_flags:
  "modelIndex demo_model = 0" "\<not> overlayOpen demo_model" "\<not> videoOverlayOpen demo_model"
  "\<not> modelOverlayOpen demo_model" "modelPlaying demo_model"
proof -
  let ?m2 = "onPointerDown (meshHit DownArrow) 2500 True
             (onPointerDown (meshHit DownArrow) 2000 True demo_menu)"
  have m2: "tvOn ?m2" "tvUiState ?m2 = MENU" "menuIndex ?m2 = 2"
    "\<not> overlayOpen ?m2" "\<not> videoOverlayOpen ?m2" "\<not> modelOverlayOpen ?m2"
    "modelVideoEl ?m2 = None"
    by (simp_all add: demo_menu_facts demo_menu_model onPointerDown_def meshHit_def
        moveMenuSelection_def MENU_ITEMS_def jsRem_def drawTvMenu_def Let_def)
  let ?pre = "ensureModelVideoEl (?m2\<lparr>tvUiState := MODEL3D\<rparr>)"
  have c: "onPointerDown (meshHit OkButton) 3000 True ?m2 = loadModelAt 0 True True ?pre"
    using m2 by (simp add: onPointerDown_def meshHit_def confirmMenuSelection_def MENU_ITEMS_def
        itemAt_def Let_def)
  have pre: "tvOn ?pre" "tvUiState ?pre = MODEL3D"
    "modelVideoEl ?pre = Some \<lparr>el_src = None, el_paused = True, el_currentTime = 0,
           el_loop = True, el_videoWidth = 0, el_videoHeight = 0\<rparr>"
    using m2 by (simp_all add: ensureModelVideoEl_def split: option.splits)
  have pf: "\<not> overlayOpen ?pre" "\<not> videoOverlayOpen ?pre" "\<not> modelOverlayOpen ?pre"
    using m2 by (simp_all add: ensureModelVideoEl_def split: option.splits)
  note l = loadModelAt0[OF pre] loadModelAt0_flags[OF pre] pf
  have d: "demo_model = modelVideoElDispatch (Loadeddata 1920 1080) 3500 True
             (loadModelAt 0 True True ?pre)"
    unfolding demo_model_def c ..
  show "modelIndex demo_model = 0" "\<not> overlayOpen demo_model" "\<not> videoOverlayOpen demo_model"
    "\<not> modelOverlayOpen demo_model" "modelPlaying demo_model"
    unfolding d using l
    by (simp_all add: modelVideoElDispatch_def model_onLoadeddata_def drawModelToTv_def
        drawModelFrameToTv_def playModel_def Let_def)
qed

section \<open>Entering the menu\<close>

lemmas draw_defs = clearTvScreen_def applyTvTextureEnabled_def drawTvMenu_def drawImageOp_def
  drawPhotoToTv_def drawVideoFrameToTv_def drawModelFrameToTv_def drawModelToTv_def

lemma core_update [simp]:
  "menuCore (menuHover_update f0 s) = menuCore s"
  "menuCore (tvCanvas_update f1 s) = menuCore s"
  "menuCore (tvTex_update f2 s) = menuCore s"
  "menuCore (tvScreenMeshRef_update f3 s) = menuCore s"
  "menuCore (tvScreenMatRef_update f4 s) = menuCore s"
  "menuCore (tvAnim_update f5 s) = menuCore s"
  "menuCore (tvPower_update f6 s) = menuCore s"
  "menuCore (tvBootT0_update f7 s) = menuCore s"
  "menuCore (tvBooting_update f8 s) = menuCore s"
  "menuCore (grainOpacity_update f9 s) = menuCore s"
  "menuCore (tvTapDebug_update f10 s) = menuCore s"
  "menuCore (photoIndex_update f11 s) = menuCore s"
  "menuCore (photoImage_update f12 s) = menuCore s"
  "menuCore (photoLoading_update f13 s) = menuCore s"
  "menuCore (currentPhotoUrl_update f14 s) = menuCore s"
  "menuCore (photoRequests_update f15 s) = menuCore s"
  "menuCore (overlayOpen_update f16 s) = menuCore s"
  "menuCore (videoIndex_update f17 s) = menuCore s"
  "menuCore (videoEl_update f18 s) = menuCore s"
  "menuCore (videoReady_update f19 s) = menuCore s"
  "menuCore (videoPlaying_update f20 s) = menuCore s"
  "menuCore (videoWantsAutoPlay_update f21 s) = menuCore s"
  "menuCore (videoOverlayOpen_update f22 s) = menuCore s"
  "menuCore (tvVideoSuppressed_update f23 s) = menuCore s"
  "menuCore (modelIndex_update f24 s) = menuCore s"
  "menuCore (modelVideoEl_update f25 s) = menuCore s"
  "menuCore (modelImageEl_update f26 s) = menuCore s"
  "menuCore (modelMediaType_update f27 s) = menuCore s"
  "menuCore (modelReady_update f28 s) = menuCore s"
  "menuCore (modelPlaying_update f29 s) = menuCore s"
  "menuCore (modelWantsAutoPlay_update f30 s) = menuCore s"
  "menuCore (currentModelUrl_update f31 s) = menuCore s"
  "menuCore (modelImageLoading_update f32 s) = menuCore s"
  "menuCore (modelOverlayOpen_update f33 s) = menuCore s"
  "menuCore (tvModelSuppressed_update f34 s) = menuCore s"
  "menuCore (lampMood_update f35 s) = menuCore s"
  by (simp_all add: menuCore_def)

lemma core_fields:
  "menuCore s' = menuCore s \<Longrightarrow>
     tvOn s' = tvOn s \<and> tvUiState s' = tvUiState s \<and> menuIndex s' = menuIndex s
     \<and> blinkT0 s' = blinkT0 s"
  by (simp add: menuCore_def)

lemma core_draw [simp]:
  "menuCore (clearTvScreen s) = menuCore s"
  "menuCore (applyTvTextureEnabled b s) = menuCore s"
  "menuCore (drawTvMenu now s) = menuCore s"
  "menuCore (drawPhotoToTv img s) = menuCore s"
  "menuCore (drawVideoFrameToTv s) = menuCore s"
  "menuCore (drawModelFrameToTv now s) = menuCore s"
  by (simp_all add: draw_defs Let_def split: option.splits)

lemma core_drawModelToTv [simp]: "menuCore (drawModelToTv now s) = menuCore s"
  by (simp add: drawModelToTv_def split: option.splits)

lemma core_photo [simp]:
  "menuCore (loadPhotoAt i s) = menuCore s"
  "menuCore (photo_onLoad img s) = menuCore s"
  "menuCore (photo_onError s) = menuCore s"
  "menuCore (openPhotoOverlay url s) = menuCore s"
  "menuCore (closePhotoOverlay s) = menuCore s"
  by (simp_all add: loadPhotoAt_def photo_onLoad_def photo_onError_def
      openPhotoOverlay_def closePhotoOverlay_def Let_def)

lemma core_photo2 [simp]:
  "menuCore (photoRequestDone k outcome s) = menuCore s"
  "menuCore (nextPhoto d s) = menuCore s"
  "menuCore (overlayNavPhoto d s) = menuCore s"
  by (simp_all add: photoRequestDone_def nextPhoto_def overlayNavPhoto_def Let_def
      split: option.splits prod.splits)

lemma core_video_basic [simp]:
  "menuCore (ensureVideoEl s) = menuCore s"
  "menuCore (playVideo ok s) = menuCore s"
  "menuCore (pauseVideo s) = menuCore s"
  "menuCore (stopVideoCompletely s) = menuCore s"
  by (simp_all add: ensureVideoEl_def playVideo_def pauseVideo_def
      stopVideoCompletely_def split: option.splits)

lemma core_video [simp]:
  "menuCore (toggleVideoPlayPause ok s) = menuCore s"
  "menuCore (loadVideoAt i ap ok s) = menuCore s"
  "menuCore (video_onLoadeddata ok s) = menuCore s"
  "menuCore (openVideoOverlay s) = menuCore s"
  "menuCore (closeVideoOverlay ov ok s) = menuCore s"
  by (simp_all add: toggleVideoPlayPause_def loadVideoAt_def video_onLoadeddata_def
      openVideoOverlay_def closeVideoOverlay_def Let_def split: option.splits prod.splits)

lemma core_video2 [simp]:
  "menuCore (nextVideo d ok s) = menuCore s"
  "menuCore (overlayNextVideo d s) = menuCore s"
  "menuCore (videoElDispatch ev ok s) = menuCore s"
  by (simp_all add: nextVideo_def overlayNextVideo_def videoElDispatch_def Let_def
      split: option.splits media_event.splits)

lemma core_videoReachesEnd [simp]: "menuCore (videoReachesEnd ok s) = menuCore s"
  by (simp add: videoReachesEnd_def split: option.splits)

lemma core_model_basic [simp]:
  "menuCore (ensureModelVideoEl s) = menuCore s"
  "menuCore (ensureModelImageEl s) = menuCore s"
  "menuCore (playModel ok s) = menuCore s"
  "menuCore (pauseModel s) = menuCore s"
  "menuCore (stopModelCompletely s) = menuCore s"
  by (simp_all add: ensureModelVideoEl_def ensureModelImageEl_def playModel_def
      pauseModel_def stopModelCompletely_def split: option.splits)

lemma core_model [simp]:
  "menuCore (toggleModelPlayPause ok s) = menuCore s"
  "menuCore (loadModelAt i ap ok s) = menuCore s"
  "menuCore (model_onLoadeddata now ok s) = menuCore s"
  "menuCore (modelImageDone outcome now s) = menuCore s"
  "menuCore (openModelOverlay now s) = menuCore s"
  "menuCore (closeModelOverlay ov ok s) = menuCore s"
  by (simp_all add: toggleModelPlayPause_def loadModelAt_def model_onLoadeddata_def
      modelImageDone_def openModelOverlay_def closeModelOverlay_def Let_def
      split: option.splits prod.splits)

lemma core_model2 [simp]:
  "menuCore (nextModel d ok s) = menuCore s"
  "menuCore (overlayNextModel d s) = menuCore s"
  "menuCore (modelVideoElDispatch ev now ok s) = menuCore s"
  by (simp_all add: nextModel_def overlayNextModel_def modelVideoElDispatch_def Let_def
      split: option.splits media_event.splits)

lemma core_updateTv [simp]: "menuCore (updateTv now rnd s) = menuCore s"
  by (simp add: updateTv_def Let_def split: option.splits)

lemma core_tvRedraw [simp]: "menuCore (tvRedraw now s) = menuCore s"
  by (simp add: tvRedraw_def Let_def split: option.splits)

lemma core_eqD:
  "menuCore s' = menuCore s \<Longrightarrow> inMenuState s' = inMenuState s"
  by (simp add: menuCore_def inMenuState_def)

lemma setTvPower_on:
  assumes "\<not> tvOn s"
  shows "menuCore (setTvPower True now s) = (True, MENU, 0, now)"
  using assms by (simp add: setTvPower_def Let_def menuCore_def applyTvTextureEnabled_def
      drawTvMenu_def split: option.splits)

lemma setTvPower_off:
  assumes "tvOn s"
  shows "\<not> tvOn (setTvPower False now s)"
  using assms by (simp add: setTvPower_def Let_def applyTvTextureEnabled_def
      clearTvScreen_def stopModelCompletely_def stopVideoCompletely_def split: option.splits)

lemma screenClick_core:
  "menuCore (screenClickPhoto hit now s)
     = (if (case hit_uv hit of None \<Rightarrow> False | Some uv \<Rightarrow> inMenuBtn (uvToPixel (tvTex s) uv))
        then (tvOn s, MENU, menuIndex s, now) else menuCore s)"
  "menuCore (screenClickVideo hit now s)
     = (if (case hit_uv hit of None \<Rightarrow> False | Some uv \<Rightarrow> inMenuBtn (uvToPixel (tvTex s) uv))
        then (tvOn s, MENU, menuIndex s, now) else menuCore s)"
  "menuCore (screenClickModel hit now s)
     = (if (case hit_uv hit of None \<Rightarrow> False | Some uv \<Rightarrow> inMenuBtn (uvToPixel (tvTex s) uv))
        then (tvOn s, MENU, menuIndex s, now) else menuCore s)"
proof -
  have a: "\<And>s. menuCore (s\<lparr>tvUiState := MENU, blinkT0 := now\<rparr>) = (tvOn s, MENU, menuIndex s, now)"
    by (simp add: menuCore_def)
  have b: "\<And>s. menuCore (stopVideoCompletely s) = menuCore s"
    "\<And>s. menuCore (stopModelCompletely s) = menuCore s" by simp_all
  have c: "\<And>s' s. menuCore s' = menuCore s \<Longrightarrow>
     menuCore (s'\<lparr>tvUiState := MENU, blinkT0 := now\<rparr>) = (tvOn s, MENU, menuIndex s, now)"
    by (simp add: menuCore_def)
  show "menuCore (screenClickPhoto hit now s)
     = (if (case hit_uv hit of None \<Rightarrow> False | Some uv \<Rightarrow> inMenuBtn (uvToPixel (tvTex s) uv))
        then (tvOn s, MENU, menuIndex s, now) else menuCore s)"
    by (simp add: screenClickPhoto_def a)
  show "menuCore (screenClickVideo hit now s)
     = (if (case hit_uv hit of None \<Rightarrow> False | Some uv \<Rightarrow> inMenuBtn (uvToPixel (tvTex s) uv))
        then (tvOn s, MENU, menuIndex s, now) else menuCore s)"
    by (simp add: screenClickVideo_def c b)
  show "menuCore (screenClickModel hit now s)
     = (if (case hit_uv hit of None \<Rightarrow> False | Some uv \<Rightarrow> inMenuBtn (uvToPixel (tvTex s) uv))
        then (tvOn s, MENU, menuIndex s, now) else menuCore s)"
    by (cases "hit_uv hit") (simp_all add: screenClickModel_def Let_def c b)
qed

lemma menu_ops_core:
  "\<not> inMenuState s \<Longrightarrow> moveMenuSelection d now s = s"
  "\<not> inMenuState s \<Longrightarrow> confirmMenuSelection now ok s = s"
  by (auto simp: inMenuState_def moveMenuSelection_def confirmMenuSelection_def)

lemma pointerDown_enters_menu:
  assumes "\<not> inMenuState s" and "inMenuState (onPointerDown hit now ok s)"
  shows "(powerOnClick hit s \<and> menuCore (onPointerDown hit now ok s) = (True, MENU, 0, now))
         \<or> (menuButtonClick hit s
             \<and> menuCore (onPointerDown hit now ok s) = (True, MENU, menuIndex s, now))"
proof -
  let ?s' = "onPointerDown hit now ok s"
  have ne: "menuCore ?s' \<noteq> menuCore s"
    using assms core_eqD by blast
  have ov: "\<not> overlayOpen s" "\<not> videoOverlayOpen s" "\<not> modelOverlayOpen s"
    using ne by (auto simp: onPointerDown_def Let_def)
  have lamp: "hit_mesh hit \<noteq> LampMesh" "hit_mesh hit \<noteq> ExternalProp"
    using ne ov by (auto simp: onPointerDown_def Let_def)
  show ?thesis
  proof (cases "hit_mesh hit = PowerButton")
    case True
    then have eq: "?s' = setTvPower (\<not> tvOn s) now s"
      using ov by (simp add: onPointerDown_def Let_def)
    have off: "\<not> tvOn s"
    proof
      assume on: "tvOn s"
      then have "\<not> tvOn ?s'" using eq setTvPower_off[OF on] by simp
      then show False using assms(2) by (simp add: inMenuState_def)
    qed
    then have "menuCore ?s' = (True, MENU, 0, now)" using eq setTvPower_on by simp
    then show ?thesis using True off ov by (simp add: powerOnClick_def)
  next
    case False
    have notmenu: "\<not> (tvOn s \<and> tvUiState s = MENU)" using assms(1) by (simp add: inMenuState_def)
    have scr: "hit_mesh hit = TvScreen \<and> tvOn s \<and> tvScreenMeshRef s \<noteq> None
       \<and> (tvUiState s = PHOTO \<or> tvUiState s = VIDEO \<or> tvUiState s = MODEL3D)"
      using ne False ov lamp notmenu
      by (auto simp: onPointerDown_def Let_def split: if_splits)
    have btn: "(case hit_uv hit of None \<Rightarrow> False | Some uv \<Rightarrow> inMenuBtn (uvToPixel (tvTex s) uv))"
      using ne scr ov lamp
      by (auto simp: onPointerDown_def Let_def screenClick_core split: if_splits)
    have "menuCore ?s' = (True, MENU, menuIndex s, now)"
      using scr ov lamp btn
      by (auto simp: onPointerDown_def Let_def screenClick_core)
    then show ?thesis using scr ov btn by (simp add: menuButtonClick_def)
  qed
qed

lemma step_core_other:
  assumes "\<forall>hit now ok. e \<noteq> PointerDown hit now ok"
  shows "menuCore (tv_step e s) = menuCore s"
  using assms by (cases e) (auto simp: Let_def)

lemma step_enters_menu:
  assumes "\<not> inMenuState s" and "inMenuState (tv_step e s)"
  shows "\<exists>hit now ok. e = PointerDown hit now ok
         \<and> ((powerOnClick hit s \<and> menuCore (tv_step e s) = (True, MENU, 0, now))
            \<or> (menuButtonClick hit s \<and> menuCore (tv_step e s) = (True, MENU, menuIndex s, now)))"
proof (cases "\<forall>hit now ok. e \<noteq> PointerDown hit now ok")
  case True
  then have "menuCore (tv_step e s) = menuCore s" by (rule step_core_other)
  then show ?thesis using assms core_eqD by blast
next
  case False
  then obtain hit now ok where e: "e = PointerDown hit now ok" by blast
  show ?thesis using pointerDown_enters_menu[of s hit now ok] assms e by simp
qed

lemma powerOn_enters:
  assumes "powerOnClick hit s"
  shows "menuCore (onPointerDown hit now ok s) = (True, MENU, 0, now)"
  using assms by (simp add: powerOnClick_def onPointerDown_def Let_def setTvPower_on)

lemma menuButton_enters:
  assumes "menuButtonClick hit s"
  shows "menuCore (onPointerDown hit now ok s) = (True, MENU, menuIndex s, now)"
  using assms by (auto simp: menuButtonClick_def onPointerDown_def Let_def screenClick_core)

text \<open>
  Claim C2, as amended. The only events that bring the TV into the menu are a press of
  the power button while it is off and a click on the in-canvas MENU button in PHOTO,
  VIDEO or 3D MODEL mode. Both set the blink baseline to the time of the event. Power-on
  also sets the selection index to 0; the MENU-button click leaves the selection index
  as it was.
\<close>

theorem entering_menu:
  "(\<not> inMenuState s \<and> inMenuState (tv_step e s) \<longrightarrow>
      (\<exists>hit now ok. e = PointerDown hit now ok
         \<and> ((powerOnClick hit s \<and> menuCore (tv_step e s) = (True, MENU, 0, now))
            \<or> (menuButtonClick hit s \<and> menuCore (tv_step e s) = (True, MENU, menuIndex s, now)))))
   \<and> (powerOnClick hit0 s0 \<longrightarrow>
        menuCore (onPointerDown hit0 now0 ok0 s0) = (True, MENU, 0, now0))
   \<and> (menuButtonClick hit1 s1 \<longrightarrow>
        menuCore (onPointerDown hit1 now1 ok1 s1) = (True, MENU, menuIndex s1, now1))"
  using step_enters_menu[of s e] powerOn_enters[of hit0 s0 now0 ok0]
    menuButton_enters[of hit1 s1 now1 ok1] by blast

lemma demo_video_facts:
  "tvOn demo_video" "tvUiState demo_video = VIDEO" "menuIndex demo_video = 1"
  "\<not> overlayOpen demo_video" "\<not> videoOverlayOpen demo_video" "\<not> modelOverlayOpen demo_video"
  "tvScreenMeshRef demo_video = Some 1"
  "tvTex demo_video = \<lparr>tex_repeat = Some (1, 1), tex_offset = Some (0, 0)\<rparr>"
  "videoIndex demo_video = 0" "videoPlaying demo_video" "videoReady demo_video"
  "videoEl demo_video = Some \<lparr>el_src = Some ''./assets/Video/01-sweet93-OG.mp4'',
      el_paused = False, el_currentTime = 0, el_loop = True, el_videoWidth = 1280,
      el_videoHeight = 720\<rparr>"
  by (simp_all add: demo_video_def demo_menu_facts onPointerDown_def meshHit_def
      moveMenuSelection_def confirmMenuSelection_def MENU_ITEMS_def itemAt_def jsRem_def
      drawTvMenu_def ensureVideoEl_def loadVideoAt_def VIDEO_PATHS_def clearTvScreen_def
      playVideo_def videoElDispatch_def video_onLoadeddata_def drawVideoFrameToTv_def Let_def)

lemma click_095_005: "inMenuBtn (uvToPixel \<lparr>tex_repeat = Some (1, 1), tex_offset = Some (0, 0)\<rparr> (0.95, 0.05))"
  by (simp add: uvToPixel_def inMenuBtn_def menuBtnX_def menuBtnY_def canvasW_def canvasH_def
      TV_MENU_BTN_pad_def TV_MENU_BTN_w_def TV_MENU_BTN_h_def Let_def)

lemma demo_video_click: "menuButtonClick (screenHit 0.95 0.05) demo_video"
  using click_095_005 by (simp add: menuButtonClick_def demo_video_facts screenHit_def)

lemma demo_photo_click:
  "menuCore (onPointerDown (screenHit 0.95 0.05) 4000 True demo_photo) = (True, MENU, 0, 4000)"
proof -
  have "menuButtonClick (screenHit 0.95 0.05) demo_photo"
    using click_095_005 by (simp add: menuButtonClick_def demo_photo_facts screenHit_def)
  then show ?thesis using menuButton_enters demo_photo_facts(3) by simp
qed

text \<open>
  The claim as first stated fails: returning from VIDEO by the MENU button leaves the
  selection on entry 1, where power-on puts it on entry 0.
\<close>

theorem menu_return_counterexample:
  "tvOn demo_video \<and> tvUiState demo_video = VIDEO \<and> menuIndex demo_video = 1
   \<and> tvUiState (onPointerDown (screenHit 0.95 0.05) 4000 True demo_video) = MENU
   \<and> blinkT0 (onPointerDown (screenHit 0.95 0.05) 4000 True demo_video) = 4000
   \<and> menuIndex (onPointerDown (screenHit 0.95 0.05) 4000 True demo_video) = 1
   \<and> menuIndex (onPointerDown (meshHit PowerButton) 1000 True (tv_init 0)) = 0"
proof -
  have "menuCore (onPointerDown (screenHit 0.95 0.05) 4000 True demo_video)
          = (True, MENU, menuIndex demo_video, 4000)"
    using demo_video_click by (rule menuButton_enters)
  moreover have "menuIndex (onPointerDown (meshHit PowerButton) 1000 True (tv_init 0)) = 0"
    using demo_menu_facts(3) by (simp add: demo_menu_def)
  ultimately show ?thesis by (simp add: menuCore_def demo_video_facts)
qed

theorem entering_menu_witness:
  "\<not> inMenuState demo_video
   \<and> inMenuState (tv_step (PointerDown (screenHit 0.95 0.05) 4000 True) demo_video)
   \<and> menuButtonClick (screenHit 0.95 0.05) demo_video
   \<and> menuCore (onPointerDown (screenHit 0.95 0.05) 4000 True demo_video) = (True, MENU, 1, 4000)
   \<and> powerOnClick (meshHit PowerButton) (tv_init 0)
   \<and> menuCore (onPointerDown (meshHit PowerButton) 1000 True (tv_init 0)) = (True, MENU, 0, 1000)"
proof -
  have h1: "menuButtonClick (screenHit 0.95 0.05) demo_video" by (rule demo_video_click)
  have h2: "powerOnClick (meshHit PowerButton) (tv_init 0)"
    by (simp add: powerOnClick_def meshHit_def tv_init_def)
  have h3: "\<not> inMenuState demo_video" by (simp add: inMenuState_def demo_video_facts)
  note t = entering_menu[of demo_video "PointerDown (screenHit 0.95 0.05) 4000 True"
      "meshHit PowerButton" "tv_init 0" 1000 True "screenHit 0.95 0.05" demo_video 4000 True]
  have a: "menuCore (onPointerDown (screenHit 0.95 0.05) 4000 True demo_video) = (True, MENU, 1, 4000)"
    using t h1 by (simp add: demo_video_facts)
  have b: "menuCore (onPointerDown (meshHit PowerButton) 1000 True (tv_init 0)) = (True, MENU, 0, 1000)"
    using t h2 by simp
  have c: "inMenuState (tv_step (PointerDown (screenHit 0.95 0.05) 4000 True) demo_video)"
    using a by (simp add: inMenuState_def menuCore_def)
  show ?thesis using h1 h2 h3 a b c by simp
qed

section \<open>Cover fit in the draw routines\<close>

lemma photoCover_pos:
  assumes "0 < iw" and "0 < ih"
  shows "photoCover w h iw ih =
     Some \<lparr>cv_scale = max (w / real iw) (h / real ih),
           cv_dw = real iw * max (w / real iw) (h / real ih) * 1.02,
           cv_dh = real ih * max (w / real iw) (h / real ih) * 1.02,
           cv_dx = (w - real iw * max (w / real iw) (h / real ih) * 1.02) * 0.5,
           cv_dy = (h - real ih * max (w / real iw) (h / real ih) * 1.02) * 0.5\<rparr>"
  using assms by (simp add: photoCover_def Let_def)

lemma videoCover_pos:
  assumes "0 < iw" and "0 < ih"
  shows "videoCover w h iw ih = photoCover w h iw ih"
  using assms by (simp add: photoCover_def videoCover_def Let_def)

lemma modelCover_pos:
  assumes "0 < iw" and "0 < ih"
  shows "modelCover w h iw ih = photoCover w h iw ih"
  using assms by (simp add: photoCover_def modelCover_def Let_def)

lemma modelCover_videoCover: "modelCover w h vw vh = videoCover w h vw vh"
  by (simp add: videoCover_def modelCover_def)

lemma videoCover_fallback:
  "videoCover w h vw vh
     = photoCover w h (if vw = 0 then 16 else vw) (if vh = 0 then 9 else vh)"
  by (simp add: photoCover_def videoCover_def Let_def)










section \<open>Powering off\<close>

lemma wf_update [simp]:
  "players_wf (tvOn_update f0 s) = players_wf s"
  "players_wf (tvUiState_update f1 s) = players_wf s"
  "players_wf (menuIndex_update f2 s) = players_wf s"
  "players_wf (blinkT0_update f3 s) = players_wf s"
  "players_wf (menuHover_update f4 s) = players_wf s"
  "players_wf (tvCanvas_update f5 s) = players_wf s"
  "players_wf (tvTex_update f6 s) = players_wf s"
  "players_wf (tvScreenMeshRef_update f7 s) = players_wf s"
  "players_wf (tvScreenMatRef_update f8 s) = players_wf s"
  "players_wf (tvAnim_update f9 s) = players_wf s"
  "players_wf (tvPower_update f10 s) = players_wf s"
  "players_wf (tvBootT0_update f11 s) = players_wf s"
  "players_wf (tvBooting_update f12 s) = players_wf s"
  "players_wf (grainOpacity_update f13 s) = players_wf s"
  "players_wf (tvTapDebug_update f14 s) = players_wf s"
  "players_wf (photoIndex_update f15 s) = players_wf s"
  "players_wf (photoImage_update f16 s) = players_wf s"
  "players_wf (photoLoading_update f17 s) = players_wf s"
  "players_wf (currentPhotoUrl_update f18 s) = players_wf s"
  "players_wf (photoRequests_update f19 s) = players_wf s"
  "players_wf (overlayOpen_update f20 s) = players_wf s"
  "players_wf (videoIndex_update f21 s) = players_wf s"
  "players_wf (videoReady_update f22 s) = players_wf s"
  "players_wf (videoWantsAutoPlay_update f23 s) = players_wf s"
  "players_wf (videoOverlayOpen_update f24 s) = players_wf s"
  "players_wf (tvVideoSuppressed_update f25 s) = players_wf s"
  "players_wf (modelIndex_update f26 s) = players_wf s"
  "players_wf (modelImageEl_update f27 s) = players_wf s"
  "players_wf (modelMediaType_update f28 s) = players_wf s"
  "players_wf (modelReady_update f29 s) = players_wf s"
  "players_wf (modelWantsAutoPlay_update f30 s) = players_wf s"
  "players_wf (currentModelUrl_update f31 s) = players_wf s"
  "players_wf (modelImageLoading_update f32 s) = players_wf s"
  "players_wf (modelOverlayOpen_update f33 s) = players_wf s"
  "players_wf (tvModelSuppressed_update f34 s) = players_wf s"
  "players_wf (lampMood_update f35 s) = players_wf s"
  by (simp_all add: players_wf_def)

lemma wf_draw [simp]:
  "players_wf (clearTvScreen s) = players_wf s"
  "players_wf (applyTvTextureEnabled b s) = players_wf s"
  "players_wf (drawTvMenu now s) = players_wf s"
  "players_wf (drawPhotoToTv img s) = players_wf s"
  "players_wf (drawVideoFrameToTv s) = players_wf s"
  "players_wf (drawModelFrameToTv now s) = players_wf s"
  by (simp_all add: draw_defs Let_def split: option.splits)

lemma wf_drawModelToTv [simp]: "players_wf (drawModelToTv now s) = players_wf s"
  by (simp add: drawModelToTv_def split: option.splits)

lemma wf_photo [simp]:
  "players_wf (loadPhotoAt i s) = players_wf s"
  "players_wf (photo_onLoad img s) = players_wf s"
  "players_wf (photo_onError s) = players_wf s"
  "players_wf (openPhotoOverlay url s) = players_wf s"
  "players_wf (closePhotoOverlay s) = players_wf s"
  by (simp_all add: loadPhotoAt_def photo_onLoad_def photo_onError_def
      openPhotoOverlay_def closePhotoOverlay_def Let_def)

lemma wf_photo2 [simp]:
  "players_wf (photoRequestDone k outcome s) = players_wf s"
  "players_wf (nextPhoto d s) = players_wf s"
  "players_wf (overlayNavPhoto d s) = players_wf s"
  by (simp_all add: photoRequestDone_def nextPhoto_def overlayNavPhoto_def Let_def
      split: option.splits prod.splits)

lemma wf_video_basic:
  "players_wf s \<Longrightarrow> players_wf (ensureVideoEl s)"
  "players_wf s \<Longrightarrow> players_wf (playVideo ok s)"
  "players_wf s \<Longrightarrow> players_wf (pauseVideo s)"
  "players_wf s \<Longrightarrow> players_wf (stopVideoCompletely s)"
  by (auto simp: players_wf_def ensureVideoEl_def playVideo_def pauseVideo_def
      stopVideoCompletely_def split: option.splits)

lemma wf_model_basic:
  "players_wf s \<Longrightarrow> players_wf (ensureModelVideoEl s)"
  "players_wf (ensureModelImageEl s) = players_wf s"
  "players_wf s \<Longrightarrow> players_wf (playModel ok s)"
  "players_wf s \<Longrightarrow> players_wf (pauseModel s)"
  "players_wf s \<Longrightarrow> players_wf (stopModelCompletely s)"
  by (auto simp: players_wf_def ensureModelVideoEl_def ensureModelImageEl_def playModel_def
      pauseModel_def stopModelCompletely_def split: option.splits)

lemma wf_toggle:
  "players_wf s \<Longrightarrow> players_wf (toggleVideoPlayPause ok s)"
  "players_wf s \<Longrightarrow> players_wf (toggleModelPlayPause ok s)"
  by (auto simp: toggleVideoPlayPause_def toggleModelPlayPause_def wf_video_basic wf_model_basic
      split: option.splits)

lemma wf_loadVideoAt: "players_wf s \<Longrightarrow> players_wf (loadVideoAt i ap ok s)"
proof -
  assume wf: "players_wf s"
  have a: "\<And>s f. players_wf s \<Longrightarrow> players_wf (s\<lparr>videoPlaying := False, videoEl := f\<rparr>)"
    by (auto simp: players_wf_def)
  show ?thesis using wf
    by (auto simp: loadVideoAt_def Let_def intro!: wf_video_basic a)
qed

lemma wf_loadModelAt: "players_wf s \<Longrightarrow> players_wf (loadModelAt i ap ok s)"
proof -
  assume wf: "players_wf s"
  have a: "\<And>s. players_wf s \<Longrightarrow> players_wf (s\<lparr>modelPlaying := False\<rparr>)"
    by (auto simp: players_wf_def)
  have b: "\<And>s f. players_wf s \<Longrightarrow> players_wf (s\<lparr>modelVideoEl := map_option f (modelVideoEl s)\<rparr>)"
    by (auto simp: players_wf_def)
  have c: "\<And>s f. players_wf s \<Longrightarrow>
      players_wf (s\<lparr>modelVideoEl := map_option f (modelVideoEl s), modelPlaying := False\<rparr>)"
    by (auto simp: players_wf_def)
  show ?thesis using wf
    by (auto simp: loadModelAt_def Let_def wf_model_basic(2) intro!: wf_model_basic a b c)
qed

lemma wf_set_flags:
  "players_wf s \<Longrightarrow> players_wf (s\<lparr>videoPlaying := False\<rparr>)"
  "players_wf s \<Longrightarrow> players_wf (s\<lparr>modelPlaying := False\<rparr>)"
  "players_wf s \<Longrightarrow> videoEl s \<noteq> None \<Longrightarrow> players_wf (s\<lparr>videoPlaying := b\<rparr>)"
  "players_wf s \<Longrightarrow> modelVideoEl s \<noteq> None \<Longrightarrow> players_wf (s\<lparr>modelPlaying := b\<rparr>)"
  "players_wf s \<Longrightarrow> players_wf (s\<lparr>videoEl := Some el\<rparr>)"
  "players_wf s \<Longrightarrow> players_wf (s\<lparr>modelVideoEl := Some el\<rparr>)"
  by (auto simp: players_wf_def)

lemma wf_video_nav:
  "players_wf s \<Longrightarrow> players_wf (nextVideo d ok s)"
  "players_wf s \<Longrightarrow> players_wf (overlayNextVideo d s)"
  "players_wf s \<Longrightarrow> players_wf (video_onLoadeddata ok s)"
  "players_wf s \<Longrightarrow> players_wf (openVideoOverlay s)"
  by (auto simp: nextVideo_def overlayNextVideo_def video_onLoadeddata_def openVideoOverlay_def
      Let_def wf_loadVideoAt wf_video_basic split: option.splits)

lemma wf_videoElDispatch: "players_wf s \<Longrightarrow> players_wf (videoElDispatch ev ok s)"
  by (cases ev)
    (auto simp: videoElDispatch_def wf_set_flags wf_video_nav split: option.splits)

lemma wf_video_end:
  "players_wf s \<Longrightarrow> players_wf (videoReachesEnd ok s)"
  "players_wf s \<Longrightarrow> players_wf (closeVideoOverlay ov ok s)"
  by (auto simp: videoReachesEnd_def closeVideoOverlay_def Let_def wf_set_flags
      wf_videoElDispatch wf_video_basic split: option.splits prod.splits)

lemma wf_model_nav:
  "players_wf s \<Longrightarrow> players_wf (nextModel d ok s)"
  "players_wf s \<Longrightarrow> players_wf (overlayNextModel d s)"
  "players_wf s \<Longrightarrow> players_wf (model_onLoadeddata now ok s)"
  "players_wf s \<Longrightarrow> players_wf (openModelOverlay now s)"
  "players_wf s \<Longrightarrow> players_wf (modelImageDone outcome now s)"
  by (auto simp: nextModel_def overlayNextModel_def model_onLoadeddata_def openModelOverlay_def
      modelImageDone_def Let_def wf_loadModelAt wf_model_basic split: option.splits prod.splits)

lemma wf_modelVideoElDispatch: "players_wf s \<Longrightarrow> players_wf (modelVideoElDispatch ev now ok s)"
  by (cases ev)
    (auto simp: modelVideoElDispatch_def wf_set_flags wf_model_nav split: option.splits)

lemma wf_closeModelOverlay: "players_wf s \<Longrightarrow> players_wf (closeModelOverlay ov ok s)"
  by (auto simp: closeModelOverlay_def Let_def wf_set_flags wf_model_basic
      split: option.splits prod.splits)

lemma wf_menu:
  "players_wf s \<Longrightarrow> players_wf (moveMenuSelection d now s)"
  "players_wf s \<Longrightarrow> players_wf (confirmMenuSelection now ok s)"
  by (auto simp: moveMenuSelection_def confirmMenuSelection_def Let_def wf_loadVideoAt
      wf_loadModelAt wf_video_basic wf_model_basic)

lemma wf_setTvPower: "players_wf s \<Longrightarrow> players_wf (setTvPower on now s)"
  by (auto simp: setTvPower_def Let_def wf_video_basic wf_model_basic)

lemma wf_frame:
  "players_wf (updateTv now rnd s) = players_wf s"
  "players_wf (tvRedraw now s) = players_wf s"
  by (simp_all add: updateTv_def tvRedraw_def Let_def split: option.splits)

lemma wf_screenClick:
  "players_wf s \<Longrightarrow> players_wf (screenClickPhoto hit now s)"
  "players_wf s \<Longrightarrow> players_wf (screenClickVideo hit now s)"
  "players_wf s \<Longrightarrow> players_wf (screenClickModel hit now s)"
  by (auto simp: screenClickPhoto_def screenClickVideo_def screenClickModel_def Let_def
      wf_video_basic wf_model_basic wf_video_nav wf_model_nav split: option.splits)

lemma wf_onPointerDown: "players_wf s \<Longrightarrow> players_wf (onPointerDown hit now ok s)"
  by (simp add: onPointerDown_def Let_def wf_screenClick wf_setTvPower wf_menu wf_toggle
      wf_video_nav wf_model_nav)

lemma wf_step: "players_wf s \<Longrightarrow> players_wf (tv_step e s)"
  by (cases e)
    (simp_all add: Let_def wf_onPointerDown wf_frame wf_videoElDispatch wf_video_end
      wf_modelVideoElDispatch wf_model_nav wf_closeModelOverlay wf_video_nav)

lemma wf_run: "players_wf s \<Longrightarrow> players_wf (tv_run es s)"
  by (induction es arbitrary: s) (simp_all add: wf_step)

lemma wf_init: "players_wf (tv_init t0)"
  by (simp add: players_wf_def tv_init_def)

lemma off_effects_now:
  assumes "tvOn s" and "players_wf s"
  shows "poweredOffEffects (setTvPower False now s)"
  using assms
  by (auto simp: poweredOffEffects_def setTvPower_def Let_def players_wf_def elementPaused_def
      screenTextureDetached_def applyTvTextureEnabled_def clearTvScreen_def
      stopModelCompletely_def stopVideoCompletely_def split: option.splits)

lemma off_anim:
  assumes "tvOn s"
  shows "tvAnim (setTvPower False now s)
           = Some \<lparr>anim_from = 1, anim_to = 0, anim_t0 = now / 1000\<rparr>"
  using assms by (simp add: setTvPower_def Let_def)

lemma off_frame:
  assumes "poweredOffEffects s"
  shows "poweredOffEffects (tv_step (Frame now rnd due) s)"
proof -
  have r: "\<And>s. \<not> tvOn s \<Longrightarrow> tvRedraw now s = s" by (simp add: tvRedraw_def)
  have u: "poweredOffEffects (updateTv now rnd s)"
    using assms
    by (auto simp: poweredOffEffects_def updateTv_def Let_def screenTextureDetached_def
        split: option.splits)
  then have "\<not> tvOn (updateTv now rnd s)" by (simp add: poweredOffEffects_def)
  then show ?thesis using u r by (simp add: Let_def)
qed

lemma off_frames:
  assumes "poweredOffEffects s" and "list_all isFrame fs"
  shows "poweredOffEffects (tv_run fs s)"
  using assms
proof (induction fs arbitrary: s)
  case Nil
  then show ?case by simp
next
  case (Cons e fs)
  then obtain now rnd due where e: "e = Frame now rnd due" by (cases e) simp_all
  show ?case using Cons off_frame[of s now rnd due] by (simp add: e)
qed

lemma black_pixels:
  assumes "tvCanvas s = [FillAll ''#000000'']" and "x < 1920" and "y < 1080"
  shows "canvasPixel (tvCanvas s) x y = Some ''#000000''"
  using assms by simp

text \<open>
  Claim C4. Switching the TV off from a state in which it is on has these effects as
  soon as \<^verbatim>\<open>setTvPower\<close> returns: both playback flags are false and both video
  elements paused, every pixel of the canvas is \<^verbatim>\<open>#000000\<close>, the texture is detached
  from the screen material, and the power animation from 1 to 0 has only just been
  created. The effects persist through the frames that run the animation. The
  assumption \<open>players_wf\<close> holds in every state reached from the initial one.
\<close>

theorem power_off_effects:
  assumes "tvOn s" and "players_wf s"
  shows "\<not> tvOn (setTvPower False now s)
         \<and> \<not> videoPlaying (setTvPower False now s) \<and> \<not> modelPlaying (setTvPower False now s)
         \<and> elementPaused (videoEl (setTvPower False now s))
         \<and> elementPaused (modelVideoEl (setTvPower False now s))
         \<and> (\<forall>x < 1920. \<forall>y < 1080.
               canvasPixel (tvCanvas (setTvPower False now s)) x y = Some ''#000000'')
         \<and> screenTextureDetached (setTvPower False now s)
         \<and> tvAnim (setTvPower False now s)
             = Some \<lparr>anim_from = 1, anim_to = 0, anim_t0 = now / 1000\<rparr>
         \<and> (\<forall>fs. list_all isFrame fs \<longrightarrow> poweredOffEffects (tv_run fs (setTvPower False now s)))
         \<and> players_wf (tv_run es (tv_init t0))"
proof -
  let ?s' = "setTvPower False now s"
  have e: "poweredOffEffects ?s'" using assms by (rule off_effects_now)
  have px: "\<forall>x < 1920. \<forall>y < 1080. canvasPixel (tvCanvas ?s') x y = Some ''#000000''"
    using e black_pixels[of ?s'] by (simp add: poweredOffEffects_def)
  have fr: "\<forall>fs. list_all isFrame fs \<longrightarrow> poweredOffEffects (tv_run fs ?s')"
    using e off_frames by blast
  have wf: "players_wf (tv_run es (tv_init t0))" using wf_init by (rule wf_run)
  show ?thesis using e px fr wf off_anim[OF assms(1)] by (simp add: poweredOffEffects_def)
qed

theorem power_off_effects_witness:
  "tvOn demo_video \<and> players_wf demo_video \<and> videoPlaying demo_video
   \<and> \<not> videoPlaying (setTvPower False 5000 demo_video)
   \<and> elementPaused (videoEl (setTvPower False 5000 demo_video))
   \<and> canvasPixel (tvCanvas (setTvPower False 5000 demo_video)) 1919 1079 = Some ''#000000''
   \<and> screenTextureDetached (setTvPower False 5000 demo_video)
   \<and> tvAnim (setTvPower False 5000 demo_video)
       = Some \<lparr>anim_from = 1, anim_to = 0, anim_t0 = 5\<rparr>
   \<and> poweredOffEffects (tv_run [Frame 5100 0.5 True] (setTvPower False 5000 demo_video))"
proof -
  have h1: "tvOn demo_video" by (rule demo_video_facts)
  have h2: "players_wf demo_video"
    unfolding demo_video_def demo_menu_def
    by (intro wf_videoElDispatch wf_onPointerDown wf_init)
  note t = power_off_effects[OF h1 h2, of 5000 "[]" 0]
  have px: "canvasPixel (tvCanvas (setTvPower False 5000 demo_video)) 1919 1079 = Some ''#000000''"
    using t by simp
  have fr: "poweredOffEffects (tv_run [Frame 5100 0.5 True] (setTvPower False 5000 demo_video))"
  proof -
    have "list_all isFrame [Frame 5100 0.5 True]" by simp
    then show ?thesis using t by blast
  qed
  have an: "tvAnim (setTvPower False 5000 demo_video)
       = Some \<lparr>anim_from = 1, anim_to = 0, anim_t0 = 5\<rparr>"
    using t by simp
  show ?thesis using h1 h2 t px fr an demo_video_facts(10) by simp
qed

text \<open>
  The photo loader's callback does not look at the power state: a load that completes
  after power-off still paints the image into the canvas (the texture stays detached).
\<close>

lemma photo_done_while_off:
  assumes "\<not> tvOn s" and "k < length (photoRequests s)"
  shows "tvCanvas (photoRequestDone k (Some (800, 600)) s)
           = [FillAll ''#000'',
              DrawImage (ImageSrc \<lparr>img_src = photoRequests s ! k, img_width = 800,
                                   img_height = 600\<rparr>) (- 19.2) (- 194.4) 1958.4 1468.8]"
    and "tvScreenMatRef (photoRequestDone k (Some (800, 600)) s) = tvScreenMatRef s"
  using assms
  by (simp_all add: photoRequestDone_def photo_onLoad_def drawPhotoToTv_def drawImageOp_def
      photoCover_def canvasW_def canvasH_def Let_def)

section \<open>The end of a video\<close>

lemma videoEl_created_looping:
  "videoEl s = None \<Longrightarrow> map_option el_loop (videoEl (ensureVideoEl s)) = Some True"
  by (simp add: ensureVideoEl_def)

lemma audio_ended:
  "trackIndex (audio_onEnded i ok a)
     = (if i = trackIndex a \<and> isPlaying a then jsRem (trackIndex a + 1) trackCount
        else trackIndex a)"
  by (simp add: audio_onEnded_def nextTrack_def Let_def)

lemma loops_update [simp]:
  "videoLoops (tvOn_update f0 s) = videoLoops s"
  "videoLoops (tvUiState_update f1 s) = videoLoops s"
  "videoLoops (menuIndex_update f2 s) = videoLoops s"
  "videoLoops (blinkT0_update f3 s) = videoLoops s"
  "videoLoops (menuHover_update f4 s) = videoLoops s"
  "videoLoops (tvCanvas_update f5 s) = videoLoops s"
  "videoLoops (tvTex_update f6 s) = videoLoops s"
  "videoLoops (tvScreenMeshRef_update f7 s) = videoLoops s"
  "videoLoops (tvScreenMatRef_update f8 s) = videoLoops s"
  "videoLoops (tvAnim_update f9 s) = videoLoops s"
  "videoLoops (tvPower_update f10 s) = videoLoops s"
  "videoLoops (tvBootT0_update f11 s) = videoLoops s"
  "videoLoops (tvBooting_update f12 s) = videoLoops s"
  "videoLoops (grainOpacity_update f13 s) = videoLoops s"
  "videoLoops (lampMood_update f14 s) = videoLoops s"
  "videoLoops (tvTapDebug_update f15 s) = videoLoops s"
  "videoLoops (photoIndex_update f16 s) = videoLoops s"
  "videoLoops (photoImage_update f17 s) = videoLoops s"
  "videoLoops (photoLoading_update f18 s) = videoLoops s"
  "videoLoops (currentPhotoUrl_update f19 s) = videoLoops s"
  "videoLoops (photoRequests_update f20 s) = videoLoops s"
  "videoLoops (overlayOpen_update f21 s) = videoLoops s"
  "videoLoops (videoIndex_update f22 s) = videoLoops s"
  "videoLoops (videoReady_update f23 s) = videoLoops s"
  "videoLoops (videoPlaying_update f24 s) = videoLoops s"
  "videoLoops (videoWantsAutoPlay_update f25 s) = videoLoops s"
  "videoLoops (videoOverlayOpen_update f26 s) = videoLoops s"
  "videoLoops (tvVideoSuppressed_update f27 s) = videoLoops s"
  "videoLoops (modelIndex_update f28 s) = videoLoops s"
  "videoLoops (modelImageEl_update f29 s) = videoLoops s"
  "videoLoops (modelMediaType_update f30 s) = videoLoops s"
  "videoLoops (modelReady_update f31 s) = videoLoops s"
  "videoLoops (modelPlaying_update f32 s) = videoLoops s"
  "videoLoops (modelWantsAutoPlay_update f33 s) = videoLoops s"
  "videoLoops (currentModelUrl_update f34 s) = videoLoops s"
  "videoLoops (modelImageLoading_update f35 s) = videoLoops s"
  "videoLoops (modelOverlayOpen_update f36 s) = videoLoops s"
  "videoLoops (tvModelSuppressed_update f37 s) = videoLoops s"
  by (simp_all add: videoLoops_def)

lemma loops_draw [simp]:
  "videoLoops (clearTvScreen s) = videoLoops s"
  "videoLoops (applyTvTextureEnabled b s) = videoLoops s"
  "videoLoops (drawTvMenu now s) = videoLoops s"
  "videoLoops (drawPhotoToTv img s) = videoLoops s"
  "videoLoops (drawVideoFrameToTv s) = videoLoops s"
  "videoLoops (drawModelFrameToTv now s) = videoLoops s"
  by (simp_all add: draw_defs Let_def split: option.splits)

lemma loops_drawModelToTv [simp]: "videoLoops (drawModelToTv now s) = videoLoops s"
  by (simp add: drawModelToTv_def split: option.splits)

lemma loops_photo [simp]:
  "videoLoops (loadPhotoAt i s) = videoLoops s"
  "videoLoops (photo_onLoad img s) = videoLoops s"
  "videoLoops (photo_onError s) = videoLoops s"
  "videoLoops (openPhotoOverlay url s) = videoLoops s"
  "videoLoops (closePhotoOverlay s) = videoLoops s"
  by (simp_all add: loadPhotoAt_def photo_onLoad_def photo_onError_def
      openPhotoOverlay_def closePhotoOverlay_def Let_def)

lemma loops_photo2 [simp]:
  "videoLoops (photoRequestDone k outcome s) = videoLoops s"
  "videoLoops (nextPhoto d s) = videoLoops s"
  "videoLoops (overlayNavPhoto d s) = videoLoops s"
  by (simp_all add: photoRequestDone_def nextPhoto_def overlayNavPhoto_def Let_def
      split: option.splits prod.splits)

lemma loops_videoEl_update [simp]:
  "videoLoops (videoEl_update f s) = (elementLoops (f (videoEl s)) \<and> elementLoops (modelVideoEl s))"
  "videoLoops (modelVideoEl_update g s) = (elementLoops (videoEl s) \<and> elementLoops (g (modelVideoEl s)))"
  by (simp_all add: videoLoops_def)

lemma elementLoops_map [simp]:
  "(\<And>el. el_loop (f el) = el_loop el) \<Longrightarrow> elementLoops (map_option f e) = elementLoops e"
  by (cases e) (simp_all add: elementLoops_def)

lemma elementLoops_Some [simp]: "elementLoops (Some el) = el_loop el"
  by (simp add: elementLoops_def)

lemma loopsD:
  "videoLoops s \<Longrightarrow> elementLoops (videoEl s)"
  "videoLoops s \<Longrightarrow> elementLoops (modelVideoEl s)"
  by (simp_all add: videoLoops_def)

lemma loops_someD:
  "videoLoops s \<Longrightarrow> videoEl s = Some el \<Longrightarrow> el_loop el"
  "videoLoops s \<Longrightarrow> modelVideoEl s = Some el \<Longrightarrow> el_loop el"
  by (simp_all add: videoLoops_def elementLoops_def)

lemma loops_video_basic:
  "videoLoops s \<Longrightarrow> videoLoops (ensureVideoEl s)"
  "videoLoops s \<Longrightarrow> videoLoops (playVideo ok s)"
  "videoLoops s \<Longrightarrow> videoLoops (pauseVideo s)"
  "videoLoops s \<Longrightarrow> videoLoops (stopVideoCompletely s)"
  by (auto simp: videoLoops_def elementLoops_def ensureVideoEl_def playVideo_def pauseVideo_def
      stopVideoCompletely_def split: option.splits)

lemma loops_model_basic:
  "videoLoops s \<Longrightarrow> videoLoops (ensureModelVideoEl s)"
  "videoLoops (ensureModelImageEl s) = videoLoops s"
  "videoLoops s \<Longrightarrow> videoLoops (playModel ok s)"
  "videoLoops s \<Longrightarrow> videoLoops (pauseModel s)"
  "videoLoops s \<Longrightarrow> videoLoops (stopModelCompletely s)"
  by (auto simp: videoLoops_def elementLoops_def ensureModelVideoEl_def ensureModelImageEl_def
      playModel_def pauseModel_def stopModelCompletely_def split: option.splits)

lemma loops_toggle:
  "videoLoops s \<Longrightarrow> videoLoops (toggleVideoPlayPause ok s)"
  "videoLoops s \<Longrightarrow> videoLoops (toggleModelPlayPause ok s)"
  by (auto simp: toggleVideoPlayPause_def toggleModelPlayPause_def loops_video_basic
      loops_model_basic split: option.splits)

lemma loops_loadVideoAt: "videoLoops s \<Longrightarrow> videoLoops (loadVideoAt i ap ok s)"
proof -
  assume l: "videoLoops s"
  have e: "videoLoops (ensureVideoEl s)" using l by (rule loops_video_basic)
  show ?thesis
    using l loopsD[OF e]
    by (auto simp: loadVideoAt_def Let_def clearTvScreen_def intro!: loops_video_basic)
qed

lemma loops_loadModelAt: "videoLoops s \<Longrightarrow> videoLoops (loadModelAt i ap ok s)"
proof -
  assume l: "videoLoops s"
  have e: "\<And>s'. videoLoops s' \<Longrightarrow> elementLoops (videoEl (ensureModelVideoEl s'))
      \<and> elementLoops (modelVideoEl (ensureModelVideoEl s'))"
    using loops_model_basic(1) loopsD by blast
  have k: "\<And>s'. videoEl (ensureModelImageEl s') = videoEl s'"
    "\<And>s'. modelVideoEl (ensureModelImageEl s') = modelVideoEl s'"
    by (simp_all add: ensureModelImageEl_def split: option.splits)
  have c: "\<And>s'. videoLoops (clearTvScreen s') = videoLoops s'" by simp
  have m: "\<And>a b c d t. videoLoops (clearTvScreen (s\<lparr>modelIndex := a, currentModelUrl := b,
      modelReady := c, modelPlaying := d\<rparr>)\<lparr>modelMediaType := t\<rparr>)"
    using l by simp
  show ?thesis
    using l loopsD[OF l] e[OF m] loopsD[OF m]
    by (auto simp: loadModelAt_def Let_def k intro!: loops_model_basic)
qed

lemma loops_video_nav:
  "videoLoops s \<Longrightarrow> videoLoops (nextVideo d ok s)"
  "videoLoops s \<Longrightarrow> videoLoops (overlayNextVideo d s)"
  "videoLoops s \<Longrightarrow> videoLoops (video_onLoadeddata ok s)"
  "videoLoops s \<Longrightarrow> videoLoops (openVideoOverlay s)"
  by (auto simp: nextVideo_def overlayNextVideo_def video_onLoadeddata_def openVideoOverlay_def
      Let_def loops_loadVideoAt loops_video_basic split: option.splits)

lemma loops_videoElDispatch: "videoLoops s \<Longrightarrow> videoLoops (videoElDispatch ev ok s)"
  by (cases ev)
    (auto simp: videoElDispatch_def split: option.splits
      dest: loopsD loops_someD intro!: loops_video_nav)

lemma loops_video_end:
  "videoLoops s \<Longrightarrow> videoLoops (videoReachesEnd ok s)"
  "videoLoops s \<Longrightarrow> videoLoops (closeVideoOverlay ov ok s)"
  by (auto simp: videoReachesEnd_def closeVideoOverlay_def Let_def
      split: option.splits prod.splits
      dest: loopsD loops_someD intro!: loops_videoElDispatch loops_video_basic)

lemma loops_model_nav:
  "videoLoops s \<Longrightarrow> videoLoops (nextModel d ok s)"
  "videoLoops s \<Longrightarrow> videoLoops (overlayNextModel d s)"
  "videoLoops s \<Longrightarrow> videoLoops (model_onLoadeddata now ok s)"
  "videoLoops s \<Longrightarrow> videoLoops (openModelOverlay now s)"
  "videoLoops s \<Longrightarrow> videoLoops (modelImageDone outcome now s)"
  by (auto simp: nextModel_def overlayNextModel_def model_onLoadeddata_def openModelOverlay_def
      modelImageDone_def Let_def loops_loadModelAt loops_model_basic
      split: option.splits prod.splits)

lemma loops_modelVideoElDispatch:
  "videoLoops s \<Longrightarrow> videoLoops (modelVideoElDispatch ev now ok s)"
  by (cases ev)
    (auto simp: modelVideoElDispatch_def split: option.splits
      dest: loopsD loops_someD intro!: loops_model_nav)

lemma loops_closeModelOverlay: "videoLoops s \<Longrightarrow> videoLoops (closeModelOverlay ov ok s)"
  by (auto simp: closeModelOverlay_def Let_def split: option.splits prod.splits
      dest: loopsD loops_someD intro!: loops_model_basic)

lemma loops_menu:
  "videoLoops s \<Longrightarrow> videoLoops (moveMenuSelection d now s)"
  "videoLoops s \<Longrightarrow> videoLoops (confirmMenuSelection now ok s)"
  by (auto simp: moveMenuSelection_def confirmMenuSelection_def Let_def loops_loadVideoAt
      loops_loadModelAt loops_video_basic loops_model_basic)

lemma loops_setTvPower: "videoLoops s \<Longrightarrow> videoLoops (setTvPower on now s)"
  by (auto simp: setTvPower_def Let_def loops_video_basic loops_model_basic)

lemma loops_frame:
  "videoLoops (updateTv now rnd s) = videoLoops s"
  "videoLoops (tvRedraw now s) = videoLoops s"
  by (simp_all add: updateTv_def tvRedraw_def Let_def split: option.splits)

lemma loops_screenClick:
  "videoLoops s \<Longrightarrow> videoLoops (screenClickPhoto hit now s)"
  "videoLoops s \<Longrightarrow> videoLoops (screenClickVideo hit now s)"
  "videoLoops s \<Longrightarrow> videoLoops (screenClickModel hit now s)"
  by (auto simp: screenClickPhoto_def screenClickVideo_def screenClickModel_def Let_def
      loops_video_basic loops_model_basic loops_video_nav loops_model_nav split: option.splits)

lemma loops_onPointerDown: "videoLoops s \<Longrightarrow> videoLoops (onPointerDown hit now ok s)"
  by (simp add: onPointerDown_def Let_def loops_screenClick loops_setTvPower loops_menu
      loops_toggle loops_video_nav loops_model_nav)

lemma loops_step: "videoLoops s \<Longrightarrow> videoLoops (tv_step e s)"
  by (cases e)
    (simp_all add: Let_def loops_onPointerDown loops_frame loops_videoElDispatch loops_video_end
      loops_modelVideoElDispatch loops_model_nav loops_closeModelOverlay loops_video_nav)

lemma loops_run: "videoLoops s \<Longrightarrow> videoLoops (tv_run es s)"
  by (induction es arbitrary: s) (simp_all add: loops_step)

lemma loops_init: "videoLoops (tv_init t0)"
  by (simp add: videoLoops_def elementLoops_def tv_init_def)

lemma end_restarts:
  assumes "videoLoops s"
  shows "videoReachesEnd ok s
           = (case videoEl s of
                None \<Rightarrow> s
              | Some el \<Rightarrow> s\<lparr>videoEl := Some (el\<lparr>el_currentTime := 0\<rparr>)\<rparr>)"
  using assms
  by (simp add: videoReachesEnd_def videoLoops_def elementLoops_def split: option.splits)

lemma idx_draw [simp]:
  "videoIndex (clearTvScreen s) = videoIndex s" "modelIndex (clearTvScreen s) = modelIndex s"
  "videoIndex (applyTvTextureEnabled b s) = videoIndex s"
  "modelIndex (applyTvTextureEnabled b s) = modelIndex s"
  "videoIndex (drawTvMenu now s) = videoIndex s" "modelIndex (drawTvMenu now s) = modelIndex s"
  "videoIndex (drawPhotoToTv img s) = videoIndex s"
  "modelIndex (drawPhotoToTv img s) = modelIndex s"
  "videoIndex (drawVideoFrameToTv s) = videoIndex s"
  "modelIndex (drawVideoFrameToTv s) = modelIndex s"
  "videoIndex (drawModelFrameToTv now s) = videoIndex s"
  "modelIndex (drawModelFrameToTv now s) = modelIndex s"
  by (simp_all add: draw_defs Let_def split: option.splits)

lemma idx_drawModelToTv [simp]:
  "videoIndex (drawModelToTv now s) = videoIndex s"
  "modelIndex (drawModelToTv now s) = modelIndex s"
  by (simp_all add: drawModelToTv_def split: option.splits)

lemma idx_photo [simp]:
  "videoIndex (loadPhotoAt i s) = videoIndex s" "modelIndex (loadPhotoAt i s) = modelIndex s"
  "videoIndex (photo_onLoad img s) = videoIndex s" "modelIndex (photo_onLoad img s) = modelIndex s"
  "videoIndex (photo_onError s) = videoIndex s" "modelIndex (photo_onError s) = modelIndex s"
  "videoIndex (openPhotoOverlay url s) = videoIndex s"
  "modelIndex (openPhotoOverlay url s) = modelIndex s"
  "videoIndex (closePhotoOverlay s) = videoIndex s"
  "modelIndex (closePhotoOverlay s) = modelIndex s"
  by (simp_all add: loadPhotoAt_def photo_onLoad_def photo_onError_def
      openPhotoOverlay_def closePhotoOverlay_def Let_def)

lemma idx_photo2 [simp]:
  "videoIndex (photoRequestDone k outcome s) = videoIndex s"
  "modelIndex (photoRequestDone k outcome s) = modelIndex s"
  "videoIndex (nextPhoto d s) = videoIndex s" "modelIndex (nextPhoto d s) = modelIndex s"
  "videoIndex (overlayNavPhoto d s) = videoIndex s"
  "modelIndex (overlayNavPhoto d s) = modelIndex s"
  by (simp_all add: photoRequestDone_def nextPhoto_def overlayNavPhoto_def Let_def
      split: option.splits prod.splits)

lemma idx_video_basic [simp]:
  "videoIndex (ensureVideoEl s) = videoIndex s" "modelIndex (ensureVideoEl s) = modelIndex s"
  "videoIndex (playVideo ok s) = videoIndex s" "modelIndex (playVideo ok s) = modelIndex s"
  "videoIndex (pauseVideo s) = videoIndex s" "modelIndex (pauseVideo s) = modelIndex s"
  "videoIndex (stopVideoCompletely s) = videoIndex s"
  "modelIndex (stopVideoCompletely s) = modelIndex s"
  "videoIndex (toggleVideoPlayPause ok s) = videoIndex s"
  "modelIndex (toggleVideoPlayPause ok s) = modelIndex s"
  by (simp_all add: ensureVideoEl_def playVideo_def pauseVideo_def stopVideoCompletely_def
      toggleVideoPlayPause_def split: option.splits)

lemma idx_model_basic [simp]:
  "videoIndex (ensureModelVideoEl s) = videoIndex s"
  "modelIndex (ensureModelVideoEl s) = modelIndex s"
  "videoIndex (ensureModelImageEl s) = videoIndex s"
  "modelIndex (ensureModelImageEl s) = modelIndex s"
  "videoIndex (playModel ok s) = videoIndex s" "modelIndex (playModel ok s) = modelIndex s"
  "videoIndex (pauseModel s) = videoIndex s" "modelIndex (pauseModel s) = modelIndex s"
  "videoIndex (stopModelCompletely s) = videoIndex s"
  "modelIndex (stopModelCompletely s) = modelIndex s"
  "videoIndex (toggleModelPlayPause ok s) = videoIndex s"
  "modelIndex (toggleModelPlayPause ok s) = modelIndex s"
  by (simp_all add: ensureModelVideoEl_def ensureModelImageEl_def playModel_def pauseModel_def
      stopModelCompletely_def toggleModelPlayPause_def split: option.splits)

lemma idx_loadVideoAt [simp]:
  "videoIndex (loadVideoAt i ap ok s)
     = (if tvOn s \<and> tvUiState s = VIDEO
        then jsRem (i + int (length VIDEO_PATHS)) (int (length VIDEO_PATHS))
        else videoIndex s)"
  "modelIndex (loadVideoAt i ap ok s) = modelIndex s"
  by (simp_all add: loadVideoAt_def Let_def)

lemma idx_loadModelAt [simp]:
  "modelIndex (loadModelAt i ap ok s)
     = (if tvOn s \<and> tvUiState s = MODEL3D
        then jsRem (i + int (length MODEL_PATHS)) (int (length MODEL_PATHS))
        else modelIndex s)"
  "videoIndex (loadModelAt i ap ok s) = videoIndex s"
  by (simp_all add: loadModelAt_def Let_def split: option.splits)

lemma idx_video_events [simp]:
  "videoIndex (video_onLoadeddata ok s) = videoIndex s"
  "modelIndex (video_onLoadeddata ok s) = modelIndex s"
  "videoIndex (openVideoOverlay s) = videoIndex s"
  "modelIndex (openVideoOverlay s) = modelIndex s"
  "videoIndex (videoElDispatch ev ok s) = videoIndex s"
  "modelIndex (videoElDispatch ev ok s) = modelIndex s"
  by (simp_all add: video_onLoadeddata_def openVideoOverlay_def videoElDispatch_def Let_def
      split: option.splits media_event.splits)

lemma idx_video_end [simp]:
  "videoIndex (videoReachesEnd ok s) = videoIndex s"
  "modelIndex (videoReachesEnd ok s) = modelIndex s"
  "videoIndex (closeVideoOverlay ov ok s) = videoIndex s"
  "modelIndex (closeVideoOverlay ov ok s) = modelIndex s"
  by (simp_all add: videoReachesEnd_def closeVideoOverlay_def Let_def
      split: option.splits prod.splits)

lemma idx_model_events [simp]:
  "videoIndex (model_onLoadeddata now ok s) = videoIndex s"
  "modelIndex (model_onLoadeddata now ok s) = modelIndex s"
  "videoIndex (openModelOverlay now s) = videoIndex s"
  "modelIndex (openModelOverlay now s) = modelIndex s"
  "videoIndex (modelImageDone outcome now s) = videoIndex s"
  "modelIndex (modelImageDone outcome now s) = modelIndex s"
  "videoIndex (modelVideoElDispatch ev now ok s) = videoIndex s"
  "modelIndex (modelVideoElDispatch ev now ok s) = modelIndex s"
  "videoIndex (closeModelOverlay ov ok s) = videoIndex s"
  "modelIndex (closeModelOverlay ov ok s) = modelIndex s"
  by (simp_all add: model_onLoadeddata_def openModelOverlay_def modelImageDone_def
      modelVideoElDispatch_def closeModelOverlay_def Let_def
      split: option.splits prod.splits media_event.splits)

lemma idx_cross_nav [simp]:
  "modelIndex (nextVideo d ok s) = modelIndex s"
  "modelIndex (overlayNextVideo d s) = modelIndex s"
  "videoIndex (nextModel d ok s) = videoIndex s"
  "videoIndex (overlayNextModel d s) = videoIndex s"
  by (simp_all add: nextVideo_def overlayNextVideo_def nextModel_def overlayNextModel_def Let_def)

lemma idx_power_frame [simp]:
  "videoIndex (setTvPower on now s) = videoIndex s"
  "modelIndex (setTvPower on now s) = modelIndex s"
  "videoIndex (moveMenuSelection d now s) = videoIndex s"
  "modelIndex (moveMenuSelection d now s) = modelIndex s"
  "videoIndex (updateTv now rnd s) = videoIndex s"
  "modelIndex (updateTv now rnd s) = modelIndex s"
  "videoIndex (tvRedraw now s) = videoIndex s"
  "modelIndex (tvRedraw now s) = modelIndex s"
  by (simp_all add: setTvPower_def moveMenuSelection_def updateTv_def tvRedraw_def Let_def
      split: option.splits)

lemma idx_screenClick [simp]:
  "videoIndex (screenClickPhoto hit now s) = videoIndex s"
  "modelIndex (screenClickPhoto hit now s) = modelIndex s"
  "videoIndex (screenClickVideo hit now s) = videoIndex s"
  "modelIndex (screenClickVideo hit now s) = modelIndex s"
  "videoIndex (screenClickModel hit now s) = videoIndex s"
  "modelIndex (screenClickModel hit now s) = modelIndex s"
  by (simp_all add: screenClickPhoto_def screenClickVideo_def screenClickModel_def Let_def
      split: option.splits)

lemma videoIndex_pointerDown:
  assumes "videoIndex (onPointerDown hit now ok s) \<noteq> videoIndex s"
  shows "tvOn s \<and> \<not> videoOverlayOpen s
         \<and> (tvUiState s = MENU \<and> hit_mesh hit = OkButton
              \<and> itemAt MENU_ITEMS (menuIndex s) = Some VIDEO
            \<or> tvUiState s = VIDEO \<and> (hit_mesh hit = RightArrow \<or> hit_mesh hit = LeftArrow))"
  using assms
  by (auto simp: onPointerDown_def confirmMenuSelection_def nextVideo_def Let_def
      split: if_splits option.splits)

lemma modelIndex_pointerDown:
  assumes "modelIndex (onPointerDown hit now ok s) \<noteq> modelIndex s"
  shows "tvOn s \<and> \<not> modelOverlayOpen s
         \<and> (tvUiState s = MENU \<and> hit_mesh hit = OkButton
              \<and> itemAt MENU_ITEMS (menuIndex s) = Some MODEL3D
            \<or> tvUiState s = MODEL3D \<and> (hit_mesh hit = RightArrow \<or> hit_mesh hit = LeftArrow))"
  using assms
  by (auto simp: onPointerDown_def confirmMenuSelection_def nextModel_def Let_def
      split: if_splits option.splits)

lemma videoIndex_step:
  assumes "videoIndex (tv_step e s) \<noteq> videoIndex s"
  shows "(\<exists>hit now ok. e = PointerDown hit now ok \<and> tvOn s \<and> \<not> videoOverlayOpen s
            \<and> (tvUiState s = MENU \<and> hit_mesh hit = OkButton
                 \<and> itemAt MENU_ITEMS (menuIndex s) = Some VIDEO
               \<or> tvUiState s = VIDEO
                 \<and> (hit_mesh hit = RightArrow \<or> hit_mesh hit = LeftArrow)))
         \<or> (\<exists>d. e = OverlayNextVideo d \<and> videoOverlayOpen s \<and> tvUiState s = VIDEO)"
proof (cases e)
  case (PointerDown hit now ok)
  then show ?thesis using assms videoIndex_pointerDown[of hit now ok s] by simp
next
  case (OverlayNextVideo d)
  then show ?thesis using assms by (auto simp: overlayNextVideo_def split: if_splits)
qed (use assms in \<open>auto simp: Let_def split: if_splits\<close>)

lemma modelIndex_step:
  assumes "modelIndex (tv_step e s) \<noteq> modelIndex s"
  shows "(\<exists>hit now ok. e = PointerDown hit now ok \<and> tvOn s \<and> \<not> modelOverlayOpen s
            \<and> (tvUiState s = MENU \<and> hit_mesh hit = OkButton
                 \<and> itemAt MENU_ITEMS (menuIndex s) = Some MODEL3D
               \<or> tvUiState s = MODEL3D
                 \<and> (hit_mesh hit = RightArrow \<or> hit_mesh hit = LeftArrow)))
         \<or> (\<exists>d. e = OverlayNextModel d \<and> modelOverlayOpen s \<and> tvUiState s = MODEL3D)"
proof (cases e)
  case (PointerDown hit now ok)
  then show ?thesis using assms modelIndex_pointerDown[of hit now ok s] by simp
next
  case (OverlayNextModel d)
  then show ?thesis using assms by (auto simp: overlayNextModel_def split: if_splits)
qed (use assms in \<open>auto simp: Let_def split: if_splits\<close>)

lemma ended_unheard: "videoElDispatch EndedEv ok s = s"
  by (simp add: videoElDispatch_def split: option.splits)

lemma end_restarts_reachable:
  "videoReachesEnd ok (tv_run es (tv_init t0))
     = (case videoEl (tv_run es (tv_init t0)) of
          None \<Rightarrow> tv_run es (tv_init t0)
        | Some el \<Rightarrow> (tv_run es (tv_init t0))\<lparr>videoEl := Some (el\<lparr>el_currentTime := 0\<rparr>)\<rparr>)"
  by (rule end_restarts) (rule loops_run, rule loops_init)

text \<open>
  Claim C7, as amended. The video adapter does not advance on its own. In every state
  reached from the initial one each video element has \<^verbatim>\<open>loop\<close> set, so playback
  reaching the end of the file seeks back to the start of the same item and changes
  nothing else. No \<^verbatim>\<open>ended\<close> listener is registered: an \<^verbatim>\<open>ended\<close> event leaves the state
  as it is, and no event dispatched on a video element changes \<^verbatim>\<open>videoIndex\<close> or
  \<^verbatim>\<open>modelIndex\<close>. \<^verbatim>\<open>videoIndex\<close> changes only on user input: a pointer-down that confirms
  VIDEO in the menu or presses the left or right arrow in VIDEO mode, or the previous or
  next button of the open video overlay; likewise for \<^verbatim>\<open>modelIndex\<close> and the 3D-model
  viewer.
\<close>

theorem video_no_auto_advance:
  "videoLoops (tv_run es (tv_init t0))
   \<and> videoReachesEnd ok (tv_run es (tv_init t0))
       = (case videoEl (tv_run es (tv_init t0)) of
            None \<Rightarrow> tv_run es (tv_init t0)
          | Some el \<Rightarrow>
              (tv_run es (tv_init t0))\<lparr>videoEl := Some (el\<lparr>el_currentTime := 0\<rparr>)\<rparr>)
   \<and> videoElDispatch EndedEv ok s = s
   \<and> videoIndex (videoElDispatch ev ok s) = videoIndex s
   \<and> videoIndex (videoReachesEnd ok s) = videoIndex s
   \<and> modelIndex (modelVideoElDispatch ev now ok s) = modelIndex s
   \<and> (videoIndex (tv_step e s) \<noteq> videoIndex s \<longrightarrow>
        (\<exists>hit t p. e = PointerDown hit t p \<and> tvOn s \<and> \<not> videoOverlayOpen s
            \<and> (tvUiState s = MENU \<and> hit_mesh hit = OkButton
                 \<and> itemAt MENU_ITEMS (menuIndex s) = Some VIDEO
               \<or> tvUiState s = VIDEO
                 \<and> (hit_mesh hit = RightArrow \<or> hit_mesh hit = LeftArrow)))
        \<or> (\<exists>d. e = OverlayNextVideo d \<and> videoOverlayOpen s \<and> tvUiState s = VIDEO))
   \<and> (modelIndex (tv_step e' s') \<noteq> modelIndex s' \<longrightarrow>
        (\<exists>hit t p. e' = PointerDown hit t p \<and> tvOn s' \<and> \<not> modelOverlayOpen s'
            \<and> (tvUiState s' = MENU \<and> hit_mesh hit = OkButton
                 \<and> itemAt MENU_ITEMS (menuIndex s') = Some MODEL3D
               \<or> tvUiState s' = MODEL3D
                 \<and> (hit_mesh hit = RightArrow \<or> hit_mesh hit = LeftArrow)))
        \<or> (\<exists>d. e' = OverlayNextModel d \<and> modelOverlayOpen s' \<and> tvUiState s' = MODEL3D))"
proof (intro conjI impI)
  show "videoLoops (tv_run es (tv_init t0))" by (rule loops_run) (rule loops_init)
  show "videoReachesEnd ok (tv_run es (tv_init t0))
       = (case videoEl (tv_run es (tv_init t0)) of
            None \<Rightarrow> tv_run es (tv_init t0)
          | Some el \<Rightarrow>
              (tv_run es (tv_init t0))\<lparr>videoEl := Some (el\<lparr>el_currentTime := 0\<rparr>)\<rparr>)"
    by (rule end_restarts_reachable)
  show "videoElDispatch EndedEv ok s = s" by (rule ended_unheard)
  show "videoIndex (videoElDispatch ev ok s) = videoIndex s" by simp
  show "videoIndex (videoReachesEnd ok s) = videoIndex s" by simp
  show "modelIndex (modelVideoElDispatch ev now ok s) = modelIndex s" by simp
next
  assume "videoIndex (tv_step e s) \<noteq> videoIndex s"
  then show "(\<exists>hit t p. e = PointerDown hit t p \<and> tvOn s \<and> \<not> videoOverlayOpen s
            \<and> (tvUiState s = MENU \<and> hit_mesh hit = OkButton
                 \<and> itemAt MENU_ITEMS (menuIndex s) = Some VIDEO
               \<or> tvUiState s = VIDEO
                 \<and> (hit_mesh hit = RightArrow \<or> hit_mesh hit = LeftArrow)))
        \<or> (\<exists>d. e = OverlayNextVideo d \<and> videoOverlayOpen s \<and> tvUiState s = VIDEO)"
    by (rule videoIndex_step)
next
  assume "modelIndex (tv_step e' s') \<noteq> modelIndex s'"
  then show "(\<exists>hit t p. e' = PointerDown hit t p \<and> tvOn s' \<and> \<not> modelOverlayOpen s'
            \<and> (tvUiState s' = MENU \<and> hit_mesh hit = OkButton
                 \<and> itemAt MENU_ITEMS (menuIndex s') = Some MODEL3D
               \<or> tvUiState s' = MODEL3D
                 \<and> (hit_mesh hit = RightArrow \<or> hit_mesh hit = LeftArrow)))
        \<or> (\<exists>d. e' = OverlayNextModel d \<and> modelOverlayOpen s' \<and> tvUiState s' = MODEL3D)"
    by (rule modelIndex_step)
qed

lemma demo_video_run:
  "tv_run [PointerDown (meshHit PowerButton) 1000 True, PointerDown (meshHit DownArrow) 2000 True,
           PointerDown (meshHit OkButton) 3000 True, VideoEvent (Loadeddata 1280 720) True]
     (tv_init 0) = demo_video"
  by (simp add: demo_video_def demo_menu_def)

lemma demo_video_next:
  "videoIndex (tv_step (PointerDown (meshHit RightArrow) 6000 True) demo_video) = 1"
  by (simp add: onPointerDown_def meshHit_def demo_video_facts nextVideo_def Let_def jsRem_def
      VIDEO_PATHS_def)

lemma demo_model_next:
  "modelIndex (tv_step (PointerDown (meshHit RightArrow) 6000 True) demo_model) = 1"
  by (simp add: onPointerDown_def meshHit_def demo_model_facts demo_model_flags nextModel_def
      Let_def jsRem_def MODEL_PATHS_def)

theorem video_no_auto_advance_witness:
  "tv_run [PointerDown (meshHit PowerButton) 1000 True, PointerDown (meshHit DownArrow) 2000 True,
           PointerDown (meshHit OkButton) 3000 True, VideoEvent (Loadeddata 1280 720) True]
     (tv_init 0) = demo_video
   \<and> videoLoops demo_video \<and> videoPlaying demo_video
   \<and> videoReachesEnd True demo_video
       = demo_video\<lparr>videoEl := Some \<lparr>el_src = Some ''./assets/Video/01-sweet93-OG.mp4'',
           el_paused = False, el_currentTime = 0, el_loop = True, el_videoWidth = 1280,
           el_videoHeight = 720\<rparr>\<rparr>
   \<and> videoIndex (videoReachesEnd True demo_video) = 0
   \<and> videoIndex demo_video = 0
   \<and> videoIndex (tv_step (PointerDown (meshHit RightArrow) 6000 True) demo_video) = 1
   \<and> tvOn demo_video \<and> tvUiState demo_video = VIDEO \<and> \<not> videoOverlayOpen demo_video
   \<and> hit_mesh (meshHit RightArrow) = RightArrow
   \<and> modelIndex demo_model = 0
   \<and> modelIndex (tv_step (PointerDown (meshHit RightArrow) 6000 True) demo_model) = 1
   \<and> tvOn demo_model \<and> tvUiState demo_model = MODEL3D \<and> \<not> modelOverlayOpen demo_model"
proof -
  let ?es = "[PointerDown (meshHit PowerButton) 1000 True, PointerDown (meshHit DownArrow) 2000 True,
           PointerDown (meshHit OkButton) 3000 True, VideoEvent (Loadeddata 1280 720) True]"
  let ?e = "PointerDown (meshHit RightArrow) 6000 True"
  note t = video_no_auto_advance[of ?es 0 True demo_video Canplay 0 ?e ?e demo_model]
  have v: "videoIndex (tv_step ?e demo_video) \<noteq> videoIndex demo_video"
    by (simp add: demo_video_next demo_video_facts del: tv_step.simps)
  have m: "modelIndex (tv_step ?e demo_model) \<noteq> modelIndex demo_model"
    by (simp add: demo_model_next demo_model_flags del: tv_step.simps)
  from t v have cv: "tvOn demo_video \<and> \<not> videoOverlayOpen demo_video \<and> tvUiState demo_video = VIDEO"
    by (auto simp: demo_video_facts)
  from t m have cm: "tvOn demo_model \<and> \<not> modelOverlayOpen demo_model \<and> tvUiState demo_model = MODEL3D"
    by (auto simp: demo_model_facts)
  from t have l: "videoLoops demo_video"
    and r: "videoReachesEnd True demo_video
       = (case videoEl demo_video of None \<Rightarrow> demo_video
          | Some el \<Rightarrow> demo_video\<lparr>videoEl := Some (el\<lparr>el_currentTime := 0\<rparr>)\<rparr>)"
    and i: "videoIndex (videoReachesEnd True demo_video) = videoIndex demo_video"
    unfolding demo_video_run by blast+
  have r': "videoReachesEnd True demo_video
       = demo_video\<lparr>videoEl := Some \<lparr>el_src = Some ''./assets/Video/01-sweet93-OG.mp4'',
           el_paused = False, el_currentTime = 0, el_loop = True, el_videoWidth = 1280,
           el_videoHeight = 720\<rparr>\<rparr>"
    unfolding r by (simp add: demo_video_facts)
  have hm: "hit_mesh (meshHit RightArrow) = RightArrow" by (simp add: meshHit_def)
  show ?thesis
    using cv cm l r' i hm demo_video_run demo_video_next demo_model_next
    by (simp add: demo_video_facts demo_model_flags del: tv_run.simps tv_step.simps)
qed

text \<open>
  The claim as first stated fails: with video 0 active and playing after the user's OK
  press, reaching the end of the file (or an \<^verbatim>\<open>ended\<close> event) leaves the index at 0,
  not at the next item 1.
\<close>

theorem video_auto_advance_counterexample:
  "tvOn demo_video \<and> tvUiState demo_video = VIDEO \<and> videoPlaying demo_video
   \<and> videoIndex demo_video = 0
   \<and> jsRem (videoIndex demo_video + 1 + int (length VIDEO_PATHS)) (int (length VIDEO_PATHS)) = 1
   \<and> videoIndex (videoReachesEnd True demo_video) = 0
   \<and> videoIndex (videoElDispatch EndedEv True demo_video) = 0
   \<and> videoElDispatch EndedEv True demo_video = demo_video"
  by (simp add: demo_video_facts jsRem_def VIDEO_PATHS_def videoElDispatch_def)

section \<open>Overlapping photo loads\<close>

lemma photoDone_keeps:
  "photoIndex (photoRequestDone k outcome s) = photoIndex s"
  "currentPhotoUrl (photoRequestDone k outcome s) = currentPhotoUrl s"
  by (simp_all add: photoRequestDone_def photo_onLoad_def photo_onError_def drawPhotoToTv_def
      Let_def split: option.splits prod.splits)

lemma photoDone_run_keeps:
  assumes "list_all isPhotoDone cbs"
  shows "photoIndex (tv_run cbs s) = photoIndex s \<and> currentPhotoUrl (tv_run cbs s) = currentPhotoUrl s"
  using assms
proof (induction cbs arbitrary: s)
  case Nil
  then show ?case by simp
next
  case (Cons e cbs)
  then obtain k outcome where e: "e = PhotoDone k outcome" by (cases e) simp_all
  show ?case using Cons by (simp add: e photoDone_keeps)
qed

lemma photoDone_installs:
  assumes "k < length (photoRequests s)"
  shows "photoImage (photoRequestDone k (Some (iw, ih)) s)
           = Some \<lparr>img_src = photoRequests s ! k, img_width = iw, img_height = ih\<rparr>"
    and "photoRequests (photoRequestDone k (Some (iw, ih)) s)
           = take k (photoRequests s) @ drop (Suc k) (photoRequests s)"
    and "\<not> photoLoading (photoRequestDone k (Some (iw, ih)) s)"
  using assms
  by (simp_all add: photoRequestDone_def photo_onLoad_def drawPhotoToTv_def Let_def)

lemma two_loads:
  assumes "tvOn s" and "tvUiState s = PHOTO"
  shows "photoIndex (loadPhotoAt 1 (loadPhotoAt 0 s)) = 1"
    and "currentPhotoUrl (loadPhotoAt 1 (loadPhotoAt 0 s)) = itemAt PHOTO_PATHS 1"
    and "photoRequests (loadPhotoAt 1 (loadPhotoAt 0 s))
           = photoRequests s @ [itemAt PHOTO_PATHS 0, itemAt PHOTO_PATHS 1]"
    and "photoLoading (loadPhotoAt 1 (loadPhotoAt 0 s))"
    and "tvOn (loadPhotoAt 1 (loadPhotoAt 0 s))"
    and "tvUiState (loadPhotoAt 1 (loadPhotoAt 0 s)) = PHOTO"
  using assms by (simp_all add: loadPhotoAt_def Let_def jsRem_def PHOTO_PATHS_def)

lemma nextPhoto_gate: "photoLoading s \<Longrightarrow> nextPhoto d s = s"
  by (simp add: nextPhoto_def)

lemma paths01:
  "itemAt PHOTO_PATHS 0 = Some ''./assets/Photo/01-sweet.jpg''"
  "itemAt PHOTO_PATHS 1 = Some ''./assets/Photo/02-carti.jpg''"
  by (simp_all add: itemAt_def PHOTO_PATHS_def)

lemma two_loads_stale:
  "photoRequests demo_two_loads
     = [Some ''./assets/Photo/01-sweet.jpg'', Some ''./assets/Photo/02-carti.jpg'']
   \<and> photoIndex demo_two_loads = 1
   \<and> photoIndex (photoRequestDone 0 (Some (800, 600))
                   (photoRequestDone 1 (Some (1024, 768)) demo_two_loads)) = 1
   \<and> currentPhotoUrl (photoRequestDone 0 (Some (800, 600))
                   (photoRequestDone 1 (Some (1024, 768)) demo_two_loads))
       = Some ''./assets/Photo/02-carti.jpg''
   \<and> photoImage (photoRequestDone 0 (Some (800, 600))
                   (photoRequestDone 1 (Some (1024, 768)) demo_two_loads))
       = Some \<lparr>img_src = Some ''./assets/Photo/01-sweet.jpg'', img_width = 800, img_height = 600\<rparr>
   \<and> tvCanvas (photoRequestDone 0 (Some (800, 600))
                   (photoRequestDone 1 (Some (1024, 768)) demo_two_loads))
       = [FillAll ''#000'',
          DrawImage (ImageSrc \<lparr>img_src = Some ''./assets/Photo/01-sweet.jpg'', img_width = 800,
                               img_height = 600\<rparr>) (- 19.2) (- 194.4) 1958.4 1468.8,
          MenuButton False]"
proof -
  have p: "tvOn demo_photo" "tvUiState demo_photo = PHOTO" "photoRequests demo_photo = []"
    by (simp_all add: demo_photo_facts)
  have mh: "\<not> menuHover demo_photo"
    by (simp add: demo_photo_def demo_menu_facts onPointerDown_def meshHit_def
      confirmMenuSelection_def MENU_ITEMS_def itemAt_def loadPhotoAt_def
      photoRequestDone_def photo_onLoad_def drawPhotoToTv_def Let_def
      demo_menu_def setTvPower_def applyTvTextureEnabled_def drawTvMenu_def tv_init_def)
  have f: "tvOn demo_two_loads" "tvUiState demo_two_loads = PHOTO"
    "photoRequests demo_two_loads
     = [Some ''./assets/Photo/01-sweet.jpg'', Some ''./assets/Photo/02-carti.jpg'']"
    "photoIndex demo_two_loads = 1"
    "currentPhotoUrl demo_two_loads = Some ''./assets/Photo/02-carti.jpg''"
    unfolding demo_two_loads_def
    using two_loads[OF p(1,2)] p(3) by (simp_all add: paths01)
  have g: "\<not> menuHover demo_two_loads"
    unfolding demo_two_loads_def using mh p by (simp add: loadPhotoAt_def Let_def)
  show ?thesis
    using f g
    by (simp add: photoRequestDone_def photo_onLoad_def drawPhotoToTv_def drawImageOp_def
        photoCover_def canvasW_def canvasH_def Let_def)
qed

lemma step_confirm_photo:
  assumes "tvOn s" "tvUiState s = MENU" "menuIndex s = 0"
    "\<not> overlayOpen s" "\<not> videoOverlayOpen s" "\<not> modelOverlayOpen s"
  shows "onPointerDown (meshHit OkButton) now ok s
           = loadPhotoAt 0 (s\<lparr>tvUiState := PHOTO, photoImage := None, photoLoading := False\<rparr>)"
  using assms
  by (simp add: onPointerDown_def meshHit_def confirmMenuSelection_def MENU_ITEMS_def itemAt_def
      Let_def)

lemma step_menu_button:
  assumes "tvOn s" "tvUiState s = PHOTO"
    "\<not> overlayOpen s" "\<not> videoOverlayOpen s" "\<not> modelOverlayOpen s"
    "tvScreenMeshRef s = Some m"
    "tvTex s = \<lparr>tex_repeat = Some (1, 1), tex_offset = Some (0, 0)\<rparr>"
  shows "onPointerDown (screenHit 0.95 0.05) now ok s
           = drawTvMenu now (s\<lparr>tvUiState := MENU, blinkT0 := now\<rparr>)"
  using assms click_095_005
  by (simp add: onPointerDown_def screenHit_def screenClickPhoto_def Let_def)

lemma step_right_arrow:
  assumes "tvOn s" "tvUiState s = PHOTO"
    "\<not> overlayOpen s" "\<not> videoOverlayOpen s" "\<not> modelOverlayOpen s"
  shows "onPointerDown (meshHit RightArrow) now ok s = nextPhoto 1 s"
  using assms by (simp add: onPointerDown_def meshHit_def Let_def)

lemma frame_photoRequestDone:
  "tvOn (photoRequestDone k outcome s) = tvOn s"
  "tvUiState (photoRequestDone k outcome s) = tvUiState s"
  "menuIndex (photoRequestDone k outcome s) = menuIndex s"
  "overlayOpen (photoRequestDone k outcome s) = overlayOpen s"
  "videoOverlayOpen (photoRequestDone k outcome s) = videoOverlayOpen s"
  "modelOverlayOpen (photoRequestDone k outcome s) = modelOverlayOpen s"
  "tvScreenMeshRef (photoRequestDone k outcome s) = tvScreenMeshRef s"
  "tvTex (photoRequestDone k outcome s) = tvTex s"
  "menuHover (photoRequestDone k outcome s) = menuHover s"
  by (simp_all add: photoRequestDone_def photo_onLoad_def photo_onError_def drawPhotoToTv_def Let_def
      split: option.splits prod.splits)

lemma frame_loadPhotoAt:
  "tvOn (loadPhotoAt i s) = tvOn s"
  "tvUiState (loadPhotoAt i s) = tvUiState s"
  "menuIndex (loadPhotoAt i s) = menuIndex s"
  "overlayOpen (loadPhotoAt i s) = overlayOpen s"
  "videoOverlayOpen (loadPhotoAt i s) = videoOverlayOpen s"
  "modelOverlayOpen (loadPhotoAt i s) = modelOverlayOpen s"
  "tvScreenMeshRef (loadPhotoAt i s) = tvScreenMeshRef s"
  "tvTex (loadPhotoAt i s) = tvTex s"
  "menuHover (loadPhotoAt i s) = menuHover s"
  "photoImage (loadPhotoAt i s) = photoImage s"
  by (simp_all add: loadPhotoAt_def Let_def)

lemma frame_nextPhoto:
  "tvOn (nextPhoto d s) = tvOn s"
  "tvUiState (nextPhoto d s) = tvUiState s"
  "menuIndex (nextPhoto d s) = menuIndex s"
  "overlayOpen (nextPhoto d s) = overlayOpen s"
  "videoOverlayOpen (nextPhoto d s) = videoOverlayOpen s"
  "modelOverlayOpen (nextPhoto d s) = modelOverlayOpen s"
  "tvScreenMeshRef (nextPhoto d s) = tvScreenMeshRef s"
  "tvTex (nextPhoto d s) = tvTex s"
  "menuHover (nextPhoto d s) = menuHover s"
  "photoImage (nextPhoto d s) = photoImage s"
  by (simp_all add: nextPhoto_def frame_loadPhotoAt)

lemma photo_drawTvMenu:
  "photoRequests (drawTvMenu now s) = photoRequests s"
  "photoLoading (drawTvMenu now s) = photoLoading s"
  "photoIndex (drawTvMenu now s) = photoIndex s"
  "currentPhotoUrl (drawTvMenu now s) = currentPhotoUrl s"
  "photoImage (drawTvMenu now s) = photoImage s"
  "tvOn (drawTvMenu now s) = tvOn s" "tvUiState (drawTvMenu now s) = tvUiState s"
  "menuIndex (drawTvMenu now s) = menuIndex s" "overlayOpen (drawTvMenu now s) = overlayOpen s"
  "videoOverlayOpen (drawTvMenu now s) = videoOverlayOpen s"
  "modelOverlayOpen (drawTvMenu now s) = modelOverlayOpen s"
  "tvScreenMeshRef (drawTvMenu now s) = tvScreenMeshRef s" "tvTex (drawTvMenu now s) = tvTex s"
  "menuHover (drawTvMenu now s) = menuHover s"
  by (simp_all add: drawTvMenu_def)

lemma loadPhotoAt_issues:
  assumes "tvOn s" "tvUiState s = PHOTO"
  shows "photoRequests (loadPhotoAt i s)
           = photoRequests s
             @ [itemAt PHOTO_PATHS (jsRem (i + int (length PHOTO_PATHS)) (int (length PHOTO_PATHS)))]"
    "photoIndex (loadPhotoAt i s) = jsRem (i + int (length PHOTO_PATHS)) (int (length PHOTO_PATHS))"
    "currentPhotoUrl (loadPhotoAt i s)
       = itemAt PHOTO_PATHS (jsRem (i + int (length PHOTO_PATHS)) (int (length PHOTO_PATHS)))"
    "photoLoading (loadPhotoAt i s)"
  using assms by (simp_all add: loadPhotoAt_def Let_def)

lemma nextPhoto_issues:
  assumes "tvOn s" "tvUiState s = PHOTO" "\<not> photoLoading s"
  shows "nextPhoto d s = loadPhotoAt (photoIndex s + d) s"
  using assms by (simp add: nextPhoto_def)

lemma photoDone_canvas:
  assumes "k < length (photoRequests s)" "tvOn s" "tvUiState s = PHOTO"
  shows "tvCanvas (photoRequestDone k (Some (800, 600)) s)
           = [FillAll ''#000'',
              DrawImage (ImageSrc \<lparr>img_src = photoRequests s ! k, img_width = 800,
                                   img_height = 600\<rparr>) (- 19.2) (- 194.4) 1958.4 1468.8,
              MenuButton (menuHover s)]"
  using assms
  by (simp add: photoRequestDone_def photo_onLoad_def drawPhotoToTv_def drawImageOp_def
      photoCover_def canvasW_def canvasH_def Let_def)

lemma idx_photo_paths:
  "jsRem (int (length PHOTO_PATHS)) (int (length PHOTO_PATHS)) = 0"
  "jsRem (1 + int (length PHOTO_PATHS)) (int (length PHOTO_PATHS)) = 1"
  by (simp_all add: jsRem_def PHOTO_PATHS_def)

lemma frame_updateTv:
  "tvOn (updateTv now rnd s) = tvOn s" "tvUiState (updateTv now rnd s) = tvUiState s"
  "menuHover (updateTv now rnd s) = menuHover s" "tvCanvas (updateTv now rnd s) = tvCanvas s"
  "photoImage (updateTv now rnd s) = photoImage s" "photoIndex (updateTv now rnd s) = photoIndex s"
  "currentPhotoUrl (updateTv now rnd s) = currentPhotoUrl s"
  "photoLoading (updateTv now rnd s) = photoLoading s"
  by (simp_all add: updateTv_def Let_def split: option.splits)

lemma redraw_keeps_photo:
  assumes "tvOn s" and "tvUiState s = PHOTO" and "photoImage s = Some img"
    and "tvCanvas s = tvCanvas (drawPhotoToTv img s)"
  shows "tvCanvas (tv_step (Frame now rnd due) s) = tvCanvas s"
    and "photoImage (tv_step (Frame now rnd due) s) = Some img"
    and "photoIndex (tv_step (Frame now rnd due) s) = photoIndex s"
    and "currentPhotoUrl (tv_step (Frame now rnd due) s) = currentPhotoUrl s"
  using assms
  by (simp_all add: Let_def tvRedraw_def frame_updateTv drawPhotoToTv_def)

lemma menuHover_demo_menu: "\<not> menuHover demo_menu"
  by (simp add: demo_menu_def onPointerDown_def meshHit_def tv_init_def setTvPower_def
      applyTvTextureEnabled_def drawTvMenu_def Let_def)

lemma stale_session_states:
  "photoIndex (tv_run (take 7 stale_session) (tv_init 0)) = 1"
  "photoImage (tv_run (take 7 stale_session) (tv_init 0))
     = Some \<lparr>img_src = Some ''./assets/Photo/02-carti.jpg'', img_width = 1024, img_height = 768\<rparr>"
  "photoRequests (tv_run (take 7 stale_session) (tv_init 0)) = [Some ''./assets/Photo/01-sweet.jpg'']"
  "photoIndex demo_stale = 1"
  "currentPhotoUrl demo_stale = Some ''./assets/Photo/02-carti.jpg''"
  "photoImage demo_stale
     = Some \<lparr>img_src = Some ''./assets/Photo/01-sweet.jpg'', img_width = 800, img_height = 600\<rparr>"
  "tvCanvas demo_stale
     = [FillAll ''#000'',
        DrawImage (ImageSrc \<lparr>img_src = Some ''./assets/Photo/01-sweet.jpg'', img_width = 800,
                             img_height = 600\<rparr>) (- 19.2) (- 194.4) 1958.4 1468.8,
        MenuButton False]"
  "photoRequests demo_stale = []"
  "tvOn demo_stale" "tvUiState demo_stale = PHOTO" "\<not> menuHover demo_stale"
proof -
  let ?a = "onPointerDown (meshHit OkButton) 2000 True demo_menu"
  let ?b = "onPointerDown (screenHit 0.95 0.05) 3000 True ?a"
  let ?c = "onPointerDown (meshHit OkButton) 4000 True ?b"
  let ?d = "photoRequestDone 0 (Some (800, 600)) ?c"
  let ?e = "onPointerDown (meshHit RightArrow) 5000 True ?d"
  let ?f = "photoRequestDone 1 (Some (1024, 768)) ?e"
  let ?g = "photoRequestDone 0 (Some (800, 600)) ?f"
  note m = demo_menu_facts menuHover_demo_menu
  have ea: "?a = loadPhotoAt 0 (demo_menu\<lparr>tvUiState := PHOTO, photoImage := None,
                                            photoLoading := False\<rparr>)"
    by (rule step_confirm_photo) (simp_all add: m)
  have a: "tvOn ?a" "tvUiState ?a = PHOTO" "menuIndex ?a = 0" "\<not> overlayOpen ?a"
    "\<not> videoOverlayOpen ?a" "\<not> modelOverlayOpen ?a" "tvScreenMeshRef ?a = Some 1"
    "tvTex ?a = \<lparr>tex_repeat = Some (1, 1), tex_offset = Some (0, 0)\<rparr>" "\<not> menuHover ?a"
    "photoRequests ?a = [Some ''./assets/Photo/01-sweet.jpg'']"
    unfolding ea by (simp_all add: frame_loadPhotoAt loadPhotoAt_issues idx_photo_paths paths01 m)
  have eb: "?b = drawTvMenu 3000 (?a\<lparr>tvUiState := MENU, blinkT0 := 3000\<rparr>)"
    by (rule step_menu_button) (rule a)+
  have b: "tvOn ?b" "tvUiState ?b = MENU" "menuIndex ?b = 0" "\<not> overlayOpen ?b"
    "\<not> videoOverlayOpen ?b" "\<not> modelOverlayOpen ?b" "tvScreenMeshRef ?b = Some 1"
    "tvTex ?b = \<lparr>tex_repeat = Some (1, 1), tex_offset = Some (0, 0)\<rparr>" "\<not> menuHover ?b"
    "photoRequests ?b = [Some ''./assets/Photo/01-sweet.jpg'']"
    unfolding eb using a by (simp_all add: photo_drawTvMenu)
  have ec: "?c = loadPhotoAt 0 (?b\<lparr>tvUiState := PHOTO, photoImage := None,
                                       photoLoading := False\<rparr>)"
    by (rule step_confirm_photo) (rule b)+
  have c: "tvOn ?c" "tvUiState ?c = PHOTO" "menuIndex ?c = 0" "\<not> overlayOpen ?c"
    "\<not> videoOverlayOpen ?c" "\<not> modelOverlayOpen ?c" "tvScreenMeshRef ?c = Some 1"
    "tvTex ?c = \<lparr>tex_repeat = Some (1, 1), tex_offset = Some (0, 0)\<rparr>" "\<not> menuHover ?c"
    "photoRequests ?c = [Some ''./assets/Photo/01-sweet.jpg'', Some ''./assets/Photo/01-sweet.jpg'']"
    "photoIndex ?c = 0" "photoLoading ?c"
    unfolding ec using b
    by (simp_all add: frame_loadPhotoAt loadPhotoAt_issues idx_photo_paths paths01)
  have d: "tvOn ?d" "tvUiState ?d = PHOTO" "menuIndex ?d = 0" "\<not> overlayOpen ?d"
    "\<not> videoOverlayOpen ?d" "\<not> modelOverlayOpen ?d" "tvScreenMeshRef ?d = Some 1"
    "tvTex ?d = \<lparr>tex_repeat = Some (1, 1), tex_offset = Some (0, 0)\<rparr>" "\<not> menuHover ?d"
    "photoRequests ?d = [Some ''./assets/Photo/01-sweet.jpg'']"
    "photoIndex ?d = 0" "\<not> photoLoading ?d"
    using c by (simp_all add: frame_photoRequestDone photoDone_installs photoDone_keeps)
  have ee: "?e = loadPhotoAt 1 ?d"
  proof -
    have "?e = nextPhoto 1 ?d" by (rule step_right_arrow) (rule d)+
    also have "\<dots> = loadPhotoAt (photoIndex ?d + 1) ?d" by (rule nextPhoto_issues) (rule d)+
    also have "\<dots> = loadPhotoAt 1 ?d" unfolding d(11) by simp
    finally show ?thesis .
  qed
  have e: "tvOn ?e" "tvUiState ?e = PHOTO" "\<not> menuHover ?e"
    "photoRequests ?e = [Some ''./assets/Photo/01-sweet.jpg'', Some ''./assets/Photo/02-carti.jpg'']"
    "photoIndex ?e = 1" "currentPhotoUrl ?e = Some ''./assets/Photo/02-carti.jpg''"
    unfolding ee using d
    by (simp_all add: frame_loadPhotoAt loadPhotoAt_issues idx_photo_paths paths01)
  have f: "tvOn ?f" "tvUiState ?f = PHOTO" "\<not> menuHover ?f"
    "photoRequests ?f = [Some ''./assets/Photo/01-sweet.jpg'']"
    "photoIndex ?f = 1" "currentPhotoUrl ?f = Some ''./assets/Photo/02-carti.jpg''"
    "photoImage ?f = Some \<lparr>img_src = Some ''./assets/Photo/02-carti.jpg'', img_width = 1024,
                             img_height = 768\<rparr>"
    using e by (simp_all add: frame_photoRequestDone photoDone_installs photoDone_keeps)
  have g': "tvOn ?g" "tvUiState ?g = PHOTO" "\<not> menuHover ?g"
    using f by (simp_all add: frame_photoRequestDone)
  have g: "photoRequests ?g = []"
    "photoIndex ?g = 1" "currentPhotoUrl ?g = Some ''./assets/Photo/02-carti.jpg''"
    "photoImage ?g = Some \<lparr>img_src = Some ''./assets/Photo/01-sweet.jpg'', img_width = 800,
                             img_height = 600\<rparr>"
    using f by (simp_all add: photoDone_installs photoDone_keeps)
  have gc: "tvCanvas ?g = [FillAll ''#000'',
        DrawImage (ImageSrc \<lparr>img_src = Some ''./assets/Photo/01-sweet.jpg'', img_width = 800,
                             img_height = 600\<rparr>) (- 19.2) (- 194.4) 1958.4 1468.8,
        MenuButton False]"
    using photoDone_canvas[of 0 ?f] f by simp
  have r7: "tv_run (take 7 stale_session) (tv_init 0) = ?f"
    by (simp add: stale_session_def demo_menu_def)
  have r8: "demo_stale = ?g"
    by (simp add: demo_stale_def stale_session_def demo_menu_def)
  show "photoIndex (tv_run (take 7 stale_session) (tv_init 0)) = 1"
    "photoImage (tv_run (take 7 stale_session) (tv_init 0))
     = Some \<lparr>img_src = Some ''./assets/Photo/02-carti.jpg'', img_width = 1024, img_height = 768\<rparr>"
    "photoRequests (tv_run (take 7 stale_session) (tv_init 0)) = [Some ''./assets/Photo/01-sweet.jpg'']"
    unfolding r7 by (rule f)+
  show "photoIndex demo_stale = 1"
    "currentPhotoUrl demo_stale = Some ''./assets/Photo/02-carti.jpg''"
    "photoImage demo_stale
     = Some \<lparr>img_src = Some ''./assets/Photo/01-sweet.jpg'', img_width = 800, img_height = 600\<rparr>"
    unfolding r8 by (rule g)+
  show "tvCanvas demo_stale
     = [FillAll ''#000'',
        DrawImage (ImageSrc \<lparr>img_src = Some ''./assets/Photo/01-sweet.jpg'', img_width = 800,
                             img_height = 600\<rparr>) (- 19.2) (- 194.4) 1958.4 1468.8,
        MenuButton False]"
    unfolding r8 by (rule gc)
  show "photoRequests demo_stale = []" unfolding r8 by (rule g)
  show "tvOn demo_stale" "tvUiState demo_stale = PHOTO" "\<not> menuHover demo_stale"
    unfolding r8 by (rule g')+
qed

lemma stale_persists:
  "photoIndex (tv_step (Frame 6000 rnd True) demo_stale) = 1"
  "currentPhotoUrl (tv_step (Frame 6000 rnd True) demo_stale) = Some ''./assets/Photo/02-carti.jpg''"
  "photoImage (tv_step (Frame 6000 rnd True) demo_stale)
     = Some \<lparr>img_src = Some ''./assets/Photo/01-sweet.jpg'', img_width = 800, img_height = 600\<rparr>"
  "tvCanvas (tv_step (Frame 6000 rnd True) demo_stale) = tvCanvas demo_stale"
proof -
  let ?img = "\<lparr>img_src = Some ''./assets/Photo/01-sweet.jpg'', img_width = 800, img_height = 600\<rparr>"
  note st = stale_session_states
  have c: "tvCanvas demo_stale = tvCanvas (drawPhotoToTv ?img demo_stale)"
    unfolding st(7)
    by (simp add: drawPhotoToTv_def drawImageOp_def photoCover_def canvasW_def canvasH_def
        Let_def st(9,10,11))
  note k = redraw_keeps_photo[OF st(9) st(10) st(6) c, of 6000 rnd True]
  show "photoIndex (tv_step (Frame 6000 rnd True) demo_stale) = 1"
    unfolding k(3) by (rule st(4))
  show "currentPhotoUrl (tv_step (Frame 6000 rnd True) demo_stale)
          = Some ''./assets/Photo/02-carti.jpg''"
    unfolding k(4) by (rule st(5))
  show "photoImage (tv_step (Frame 6000 rnd True) demo_stale) = Some ?img" by (rule k(2))
  show "tvCanvas (tv_step (Frame 6000 rnd True) demo_stale) = tvCanvas demo_stale" by (rule k(1))
qed

text \<open>
  Claim C1. The code does not meet it. The load callbacks carry no staleness check: each
  completed load installs and draws its own image. After \<^verbatim>\<open>loadPhotoAt(0)\<close> and
  \<^verbatim>\<open>loadPhotoAt(1)\<close> issued back to back and answered in the opposite order,
  \<^verbatim>\<open>photoIndex\<close> is 1 and the image installed is that of index 0. The situation is
  reachable from the remote. \<^verbatim>\<open>nextPhoto\<close> ignores the arrows while a load is
  outstanding, but confirming PHOTO in the menu clears \<^verbatim>\<open>photoLoading\<close> over a pending
  request: in \<open>stale_session\<close> two requests are outstanding after the right arrow, and
  once the request for photo 0 is answered last, \<^verbatim>\<open>photoIndex\<close> and \<^verbatim>\<open>currentPhotoUrl\<close>
  are those of photo 1 while the image installed and drawn is photo 0. One event
  earlier the image shown was photo 1.
\<close>

theorem stale_photo_overwrite:
  "photoRequests demo_two_loads
     = [Some ''./assets/Photo/01-sweet.jpg'', Some ''./assets/Photo/02-carti.jpg'']
   \<and> photoIndex demo_two_loads = 1
   \<and> photoIndex (photoRequestDone 0 (Some (800, 600))
                   (photoRequestDone 1 (Some (1024, 768)) demo_two_loads)) = 1
   \<and> photoImage (photoRequestDone 0 (Some (800, 600))
                   (photoRequestDone 1 (Some (1024, 768)) demo_two_loads))
       = Some \<lparr>img_src = Some ''./assets/Photo/01-sweet.jpg'', img_width = 800, img_height = 600\<rparr>
   \<and> photoIndex (tv_run (take 7 stale_session) (tv_init 0)) = 1
   \<and> photoImage (tv_run (take 7 stale_session) (tv_init 0))
       = Some \<lparr>img_src = Some ''./assets/Photo/02-carti.jpg'', img_width = 1024,
               img_height = 768\<rparr>
   \<and> photoRequests (tv_run (take 7 stale_session) (tv_init 0))
       = [Some ''./assets/Photo/01-sweet.jpg'']
   \<and> demo_stale = tv_run stale_session (tv_init 0)
   \<and> photoIndex demo_stale = 1
   \<and> currentPhotoUrl demo_stale = Some ''./assets/Photo/02-carti.jpg''
   \<and> photoImage demo_stale
       = Some \<lparr>img_src = Some ''./assets/Photo/01-sweet.jpg'', img_width = 800, img_height = 600\<rparr>
   \<and> tvCanvas demo_stale
       = [FillAll ''#000'',
          DrawImage (ImageSrc \<lparr>img_src = Some ''./assets/Photo/01-sweet.jpg'', img_width = 800,
                               img_height = 600\<rparr>) (- 19.2) (- 194.4) 1958.4 1468.8,
          MenuButton False]
   \<and> photoIndex (tv_step (Frame 6000 0.5 True) demo_stale) = 1
   \<and> photoImage (tv_step (Frame 6000 0.5 True) demo_stale)
       = Some \<lparr>img_src = Some ''./assets/Photo/01-sweet.jpg'', img_width = 800, img_height = 600\<rparr>
   \<and> tvCanvas (tv_step (Frame 6000 0.5 True) demo_stale) = tvCanvas demo_stale"
  using two_loads_stale stale_session_states stale_persists[of "0.5"]
  by (simp only: demo_stale_def [symmetric] simp_thms)

section \<open>Hover glow: the cutoff\<close>

lemma sgt_mat [simp]: "meshMat (setGlowTarget m on c now g) = meshMat g"
  by (simp add: setGlowTarget_def ensureGlowState_def Let_def split: option.splits)

lemma sgt_other [simp]:
  "m \<noteq> b \<Longrightarrow> glowState (setGlowTarget m on c now g) b = glowState g b"
  by (simp add: setGlowTarget_def ensureGlowState_def Let_def split: option.splits)

lemma sgt_off:
  assumes "meshMat g b \<noteq> None"
  shows "glowIdle (setGlowTarget b False c now g) b"
  using assms
  by (auto simp: glowIdle_def setGlowTarget_def ensureGlowState_def Let_def split: option.splits)

lemma sgt_on_idle:
  assumes "glowIdle g b" and "0 < now"
  shows "glowLive now (setGlowTarget b True c now g) b"
  using assms
  by (auto simp: glowIdle_def glowLive_def setGlowTarget_def ensureGlowState_def Let_def
      MAX_GLOW_HOVER_MS_def split: option.splits)

lemma sgt_on_live:
  assumes "glowLive t0 g b" and "t0 \<noteq> 0"
  shows "if now - t0 \<ge> 2000 then glowCut t0 (setGlowTarget b True c now g) b
         else glowLive t0 (setGlowTarget b True c now g) b"
  using assms
  by (auto simp: glowCut_def glowLive_def setGlowTarget_def ensureGlowState_def Let_def
      MAX_GLOW_HOVER_MS_def split: option.splits)

lemma sgt_on_cut:
  assumes "glowCut t0 g b" and "t0 \<noteq> 0"
  shows "glowCut t0 (setGlowTarget b True c now g) b"
  using assms
  by (auto simp: glowCut_def setGlowTarget_def ensureGlowState_def Let_def
      MAX_GLOW_HOVER_MS_def split: option.splits)

lemma frame_live:
  assumes "glowLive t0 g b" and "t0 \<noteq> 0"
  shows "if now - t0 \<ge> 2000 then glowCut t0 (updateGlow now g) b
         else glowLive t0 (updateGlow now g) b"
  using assms
  by (auto simp: glowCut_def glowLive_def updateGlow_def glowCutoff_def glowLerp_def Let_def
      MAX_GLOW_HOVER_MS_def split: option.splits)

lemma frame_cut:
  assumes "glowCut t0 g b"
  shows "glowCut t0 (updateGlow now g) b"
  using assms
  by (auto simp: glowCut_def updateGlow_def glowCutoff_def glowLerp_def Let_def
      split: option.splits)

text \<open>Situations of one button are untouched by calls for another button.\<close>

lemma other_keeps:
  assumes "m \<noteq> b"
  shows "glowIdle (setGlowTarget m on c now g) b = glowIdle g b"
    and "glowLive t0 (setGlowTarget m on c now g) b = glowLive t0 g b"
    and "glowCut t0 (setGlowTarget m on c now g) b = glowCut t0 g b"
  using assms by (simp_all add: glowIdle_def glowLive_def glowCut_def)

lemma mat_keeps:
  "meshMat (clearAllButtonGlows now g) = meshMat g"
  "meshMat (pointerMoveGlow hit on now g) = meshMat g"
  by (simp_all add: clearAllButtonGlows_def pointerMoveGlow_def split: option.splits)

lemma move_hover_idle:
  assumes "glowIdle g b" and "isButton b" and "tvIsOn \<or> b = PowerButton" and "0 < now"
  shows "glowLive now (pointerMoveGlow (Some b) tvIsOn now g) b"
  using assms unfolding isButton_def pointerMoveGlow_def
  by (elim disjE) (simp_all add: other_keeps sgt_on_idle)

lemma sgt_on_live_cut:
  "glowLive t0 g b \<Longrightarrow> t0 \<noteq> 0 \<Longrightarrow> 2000 \<le> now - t0 \<Longrightarrow>
     glowCut t0 (setGlowTarget b True c now g) b"
  using sgt_on_live[of t0 g b now c] by presburger

lemma sgt_on_live_live:
  "glowLive t0 g b \<Longrightarrow> t0 \<noteq> 0 \<Longrightarrow> \<not> 2000 \<le> now - t0 \<Longrightarrow>
     glowLive t0 (setGlowTarget b True c now g) b"
  using sgt_on_live[of t0 g b now c] by presburger

lemma move_hover_live:
  assumes "glowLive t0 g b" and "t0 \<noteq> 0" and "isButton b" and "tvIsOn \<or> b = PowerButton"
  shows "if now - t0 \<ge> 2000 then glowCut t0 (pointerMoveGlow (Some b) tvIsOn now g) b
         else glowLive t0 (pointerMoveGlow (Some b) tvIsOn now g) b"
  using assms unfolding isButton_def pointerMoveGlow_def
  by (elim disjE) (simp_all add: other_keeps sgt_on_live_cut sgt_on_live_live)

lemma move_hover_cut:
  assumes "glowCut t0 g b" and "t0 \<noteq> 0" and "isButton b" and "tvIsOn \<or> b = PowerButton"
  shows "glowCut t0 (pointerMoveGlow (Some b) tvIsOn now g) b"
  using assms unfolding isButton_def pointerMoveGlow_def
  by (elim disjE) (simp_all add: other_keeps sgt_on_cut)

lemma clear_idle:
  assumes "meshMat g b \<noteq> None" and "isButton b"
  shows "glowIdle (clearAllButtonGlows now g) b"
  using assms unfolding isButton_def clearAllButtonGlows_def
  by (elim disjE) (simp_all add: other_keeps sgt_off)

lemma move_away_idle:
  assumes "meshMat g b \<noteq> None" and "isButton b" and "\<not> (hit = Some b \<and> (tvIsOn \<or> b = PowerButton))"
  shows "glowIdle (pointerMoveGlow hit tvIsOn now g) b"
proof (cases hit)
  case None
  then show ?thesis using assms clear_idle by (simp add: pointerMoveGlow_def)
next
  case (Some m)
  show ?thesis
    using assms Some unfolding isButton_def pointerMoveGlow_def
    by (elim disjE) (auto simp: other_keeps sgt_off)
qed

lemma live_mat: "glowLive t0 g b \<Longrightarrow> meshMat g b \<noteq> None"
  and cut_mat: "glowCut t0 g b \<Longrightarrow> meshMat g b \<noteq> None"
  and idle_mat: "glowIdle g b \<Longrightarrow> meshMat g b \<noteq> None"
  by (simp_all add: glowLive_def glowCut_def glowIdle_def)

lemma step_live:
  assumes "glowLive t0 g b" and "t0 \<noteq> 0" and "isButton b" and "hoverOn b e"
  shows "if eventTime e - t0 \<ge> 2000 then glowCut t0 (glow_step e g) b
         else glowLive t0 (glow_step e g) b"
proof (cases e)
  case (PointerMove hit tvIsOn now)
  then show ?thesis using assms move_hover_live[of t0 g b tvIsOn now] by simp
next
  case (PointerLeave now)
  then show ?thesis using assms by simp
next
  case (GlowFrame now)
  then show ?thesis using frame_live[OF assms(1,2), of now] by simp
qed

lemma step_cut:
  assumes "glowCut t0 g b" and "t0 \<noteq> 0" and "isButton b" and "hoverOn b e"
  shows "glowCut t0 (glow_step e g) b"
proof (cases e)
  case (PointerMove hit tvIsOn now)
  then show ?thesis using assms move_hover_cut[of t0 g b tvIsOn now] by simp
next
  case (PointerLeave now)
  then show ?thesis using assms by simp
next
  case (GlowFrame now)
  then show ?thesis using frame_cut[OF assms(1), of now] by simp
qed

lemma step_end:
  assumes "meshMat g b \<noteq> None" and "isButton b" and "\<not> hoverOn b e" 
  shows "glowIdle (glow_step e g) b"
proof (cases e)
  case (PointerMove hit tvIsOn now)
  then show ?thesis using assms move_away_idle[of g b hit tvIsOn now] by simp
next
  case (PointerLeave now)
  then show ?thesis using assms clear_idle by simp
next
  case (GlowFrame now)
  then show ?thesis using assms by simp
qed

lemma run_append: "glow_run (es @ fs) g = glow_run fs (glow_run es g)"
  by (induction es arbitrary: g) simp_all

lemma run_cut:
  assumes "glowCut t0 g b" and "t0 \<noteq> 0" and "isButton b" and "list_all (hoverOn b) es"
  shows "glowCut t0 (glow_run es g) b"
  using assms by (induction es arbitrary: g) (simp_all add: step_cut)

lemma run_live_or_cut:
  assumes "glowLive t0 g b" and "t0 \<noteq> 0" and "isButton b" and "list_all (hoverOn b) es"
  shows "glowLive t0 (glow_run es g) b \<or> glowCut t0 (glow_run es g) b"
  using assms
proof (induction es arbitrary: g)
  case Nil
  then show ?case by simp
next
  case (Cons e es)
  have h: "hoverOn b e" "list_all (hoverOn b) es" using Cons.prems(4) by simp_all
  show ?case
  proof (cases "eventTime e - t0 \<ge> 2000")
    case True
    then have "glowCut t0 (glow_step e g) b"
      using step_live[OF Cons.prems(1,2,3) h(1)] by simp
    then show ?thesis using run_cut[OF _ Cons.prems(2,3) h(2)] by simp
  next
    case False
    then have "glowLive t0 (glow_step e g) b"
      using step_live[OF Cons.prems(1,2,3) h(1)] by simp
    then show ?thesis using Cons.IH[OF _ Cons.prems(2,3) h(2)] by simp
  qed
qed

lemma run_live_early:
  assumes "glowLive t0 g b" and "t0 \<noteq> 0" and "isButton b"
    and "list_all (\<lambda>e. hoverOn b e \<and> eventTime e < t0 + 2000) es"
  shows "glowLive t0 (glow_run es g) b"
  using assms
proof (induction es arbitrary: g)
  case Nil
  then show ?case by simp
next
  case (Cons e es)
  have h: "hoverOn b e" "eventTime e < t0 + 2000"
    "list_all (\<lambda>e. hoverOn b e \<and> eventTime e < t0 + 2000) es" using Cons.prems(4) by simp_all
  have "\<not> eventTime e - t0 \<ge> 2000" using h(2) by simp
  then have "glowLive t0 (glow_step e g) b"
    using step_live[OF Cons.prems(1,2,3) h(1)] by simp
  then show ?case using Cons.IH[OF _ Cons.prems(2,3) h(3)] by simp
qed

lemma run_cutoff:
  assumes "glowLive t0 g b" and "t0 \<noteq> 0" and "isButton b"
    and "list_all (hoverOn b) es1" and "hoverOn b e" and "list_all (hoverOn b) es2"
    and "eventTime e \<ge> t0 + 2000"
  shows "glowCut t0 (glow_run (es1 @ e # es2) g) b"
proof -
  let ?g1 = "glow_run es1 g"
  have "glowCut t0 (glow_step e ?g1) b"
  proof -
    from run_live_or_cut[OF assms(1-4)] show ?thesis
    proof
      assume l: "glowLive t0 ?g1 b"
      have "eventTime e - t0 \<ge> 2000" using assms(7) by simp
      then show ?thesis using step_live[OF l assms(2,3,5)] by simp
    next
      assume c: "glowCut t0 ?g1 b"
      then show ?thesis using step_cut[OF c assms(2,3,5)] by simp
    qed
  qed
  then have "glowCut t0 (glow_run es2 (glow_step e ?g1)) b"
    using run_cut[OF _ assms(2,3,6)] by simp
  then show ?thesis by (simp add: run_append)
qed

lemma target_of:
  "glowLive t0 g b \<Longrightarrow> glowTargetOf g b = Some 1"
  "glowCut t0 g b \<Longrightarrow> glowTargetOf g b = Some 0"
  by (auto simp: glowLive_def glowCut_def glowTargetOf_def split: option.splits)

lemma forced_of:
  "glowCut t0 g b \<Longrightarrow> map_option forcedOff (glowState g b) = Some True"
  by (auto simp: glowCut_def split: option.splits)

text \<open>
  Claim C9. Let the pointer enter a button that can glow at time \<open>t0\<close>. The glow
  target becomes 1 and stays 1 while the hover events are earlier than \<open>t0 + 2000\<close>.
  Once a frame or pointer-move at or after \<open>t0 + 2000\<close> has been processed the target is
  0 and the cutoff flag is set, and they stay so for every further event of the same
  hover. After an event that ends the hover, re-entering the button sets the target to 1
  again.
\<close>

theorem glow_hover_cutoff:
  assumes "isButton b" and "glowIdle g b" and "0 < t0" and "tvIsOn \<or> b = PowerButton"
  shows "MAX_GLOW_HOVER_MS = 2000
    \<and> glowTargetOf (glow_run [PointerMove (Some b) tvIsOn t0] g) b = Some 1
    \<and> (\<forall>es. list_all (\<lambda>e. hoverOn b e \<and> eventTime e < t0 + MAX_GLOW_HOVER_MS) es \<longrightarrow>
          glowTargetOf (glow_run (PointerMove (Some b) tvIsOn t0 # es) g) b = Some 1)
    \<and> (\<forall>es1 e es2.
          list_all (hoverOn b) es1 \<and> hoverOn b e \<and> t0 + MAX_GLOW_HOVER_MS \<le> eventTime e
          \<and> list_all (hoverOn b) es2 \<longrightarrow>
          glowTargetOf (glow_run (PointerMove (Some b) tvIsOn t0 # es1 @ e # es2) g) b = Some 0
          \<and> map_option forcedOff
               (glowState (glow_run (PointerMove (Some b) tvIsOn t0 # es1 @ e # es2) g) b)
              = Some True)
    \<and> (\<forall>es e1 t2.
          list_all (hoverOn b) es \<and> \<not> hoverOn b e1 \<and> 0 < t2 \<longrightarrow>
          glowTargetOf
            (glow_run (PointerMove (Some b) tvIsOn t0 # es @ [e1, PointerMove (Some b) tvIsOn t2]) g)
            b = Some 1)"
proof -
  let ?e0 = "PointerMove (Some b) tvIsOn t0"
  let ?g0 = "glow_step ?e0 g"
  have t0: "t0 \<noteq> 0" using assms(3) by simp
  have live0: "glowLive t0 ?g0 b"
    using move_hover_idle[OF assms(2,1,4,3)] by simp
  have c1: "glowTargetOf (glow_run [?e0] g) b = Some 1"
    using target_of(1)[OF live0] by simp
  have c2: "\<forall>es. list_all (\<lambda>e. hoverOn b e \<and> eventTime e < t0 + MAX_GLOW_HOVER_MS) es \<longrightarrow>
          glowTargetOf (glow_run (?e0 # es) g) b = Some 1"
  proof (intro allI impI)
    fix es
    assume "list_all (\<lambda>e. hoverOn b e \<and> eventTime e < t0 + MAX_GLOW_HOVER_MS) es"
    then have "list_all (\<lambda>e. hoverOn b e \<and> eventTime e < t0 + 2000) es"
      by (simp add: MAX_GLOW_HOVER_MS_def)
    then have "glowLive t0 (glow_run es ?g0) b"
      using run_live_early[OF live0 t0 assms(1)] by blast
    then show "glowTargetOf (glow_run (?e0 # es) g) b = Some 1"
      using target_of(1) by simp
  qed
  have c3: "\<forall>es1 e es2.
          list_all (hoverOn b) es1 \<and> hoverOn b e \<and> t0 + MAX_GLOW_HOVER_MS \<le> eventTime e
          \<and> list_all (hoverOn b) es2 \<longrightarrow>
          glowTargetOf (glow_run (?e0 # es1 @ e # es2) g) b = Some 0
          \<and> map_option forcedOff (glowState (glow_run (?e0 # es1 @ e # es2) g) b) = Some True"
  proof (intro allI impI)
    fix es1 e es2
    assume h: "list_all (hoverOn b) es1 \<and> hoverOn b e \<and> t0 + MAX_GLOW_HOVER_MS \<le> eventTime e
          \<and> list_all (hoverOn b) es2"
    then have "t0 + 2000 \<le> eventTime e" by (simp add: MAX_GLOW_HOVER_MS_def)
    then have "glowCut t0 (glow_run (es1 @ e # es2) ?g0) b"
      using run_cutoff[OF live0 t0 assms(1)] h by blast
    then show "glowTargetOf (glow_run (?e0 # es1 @ e # es2) g) b = Some 0
          \<and> map_option forcedOff (glowState (glow_run (?e0 # es1 @ e # es2) g) b) = Some True"
      using target_of(2) forced_of by simp
  qed
  have c4: "\<forall>es e1 t2.
          list_all (hoverOn b) es \<and> \<not> hoverOn b e1 \<and> 0 < t2 \<longrightarrow>
          glowTargetOf (glow_run (?e0 # es @ [e1, PointerMove (Some b) tvIsOn t2]) g) b = Some 1"
  proof (intro allI impI)
    fix es e1 and t2 :: real
    assume h: "list_all (hoverOn b) es \<and> \<not> hoverOn b e1 \<and> 0 < t2"
    let ?g1 = "glow_run es ?g0"
    have "glowLive t0 ?g1 b \<or> glowCut t0 ?g1 b"
      using run_live_or_cut[OF live0 t0 assms(1)] h by blast
    then have "meshMat ?g1 b \<noteq> None" using live_mat cut_mat by blast
    then have "glowIdle (glow_step e1 ?g1) b" using step_end[OF _ assms(1)] h by blast
    then have "glowLive t2 (pointerMoveGlow (Some b) tvIsOn t2 (glow_step e1 ?g1)) b"
      using move_hover_idle[OF _ assms(1,4)] h by blast
    then have "glowTargetOf (pointerMoveGlow (Some b) tvIsOn t2 (glow_step e1 ?g1)) b = Some 1"
      by (rule target_of(1))
    then show "glowTargetOf (glow_run (?e0 # es @ [e1, PointerMove (Some b) tvIsOn t2]) g) b = Some 1"
      by (simp add: run_append)
  qed
  show ?thesis using c1 c2 c3 c4 by (simp add: MAX_GLOW_HOVER_MS_def)
qed

theorem glow_hover_cutoff_witness:
  "isButton PowerButton \<and> glowIdle demo_glow PowerButton
   \<and> glowTargetOf (glow_run [PointerMove (Some PowerButton) False 100] demo_glow) PowerButton = Some 1
   \<and> glowTargetOf
       (glow_run [PointerMove (Some PowerButton) False 100, GlowFrame 1000,
                  PointerMove (Some PowerButton) False 1500] demo_glow) PowerButton = Some 1
   \<and> glowTargetOf
       (glow_run [PointerMove (Some PowerButton) False 100, GlowFrame 1000, GlowFrame 2100,
                  PointerMove (Some PowerButton) False 2200] demo_glow) PowerButton = Some 0
   \<and> glowTargetOf
       (glow_run [PointerMove (Some PowerButton) False 100, GlowFrame 1000, GlowFrame 2100,
                  PointerLeave 2300, PointerMove (Some PowerButton) False 2400] demo_glow)
       PowerButton = Some 1"
proof -
  have h1: "isButton PowerButton" by (simp add: isButton_def)
  have h2: "glowIdle demo_glow PowerButton" by (simp add: glowIdle_def demo_glow_def)
  have h3: "(0::real) < 100" by simp
  have h4: "False \<or> PowerButton = PowerButton" by simp
  note t = glow_hover_cutoff[OF h1 h2 h3 h4]
  have a: "glowTargetOf
       (glow_run [PointerMove (Some PowerButton) False 100, GlowFrame 1000,
                  PointerMove (Some PowerButton) False 1500] demo_glow) PowerButton = Some 1"
  proof -
    have "list_all (\<lambda>e. hoverOn PowerButton e \<and> eventTime e < 100 + MAX_GLOW_HOVER_MS)
            [GlowFrame 1000, PointerMove (Some PowerButton) False 1500]"
      by (simp add: MAX_GLOW_HOVER_MS_def)
    then show ?thesis using t by blast
  qed
  have b: "glowTargetOf
       (glow_run [PointerMove (Some PowerButton) False 100, GlowFrame 1000, GlowFrame 2100,
                  PointerMove (Some PowerButton) False 2200] demo_glow) PowerButton = Some 0"
  proof -
    have "list_all (hoverOn PowerButton) [GlowFrame 1000] \<and> hoverOn PowerButton (GlowFrame 2100)
          \<and> 100 + MAX_GLOW_HOVER_MS \<le> eventTime (GlowFrame 2100)
          \<and> list_all (hoverOn PowerButton) [PointerMove (Some PowerButton) False 2200]"
      by (simp add: MAX_GLOW_HOVER_MS_def)
    then have "glowTargetOf
       (glow_run (PointerMove (Some PowerButton) False 100 # [GlowFrame 1000] @ GlowFrame 2100
                  # [PointerMove (Some PowerButton) False 2200]) demo_glow) PowerButton = Some 0"
      using t by blast
    then show ?thesis by simp
  qed
  have c: "glowTargetOf
       (glow_run [PointerMove (Some PowerButton) False 100, GlowFrame 1000, GlowFrame 2100,
                  PointerLeave 2300, PointerMove (Some PowerButton) False 2400] demo_glow)
       PowerButton = Some 1"
  proof -
    have "list_all (hoverOn PowerButton) [GlowFrame 1000, GlowFrame 2100]
          \<and> \<not> hoverOn PowerButton (PointerLeave 2300) \<and> (0::real) < 2400"
      by simp
    then have "glowTargetOf
       (glow_run (PointerMove (Some PowerButton) False 100 # [GlowFrame 1000, GlowFrame 2100]
                  @ [PointerLeave 2300, PointerMove (Some PowerButton) False 2400]) demo_glow)
       PowerButton = Some 1"
      using t by blast
    then show ?thesis by simp
  qed
  show ?thesis using h1 h2 t a b c by blast
qed

end
